theory Spec2Isabelle
  imports Main "HOL-Library.Word"
begin

section \<open>Data model of tls/s2n_cipher_suites.c\<close>

text \<open>
  The embedding follows \<^verbatim>\<open>src/tls/s2n_cipher_suites.c\<close>. Bytes are \<open>8 word\<close>; an IANA
  code (\<^verbatim>\<open>uint8_t iana_value[2]\<close>) is the pair of its two bytes, in wire order.
  Pointers that the file compares with \<^verbatim>\<open>NULL\<close> are options.
\<close>

type_synonym uint8_t = "8 word"
type_synonym iana = "uint8_t \<times> uint8_t"

datatype s2n_error =
    S2N_ERR_NULL
  | S2N_ERR_ALLOC
  | S2N_ERR_INITIALIZED
  | S2N_ERR_INVALID_SECURITY_POLICY
  | S2N_ERR_CIPHER_NOT_SUPPORTED
  | S2N_ERR_FALLBACK_DETECTED
  | IllegalParameter

text \<open>
  \<open>s2n_error\<close> lists the error codes the file raises (through \<^verbatim>\<open>POSIX_ENSURE\<close>,
  \<^verbatim>\<open>POSIX_BAIL\<close>, \<^verbatim>\<open>POSIX_ENSURE_REF\<close> and the allocator). The last constructor is the
  \<open>IllegalParameter\<close> kind of the specification's error taxonomy: no statement of the
  file raises it, and it is here only so that results can be compared with it.
\<close>

datatype s2n_hmac_algorithm =
    S2N_HMAC_NONE
  | S2N_HMAC_MD5
  | S2N_HMAC_SHA1
  | S2N_HMAC_SHA256
  | S2N_HMAC_SHA384
  | S2N_HMAC_SSLv3_MD5
  | S2N_HMAC_SSLv3_SHA1

datatype s2n_cipher =
    s2n_null_cipher
  | s2n_rc4
  | s2n_3des
  | s2n_aes128
  | s2n_aes256
  | s2n_aes128_sha
  | s2n_aes256_sha
  | s2n_aes128_sha256
  | s2n_aes256_sha256
  | s2n_aes128_gcm
  | s2n_aes256_gcm
  | s2n_chacha20_poly1305
  | s2n_tls13_aes128_gcm
  | s2n_tls13_aes256_gcm

datatype s2n_record_flags =
    S2N_NO_FLAGS
  | S2N_TLS12_AES_GCM_AEAD_NONCE
  | S2N_TLS12_CHACHA_POLY_AEAD_NONCE
  | S2N_TLS13_RECORD_AEAD_NONCE

datatype s2n_encryption_limit =
    UINT64_MAX
  | S2N_TLS13_AES_GCM_MAXIMUM_RECORD_NUMBER

record s2n_record_algorithm =
  cipher :: s2n_cipher
  hmac_alg :: s2n_hmac_algorithm
  flags :: s2n_record_flags
  encryption_limit :: s2n_encryption_limit

datatype s2n_kex = s2n_rsa | s2n_dhe | s2n_ecdhe | s2n_hybrid_ecdhe_kem | s2n_kem

datatype s2n_authentication_method =
    S2N_AUTHENTICATION_RSA
  | S2N_AUTHENTICATION_ECDSA
  | S2N_AUTHENTICATION_METHOD_TLS13

text \<open>
  The cipher suite objects of the file are C globals that are compared by address
  (the two group delimiters) and mutated in place by the initializer, so the embedding
  keeps them in a store. \<open>s2n_suite_object\<close> names the globals; a pointer is the
  address of a global or of a heap cell returned by \<^verbatim>\<open>s2n_dup\<close>.
\<close>

datatype s2n_suite_object =
    s2n_null_cipher_suite
  | s2n_equal_preference_group_start
  | s2n_equal_preference_group_end
  | s2n_rsa_with_rc4_128_md5
  | s2n_rsa_with_rc4_128_sha
  | s2n_rsa_with_3des_ede_cbc_sha
  | s2n_dhe_rsa_with_3des_ede_cbc_sha
  | s2n_rsa_with_aes_128_cbc_sha
  | s2n_dhe_rsa_with_aes_128_cbc_sha
  | s2n_rsa_with_aes_256_cbc_sha
  | s2n_dhe_rsa_with_aes_256_cbc_sha
  | s2n_rsa_with_aes_128_cbc_sha256
  | s2n_rsa_with_aes_256_cbc_sha256
  | s2n_dhe_rsa_with_aes_128_cbc_sha256
  | s2n_dhe_rsa_with_aes_256_cbc_sha256
  | s2n_rsa_with_aes_128_gcm_sha256
  | s2n_rsa_with_aes_256_gcm_sha384
  | s2n_dhe_rsa_with_aes_128_gcm_sha256
  | s2n_dhe_rsa_with_aes_256_gcm_sha384
  | s2n_ecdhe_ecdsa_with_aes_128_cbc_sha
  | s2n_ecdhe_ecdsa_with_aes_256_cbc_sha
  | s2n_ecdhe_rsa_with_rc4_128_sha
  | s2n_ecdhe_rsa_with_3des_ede_cbc_sha
  | s2n_ecdhe_rsa_with_aes_128_cbc_sha
  | s2n_ecdhe_rsa_with_aes_256_cbc_sha
  | s2n_ecdhe_ecdsa_with_aes_128_cbc_sha256
  | s2n_ecdhe_ecdsa_with_aes_256_cbc_sha384
  | s2n_ecdhe_rsa_with_aes_128_cbc_sha256
  | s2n_ecdhe_rsa_with_aes_256_cbc_sha384
  | s2n_ecdhe_ecdsa_with_aes_128_gcm_sha256
  | s2n_ecdhe_ecdsa_with_aes_256_gcm_sha384
  | s2n_ecdhe_rsa_with_aes_128_gcm_sha256
  | s2n_ecdhe_rsa_with_aes_256_gcm_sha384
  | s2n_ecdhe_rsa_with_chacha20_poly1305_sha256
  | s2n_ecdhe_ecdsa_with_chacha20_poly1305_sha256
  | s2n_dhe_rsa_with_chacha20_poly1305_sha256
  | s2n_ecdhe_kyber_rsa_with_aes_256_gcm_sha384
  | s2n_tls13_aes_128_gcm_sha256
  | s2n_tls13_aes_256_gcm_sha384
  | s2n_tls13_chacha20_poly1305_sha256

datatype suite_ptr = Global s2n_suite_object | Heap nat

record s2n_cipher_suite =
  available :: bool
  name :: string
  iana_value :: iana
  key_exchange_alg :: "s2n_kex option"
  auth_method :: s2n_authentication_method
  record_alg :: "s2n_record_algorithm option"
  all_record_algs :: "s2n_record_algorithm list"
  num_record_algs :: nat
  sslv3_record_alg :: "s2n_record_algorithm option"
  sslv3_cipher_suite :: "suite_ptr option"
  prf_alg :: s2n_hmac_algorithm
  minimum_required_tls_version :: uint8_t

text \<open>
  Protocol versions are the \<^verbatim>\<open>uint8_t\<close> constants of \<^verbatim>\<open>api/s2n.h\<close>, which is not
  among the sources; the file only compares them, and the specification orders them
  SSLv3, TLS1.0, TLS1.1, TLS1.2, TLS1.3.
\<close>

definition S2N_SSLv3 :: uint8_t where "S2N_SSLv3 = 30"
definition S2N_TLS10 :: uint8_t where "S2N_TLS10 = 31"
definition S2N_TLS11 :: uint8_t where "S2N_TLS11 = 32"
definition S2N_TLS12 :: uint8_t where "S2N_TLS12 = 33"
definition S2N_TLS13 :: uint8_t where "S2N_TLS13 = 34"

definition S2N_TLS_CIPHER_SUITE_LEN :: nat where "S2N_TLS_CIPHER_SUITE_LEN = 2"
definition S2N_SSLv2_CIPHER_SUITE_LEN :: nat where "S2N_SSLv2_CIPHER_SUITE_LEN = 3"

text \<open>
  Modelled from the spec: the two signalling codes, whose macros live in
  \<^verbatim>\<open>tls/s2n_tls_parameters.h\<close> (not among the sources). Section 6 of the specification
  gives \<open>TLS_FALLBACK_SCSV = 0x56,0x00\<close> and
  \<open>TLS_EMPTY_RENEGOTIATION_INFO_SCSV = 0x00,0xFF\<close>.
\<close>

definition TLS_FALLBACK_SCSV :: iana where "TLS_FALLBACK_SCSV = (0x56, 0x00)"
definition TLS_EMPTY_RENEGOTIATION_INFO_SCSV :: iana where
  "TLS_EMPTY_RENEGOTIATION_INFO_SCSV = (0x00, 0xFF)"

subsection \<open>Record algorithms\<close>

definition s2n_record_alg_null :: s2n_record_algorithm where
  "s2n_record_alg_null =
     \<lparr>cipher = s2n_null_cipher, hmac_alg = S2N_HMAC_NONE, flags = S2N_NO_FLAGS, encryption_limit = UINT64_MAX\<rparr>"

definition s2n_record_alg_rc4_md5 :: s2n_record_algorithm where
  "s2n_record_alg_rc4_md5 =
     \<lparr>cipher = s2n_rc4, hmac_alg = S2N_HMAC_MD5, flags = S2N_NO_FLAGS, encryption_limit = UINT64_MAX\<rparr>"

definition s2n_record_alg_rc4_sslv3_md5 :: s2n_record_algorithm where
  "s2n_record_alg_rc4_sslv3_md5 =
     \<lparr>cipher = s2n_rc4, hmac_alg = S2N_HMAC_SSLv3_MD5, flags = S2N_NO_FLAGS, encryption_limit = UINT64_MAX\<rparr>"

definition s2n_record_alg_rc4_sha :: s2n_record_algorithm where
  "s2n_record_alg_rc4_sha =
     \<lparr>cipher = s2n_rc4, hmac_alg = S2N_HMAC_SHA1, flags = S2N_NO_FLAGS, encryption_limit = UINT64_MAX\<rparr>"

definition s2n_record_alg_rc4_sslv3_sha :: s2n_record_algorithm where
  "s2n_record_alg_rc4_sslv3_sha =
     \<lparr>cipher = s2n_rc4, hmac_alg = S2N_HMAC_SSLv3_SHA1, flags = S2N_NO_FLAGS, encryption_limit = UINT64_MAX\<rparr>"

definition s2n_record_alg_3des_sha :: s2n_record_algorithm where
  "s2n_record_alg_3des_sha =
     \<lparr>cipher = s2n_3des, hmac_alg = S2N_HMAC_SHA1, flags = S2N_NO_FLAGS, encryption_limit = UINT64_MAX\<rparr>"

definition s2n_record_alg_3des_sslv3_sha :: s2n_record_algorithm where
  "s2n_record_alg_3des_sslv3_sha =
     \<lparr>cipher = s2n_3des, hmac_alg = S2N_HMAC_SSLv3_SHA1, flags = S2N_NO_FLAGS, encryption_limit = UINT64_MAX\<rparr>"

definition s2n_record_alg_aes128_sha :: s2n_record_algorithm where
  "s2n_record_alg_aes128_sha =
     \<lparr>cipher = s2n_aes128, hmac_alg = S2N_HMAC_SHA1, flags = S2N_NO_FLAGS, encryption_limit = UINT64_MAX\<rparr>"

definition s2n_record_alg_aes128_sslv3_sha :: s2n_record_algorithm where
  "s2n_record_alg_aes128_sslv3_sha =
     \<lparr>cipher = s2n_aes128, hmac_alg = S2N_HMAC_SSLv3_SHA1, flags = S2N_NO_FLAGS, encryption_limit = UINT64_MAX\<rparr>"

definition s2n_record_alg_aes128_sha_composite :: s2n_record_algorithm where
  "s2n_record_alg_aes128_sha_composite =
     \<lparr>cipher = s2n_aes128_sha, hmac_alg = S2N_HMAC_NONE, flags = S2N_NO_FLAGS, encryption_limit = UINT64_MAX\<rparr>"

definition s2n_record_alg_aes128_sha256 :: s2n_record_algorithm where
  "s2n_record_alg_aes128_sha256 =
     \<lparr>cipher = s2n_aes128, hmac_alg = S2N_HMAC_SHA256, flags = S2N_NO_FLAGS, encryption_limit = UINT64_MAX\<rparr>"

definition s2n_record_alg_aes128_sha256_composite :: s2n_record_algorithm where
  "s2n_record_alg_aes128_sha256_composite =
     \<lparr>cipher = s2n_aes128_sha256, hmac_alg = S2N_HMAC_NONE, flags = S2N_NO_FLAGS, encryption_limit = UINT64_MAX\<rparr>"

definition s2n_record_alg_aes256_sha :: s2n_record_algorithm where
  "s2n_record_alg_aes256_sha =
     \<lparr>cipher = s2n_aes256, hmac_alg = S2N_HMAC_SHA1, flags = S2N_NO_FLAGS, encryption_limit = UINT64_MAX\<rparr>"

definition s2n_record_alg_aes256_sslv3_sha :: s2n_record_algorithm where
  "s2n_record_alg_aes256_sslv3_sha =
     \<lparr>cipher = s2n_aes256, hmac_alg = S2N_HMAC_SSLv3_SHA1, flags = S2N_NO_FLAGS, encryption_limit = UINT64_MAX\<rparr>"

definition s2n_record_alg_aes256_sha_composite :: s2n_record_algorithm where
  "s2n_record_alg_aes256_sha_composite =
     \<lparr>cipher = s2n_aes256_sha, hmac_alg = S2N_HMAC_NONE, flags = S2N_NO_FLAGS, encryption_limit = UINT64_MAX\<rparr>"

definition s2n_record_alg_aes256_sha256 :: s2n_record_algorithm where
  "s2n_record_alg_aes256_sha256 =
     \<lparr>cipher = s2n_aes256, hmac_alg = S2N_HMAC_SHA256, flags = S2N_NO_FLAGS, encryption_limit = UINT64_MAX\<rparr>"

definition s2n_record_alg_aes256_sha256_composite :: s2n_record_algorithm where
  "s2n_record_alg_aes256_sha256_composite =
     \<lparr>cipher = s2n_aes256_sha256, hmac_alg = S2N_HMAC_NONE, flags = S2N_NO_FLAGS, encryption_limit = UINT64_MAX\<rparr>"

definition s2n_record_alg_aes256_sha384 :: s2n_record_algorithm where
  "s2n_record_alg_aes256_sha384 =
     \<lparr>cipher = s2n_aes256, hmac_alg = S2N_HMAC_SHA384, flags = S2N_NO_FLAGS, encryption_limit = UINT64_MAX\<rparr>"

definition s2n_record_alg_aes128_gcm :: s2n_record_algorithm where
  "s2n_record_alg_aes128_gcm =
     \<lparr>cipher = s2n_aes128_gcm, hmac_alg = S2N_HMAC_NONE, flags = S2N_TLS12_AES_GCM_AEAD_NONCE, encryption_limit = UINT64_MAX\<rparr>"

definition s2n_record_alg_aes256_gcm :: s2n_record_algorithm where
  "s2n_record_alg_aes256_gcm =
     \<lparr>cipher = s2n_aes256_gcm, hmac_alg = S2N_HMAC_NONE, flags = S2N_TLS12_AES_GCM_AEAD_NONCE, encryption_limit = UINT64_MAX\<rparr>"

definition s2n_record_alg_chacha20_poly1305 :: s2n_record_algorithm where
  "s2n_record_alg_chacha20_poly1305 =
     \<lparr>cipher = s2n_chacha20_poly1305, hmac_alg = S2N_HMAC_NONE, flags = S2N_TLS12_CHACHA_POLY_AEAD_NONCE, encryption_limit = UINT64_MAX\<rparr>"

definition s2n_tls13_record_alg_aes128_gcm :: s2n_record_algorithm where
  "s2n_tls13_record_alg_aes128_gcm =
     \<lparr>cipher = s2n_tls13_aes128_gcm, hmac_alg = S2N_HMAC_NONE, flags = S2N_TLS13_RECORD_AEAD_NONCE, encryption_limit = S2N_TLS13_AES_GCM_MAXIMUM_RECORD_NUMBER\<rparr>"

definition s2n_tls13_record_alg_aes256_gcm :: s2n_record_algorithm where
  "s2n_tls13_record_alg_aes256_gcm =
     \<lparr>cipher = s2n_tls13_aes256_gcm, hmac_alg = S2N_HMAC_NONE, flags = S2N_TLS13_RECORD_AEAD_NONCE, encryption_limit = S2N_TLS13_AES_GCM_MAXIMUM_RECORD_NUMBER\<rparr>"

definition s2n_tls13_record_alg_chacha20_poly1305 :: s2n_record_algorithm where
  "s2n_tls13_record_alg_chacha20_poly1305 =
     \<lparr>cipher = s2n_chacha20_poly1305, hmac_alg = S2N_HMAC_NONE, flags = S2N_TLS13_RECORD_AEAD_NONCE, encryption_limit = UINT64_MAX\<rparr>"

subsection \<open>Cipher suites\<close>

text \<open>
  \<open>static_initializer\<close> gives each global its C initializer. The IANA codes are those
  the source writes beside each suite (the macros themselves are in a header that is
  not among the sources); \<^verbatim>\<open>TLS_NULL_WITH_NULL_NULL\<close> is \<open>0x00,0x00\<close>. Fields an
  initializer leaves out are zero.
\<close>

primrec static_initializer :: "s2n_suite_object \<Rightarrow> s2n_cipher_suite" where
  "static_initializer s2n_null_cipher_suite =
     \<lparr>available = True, name = ''TLS_NULL_WITH_NULL_NULL'',
      iana_value = (0x00, 0x00), key_exchange_alg = Some s2n_rsa,
      auth_method = S2N_AUTHENTICATION_RSA, record_alg = Some s2n_record_alg_null,
      all_record_algs = [],
      num_record_algs = 0, sslv3_record_alg = None,
      sslv3_cipher_suite = None, prf_alg = S2N_HMAC_NONE,
      minimum_required_tls_version = 0\<rparr>"
| "static_initializer s2n_equal_preference_group_start =
     \<lparr>available = False, name = ''EQUAL_PREFERENCE_GROUP_START'',
      iana_value = (0x00, 0x00), key_exchange_alg = Some s2n_rsa,
      auth_method = S2N_AUTHENTICATION_RSA, record_alg = Some s2n_record_alg_null,
      all_record_algs = [],
      num_record_algs = 0, sslv3_record_alg = None,
      sslv3_cipher_suite = None, prf_alg = S2N_HMAC_NONE,
      minimum_required_tls_version = 0\<rparr>"
| "static_initializer s2n_equal_preference_group_end =
     \<lparr>available = False, name = ''EQUAL_PREFERENCE_GROUP_END'',
      iana_value = (0x00, 0x00), key_exchange_alg = Some s2n_rsa,
      auth_method = S2N_AUTHENTICATION_RSA, record_alg = Some s2n_record_alg_null,
      all_record_algs = [],
      num_record_algs = 0, sslv3_record_alg = None,
      sslv3_cipher_suite = None, prf_alg = S2N_HMAC_NONE,
      minimum_required_tls_version = 0\<rparr>"
| "static_initializer s2n_rsa_with_rc4_128_md5 =
     \<lparr>available = False, name = ''RC4-MD5'',
      iana_value = (0x00, 0x04), key_exchange_alg = Some s2n_rsa,
      auth_method = S2N_AUTHENTICATION_RSA, record_alg = None,
      all_record_algs = [s2n_record_alg_rc4_md5],
      num_record_algs = 1, sslv3_record_alg = Some s2n_record_alg_rc4_sslv3_md5,
      sslv3_cipher_suite = None, prf_alg = S2N_HMAC_SHA256,
      minimum_required_tls_version = S2N_SSLv3\<rparr>"
| "static_initializer s2n_rsa_with_rc4_128_sha =
     \<lparr>available = False, name = ''RC4-SHA'',
      iana_value = (0x00, 0x05), key_exchange_alg = Some s2n_rsa,
      auth_method = S2N_AUTHENTICATION_RSA, record_alg = None,
      all_record_algs = [s2n_record_alg_rc4_sha],
      num_record_algs = 1, sslv3_record_alg = Some s2n_record_alg_rc4_sslv3_sha,
      sslv3_cipher_suite = None, prf_alg = S2N_HMAC_SHA256,
      minimum_required_tls_version = S2N_SSLv3\<rparr>"
| "static_initializer s2n_rsa_with_3des_ede_cbc_sha =
     \<lparr>available = False, name = ''DES-CBC3-SHA'',
      iana_value = (0x00, 0x0A), key_exchange_alg = Some s2n_rsa,
      auth_method = S2N_AUTHENTICATION_RSA, record_alg = None,
      all_record_algs = [s2n_record_alg_3des_sha],
      num_record_algs = 1, sslv3_record_alg = Some s2n_record_alg_3des_sslv3_sha,
      sslv3_cipher_suite = None, prf_alg = S2N_HMAC_SHA256,
      minimum_required_tls_version = S2N_SSLv3\<rparr>"
| "static_initializer s2n_dhe_rsa_with_3des_ede_cbc_sha =
     \<lparr>available = False, name = ''DHE-RSA-DES-CBC3-SHA'',
      iana_value = (0x00, 0x16), key_exchange_alg = Some s2n_dhe,
      auth_method = S2N_AUTHENTICATION_RSA, record_alg = None,
      all_record_algs = [s2n_record_alg_3des_sha],
      num_record_algs = 1, sslv3_record_alg = Some s2n_record_alg_3des_sslv3_sha,
      sslv3_cipher_suite = None, prf_alg = S2N_HMAC_SHA256,
      minimum_required_tls_version = S2N_SSLv3\<rparr>"
| "static_initializer s2n_rsa_with_aes_128_cbc_sha =
     \<lparr>available = False, name = ''AES128-SHA'',
      iana_value = (0x00, 0x2F), key_exchange_alg = Some s2n_rsa,
      auth_method = S2N_AUTHENTICATION_RSA, record_alg = None,
      all_record_algs = [s2n_record_alg_aes128_sha_composite, s2n_record_alg_aes128_sha],
      num_record_algs = 2, sslv3_record_alg = Some s2n_record_alg_aes128_sslv3_sha,
      sslv3_cipher_suite = None, prf_alg = S2N_HMAC_SHA256,
      minimum_required_tls_version = S2N_SSLv3\<rparr>"
| "static_initializer s2n_dhe_rsa_with_aes_128_cbc_sha =
     \<lparr>available = False, name = ''DHE-RSA-AES128-SHA'',
      iana_value = (0x00, 0x33), key_exchange_alg = Some s2n_dhe,
      auth_method = S2N_AUTHENTICATION_RSA, record_alg = None,
      all_record_algs = [s2n_record_alg_aes128_sha_composite, s2n_record_alg_aes128_sha],
      num_record_algs = 2, sslv3_record_alg = Some s2n_record_alg_aes128_sslv3_sha,
      sslv3_cipher_suite = None, prf_alg = S2N_HMAC_SHA256,
      minimum_required_tls_version = S2N_SSLv3\<rparr>"
| "static_initializer s2n_rsa_with_aes_256_cbc_sha =
     \<lparr>available = False, name = ''AES256-SHA'',
      iana_value = (0x00, 0x35), key_exchange_alg = Some s2n_rsa,
      auth_method = S2N_AUTHENTICATION_RSA, record_alg = None,
      all_record_algs = [s2n_record_alg_aes256_sha_composite, s2n_record_alg_aes256_sha],
      num_record_algs = 2, sslv3_record_alg = Some s2n_record_alg_aes256_sslv3_sha,
      sslv3_cipher_suite = None, prf_alg = S2N_HMAC_SHA256,
      minimum_required_tls_version = S2N_SSLv3\<rparr>"
| "static_initializer s2n_dhe_rsa_with_aes_256_cbc_sha =
     \<lparr>available = False, name = ''DHE-RSA-AES256-SHA'',
      iana_value = (0x00, 0x39), key_exchange_alg = Some s2n_dhe,
      auth_method = S2N_AUTHENTICATION_RSA, record_alg = None,
      all_record_algs = [s2n_record_alg_aes256_sha_composite, s2n_record_alg_aes256_sha],
      num_record_algs = 2, sslv3_record_alg = Some s2n_record_alg_aes256_sslv3_sha,
      sslv3_cipher_suite = None, prf_alg = S2N_HMAC_SHA256,
      minimum_required_tls_version = S2N_SSLv3\<rparr>"
| "static_initializer s2n_rsa_with_aes_128_cbc_sha256 =
     \<lparr>available = False, name = ''AES128-SHA256'',
      iana_value = (0x00, 0x3C), key_exchange_alg = Some s2n_rsa,
      auth_method = S2N_AUTHENTICATION_RSA, record_alg = None,
      all_record_algs = [s2n_record_alg_aes128_sha256_composite, s2n_record_alg_aes128_sha256],
      num_record_algs = 2, sslv3_record_alg = None,
      sslv3_cipher_suite = None, prf_alg = S2N_HMAC_SHA256,
      minimum_required_tls_version = S2N_TLS12\<rparr>"
| "static_initializer s2n_rsa_with_aes_256_cbc_sha256 =
     \<lparr>available = False, name = ''AES256-SHA256'',
      iana_value = (0x00, 0x3D), key_exchange_alg = Some s2n_rsa,
      auth_method = S2N_AUTHENTICATION_RSA, record_alg = None,
      all_record_algs = [s2n_record_alg_aes256_sha256_composite, s2n_record_alg_aes256_sha256],
      num_record_algs = 2, sslv3_record_alg = None,
      sslv3_cipher_suite = None, prf_alg = S2N_HMAC_SHA256,
      minimum_required_tls_version = S2N_TLS12\<rparr>"
| "static_initializer s2n_dhe_rsa_with_aes_128_cbc_sha256 =
     \<lparr>available = False, name = ''DHE-RSA-AES128-SHA256'',
      iana_value = (0x00, 0x67), key_exchange_alg = Some s2n_dhe,
      auth_method = S2N_AUTHENTICATION_RSA, record_alg = None,
      all_record_algs = [s2n_record_alg_aes128_sha256_composite, s2n_record_alg_aes128_sha256],
      num_record_algs = 2, sslv3_record_alg = None,
      sslv3_cipher_suite = None, prf_alg = S2N_HMAC_SHA256,
      minimum_required_tls_version = S2N_TLS12\<rparr>"
| "static_initializer s2n_dhe_rsa_with_aes_256_cbc_sha256 =
     \<lparr>available = False, name = ''DHE-RSA-AES256-SHA256'',
      iana_value = (0x00, 0x6B), key_exchange_alg = Some s2n_dhe,
      auth_method = S2N_AUTHENTICATION_RSA, record_alg = None,
      all_record_algs = [s2n_record_alg_aes256_sha256_composite, s2n_record_alg_aes256_sha256],
      num_record_algs = 2, sslv3_record_alg = None,
      sslv3_cipher_suite = None, prf_alg = S2N_HMAC_SHA256,
      minimum_required_tls_version = S2N_TLS12\<rparr>"
| "static_initializer s2n_rsa_with_aes_128_gcm_sha256 =
     \<lparr>available = False, name = ''AES128-GCM-SHA256'',
      iana_value = (0x00, 0x9C), key_exchange_alg = Some s2n_rsa,
      auth_method = S2N_AUTHENTICATION_RSA, record_alg = None,
      all_record_algs = [s2n_record_alg_aes128_gcm],
      num_record_algs = 1, sslv3_record_alg = None,
      sslv3_cipher_suite = None, prf_alg = S2N_HMAC_SHA256,
      minimum_required_tls_version = S2N_TLS12\<rparr>"
| "static_initializer s2n_rsa_with_aes_256_gcm_sha384 =
     \<lparr>available = False, name = ''AES256-GCM-SHA384'',
      iana_value = (0x00, 0x9D), key_exchange_alg = Some s2n_rsa,
      auth_method = S2N_AUTHENTICATION_RSA, record_alg = None,
      all_record_algs = [s2n_record_alg_aes256_gcm],
      num_record_algs = 1, sslv3_record_alg = None,
      sslv3_cipher_suite = None, prf_alg = S2N_HMAC_SHA384,
      minimum_required_tls_version = S2N_TLS12\<rparr>"
| "static_initializer s2n_dhe_rsa_with_aes_128_gcm_sha256 =
     \<lparr>available = False, name = ''DHE-RSA-AES128-GCM-SHA256'',
      iana_value = (0x00, 0x9E), key_exchange_alg = Some s2n_dhe,
      auth_method = S2N_AUTHENTICATION_RSA, record_alg = None,
      all_record_algs = [s2n_record_alg_aes128_gcm],
      num_record_algs = 1, sslv3_record_alg = None,
      sslv3_cipher_suite = None, prf_alg = S2N_HMAC_SHA256,
      minimum_required_tls_version = S2N_TLS12\<rparr>"
| "static_initializer s2n_dhe_rsa_with_aes_256_gcm_sha384 =
     \<lparr>available = False, name = ''DHE-RSA-AES256-GCM-SHA384'',
      iana_value = (0x00, 0x9F), key_exchange_alg = Some s2n_dhe,
      auth_method = S2N_AUTHENTICATION_RSA, record_alg = None,
      all_record_algs = [s2n_record_alg_aes256_gcm],
      num_record_algs = 1, sslv3_record_alg = None,
      sslv3_cipher_suite = None, prf_alg = S2N_HMAC_SHA384,
      minimum_required_tls_version = S2N_TLS12\<rparr>"
| "static_initializer s2n_ecdhe_ecdsa_with_aes_128_cbc_sha =
     \<lparr>available = False, name = ''ECDHE-ECDSA-AES128-SHA'',
      iana_value = (0xC0, 0x09), key_exchange_alg = Some s2n_ecdhe,
      auth_method = S2N_AUTHENTICATION_ECDSA, record_alg = None,
      all_record_algs = [s2n_record_alg_aes128_sha_composite, s2n_record_alg_aes128_sha],
      num_record_algs = 2, sslv3_record_alg = Some s2n_record_alg_aes128_sslv3_sha,
      sslv3_cipher_suite = None, prf_alg = S2N_HMAC_SHA256,
      minimum_required_tls_version = S2N_SSLv3\<rparr>"
| "static_initializer s2n_ecdhe_ecdsa_with_aes_256_cbc_sha =
     \<lparr>available = False, name = ''ECDHE-ECDSA-AES256-SHA'',
      iana_value = (0xC0, 0x0A), key_exchange_alg = Some s2n_ecdhe,
      auth_method = S2N_AUTHENTICATION_ECDSA, record_alg = None,
      all_record_algs = [s2n_record_alg_aes256_sha_composite, s2n_record_alg_aes256_sha],
      num_record_algs = 2, sslv3_record_alg = Some s2n_record_alg_aes256_sslv3_sha,
      sslv3_cipher_suite = None, prf_alg = S2N_HMAC_SHA256,
      minimum_required_tls_version = S2N_SSLv3\<rparr>"
| "static_initializer s2n_ecdhe_rsa_with_rc4_128_sha =
     \<lparr>available = False, name = ''ECDHE-RSA-RC4-SHA'',
      iana_value = (0xC0, 0x11), key_exchange_alg = Some s2n_ecdhe,
      auth_method = S2N_AUTHENTICATION_RSA, record_alg = None,
      all_record_algs = [s2n_record_alg_rc4_sha],
      num_record_algs = 1, sslv3_record_alg = Some s2n_record_alg_rc4_sslv3_sha,
      sslv3_cipher_suite = None, prf_alg = S2N_HMAC_SHA256,
      minimum_required_tls_version = S2N_SSLv3\<rparr>"
| "static_initializer s2n_ecdhe_rsa_with_3des_ede_cbc_sha =
     \<lparr>available = False, name = ''ECDHE-RSA-DES-CBC3-SHA'',
      iana_value = (0xC0, 0x12), key_exchange_alg = Some s2n_ecdhe,
      auth_method = S2N_AUTHENTICATION_RSA, record_alg = None,
      all_record_algs = [s2n_record_alg_3des_sha],
      num_record_algs = 1, sslv3_record_alg = Some s2n_record_alg_3des_sslv3_sha,
      sslv3_cipher_suite = None, prf_alg = S2N_HMAC_SHA256,
      minimum_required_tls_version = S2N_SSLv3\<rparr>"
| "static_initializer s2n_ecdhe_rsa_with_aes_128_cbc_sha =
     \<lparr>available = False, name = ''ECDHE-RSA-AES128-SHA'',
      iana_value = (0xC0, 0x13), key_exchange_alg = Some s2n_ecdhe,
      auth_method = S2N_AUTHENTICATION_RSA, record_alg = None,
      all_record_algs = [s2n_record_alg_aes128_sha_composite, s2n_record_alg_aes128_sha],
      num_record_algs = 2, sslv3_record_alg = Some s2n_record_alg_aes128_sslv3_sha,
      sslv3_cipher_suite = None, prf_alg = S2N_HMAC_SHA256,
      minimum_required_tls_version = S2N_SSLv3\<rparr>"
| "static_initializer s2n_ecdhe_rsa_with_aes_256_cbc_sha =
     \<lparr>available = False, name = ''ECDHE-RSA-AES256-SHA'',
      iana_value = (0xC0, 0x14), key_exchange_alg = Some s2n_ecdhe,
      auth_method = S2N_AUTHENTICATION_RSA, record_alg = None,
      all_record_algs = [s2n_record_alg_aes256_sha_composite, s2n_record_alg_aes256_sha],
      num_record_algs = 2, sslv3_record_alg = Some s2n_record_alg_aes256_sslv3_sha,
      sslv3_cipher_suite = None, prf_alg = S2N_HMAC_SHA256,
      minimum_required_tls_version = S2N_SSLv3\<rparr>"
| "static_initializer s2n_ecdhe_ecdsa_with_aes_128_cbc_sha256 =
     \<lparr>available = False, name = ''ECDHE-ECDSA-AES128-SHA256'',
      iana_value = (0xC0, 0x23), key_exchange_alg = Some s2n_ecdhe,
      auth_method = S2N_AUTHENTICATION_ECDSA, record_alg = None,
      all_record_algs = [s2n_record_alg_aes128_sha256_composite, s2n_record_alg_aes128_sha256],
      num_record_algs = 2, sslv3_record_alg = None,
      sslv3_cipher_suite = None, prf_alg = S2N_HMAC_SHA256,
      minimum_required_tls_version = S2N_TLS12\<rparr>"
| "static_initializer s2n_ecdhe_ecdsa_with_aes_256_cbc_sha384 =
     \<lparr>available = False, name = ''ECDHE-ECDSA-AES256-SHA384'',
      iana_value = (0xC0, 0x24), key_exchange_alg = Some s2n_ecdhe,
      auth_method = S2N_AUTHENTICATION_ECDSA, record_alg = None,
      all_record_algs = [s2n_record_alg_aes256_sha384],
      num_record_algs = 1, sslv3_record_alg = None,
      sslv3_cipher_suite = None, prf_alg = S2N_HMAC_SHA384,
      minimum_required_tls_version = S2N_TLS12\<rparr>"
| "static_initializer s2n_ecdhe_rsa_with_aes_128_cbc_sha256 =
     \<lparr>available = False, name = ''ECDHE-RSA-AES128-SHA256'',
      iana_value = (0xC0, 0x27), key_exchange_alg = Some s2n_ecdhe,
      auth_method = S2N_AUTHENTICATION_RSA, record_alg = None,
      all_record_algs = [s2n_record_alg_aes128_sha256_composite, s2n_record_alg_aes128_sha256],
      num_record_algs = 2, sslv3_record_alg = None,
      sslv3_cipher_suite = None, prf_alg = S2N_HMAC_SHA256,
      minimum_required_tls_version = S2N_TLS12\<rparr>"
| "static_initializer s2n_ecdhe_rsa_with_aes_256_cbc_sha384 =
     \<lparr>available = False, name = ''ECDHE-RSA-AES256-SHA384'',
      iana_value = (0xC0, 0x28), key_exchange_alg = Some s2n_ecdhe,
      auth_method = S2N_AUTHENTICATION_RSA, record_alg = None,
      all_record_algs = [s2n_record_alg_aes256_sha384],
      num_record_algs = 1, sslv3_record_alg = None,
      sslv3_cipher_suite = None, prf_alg = S2N_HMAC_SHA384,
      minimum_required_tls_version = S2N_TLS12\<rparr>"
| "static_initializer s2n_ecdhe_ecdsa_with_aes_128_gcm_sha256 =
     \<lparr>available = False, name = ''ECDHE-ECDSA-AES128-GCM-SHA256'',
      iana_value = (0xC0, 0x2B), key_exchange_alg = Some s2n_ecdhe,
      auth_method = S2N_AUTHENTICATION_ECDSA, record_alg = None,
      all_record_algs = [s2n_record_alg_aes128_gcm],
      num_record_algs = 1, sslv3_record_alg = None,
      sslv3_cipher_suite = None, prf_alg = S2N_HMAC_SHA256,
      minimum_required_tls_version = S2N_TLS12\<rparr>"
| "static_initializer s2n_ecdhe_ecdsa_with_aes_256_gcm_sha384 =
     \<lparr>available = False, name = ''ECDHE-ECDSA-AES256-GCM-SHA384'',
      iana_value = (0xC0, 0x2C), key_exchange_alg = Some s2n_ecdhe,
      auth_method = S2N_AUTHENTICATION_ECDSA, record_alg = None,
      all_record_algs = [s2n_record_alg_aes256_gcm],
      num_record_algs = 1, sslv3_record_alg = None,
      sslv3_cipher_suite = None, prf_alg = S2N_HMAC_SHA384,
      minimum_required_tls_version = S2N_TLS12\<rparr>"
| "static_initializer s2n_ecdhe_rsa_with_aes_128_gcm_sha256 =
     \<lparr>available = False, name = ''ECDHE-RSA-AES128-GCM-SHA256'',
      iana_value = (0xC0, 0x2F), key_exchange_alg = Some s2n_ecdhe,
      auth_method = S2N_AUTHENTICATION_RSA, record_alg = None,
      all_record_algs = [s2n_record_alg_aes128_gcm],
      num_record_algs = 1, sslv3_record_alg = None,
      sslv3_cipher_suite = None, prf_alg = S2N_HMAC_SHA256,
      minimum_required_tls_version = S2N_TLS12\<rparr>"
| "static_initializer s2n_ecdhe_rsa_with_aes_256_gcm_sha384 =
     \<lparr>available = False, name = ''ECDHE-RSA-AES256-GCM-SHA384'',
      iana_value = (0xC0, 0x30), key_exchange_alg = Some s2n_ecdhe,
      auth_method = S2N_AUTHENTICATION_RSA, record_alg = None,
      all_record_algs = [s2n_record_alg_aes256_gcm],
      num_record_algs = 1, sslv3_record_alg = None,
      sslv3_cipher_suite = None, prf_alg = S2N_HMAC_SHA384,
      minimum_required_tls_version = S2N_TLS12\<rparr>"
| "static_initializer s2n_ecdhe_rsa_with_chacha20_poly1305_sha256 =
     \<lparr>available = False, name = ''ECDHE-RSA-CHACHA20-POLY1305'',
      iana_value = (0xCC, 0xA8), key_exchange_alg = Some s2n_ecdhe,
      auth_method = S2N_AUTHENTICATION_RSA, record_alg = None,
      all_record_algs = [s2n_record_alg_chacha20_poly1305],
      num_record_algs = 1, sslv3_record_alg = None,
      sslv3_cipher_suite = None, prf_alg = S2N_HMAC_SHA256,
      minimum_required_tls_version = S2N_TLS12\<rparr>"
| "static_initializer s2n_ecdhe_ecdsa_with_chacha20_poly1305_sha256 =
     \<lparr>available = False, name = ''ECDHE-ECDSA-CHACHA20-POLY1305'',
      iana_value = (0xCC, 0xA9), key_exchange_alg = Some s2n_ecdhe,
      auth_method = S2N_AUTHENTICATION_ECDSA, record_alg = None,
      all_record_algs = [s2n_record_alg_chacha20_poly1305],
      num_record_algs = 1, sslv3_record_alg = None,
      sslv3_cipher_suite = None, prf_alg = S2N_HMAC_SHA256,
      minimum_required_tls_version = S2N_TLS12\<rparr>"
| "static_initializer s2n_dhe_rsa_with_chacha20_poly1305_sha256 =
     \<lparr>available = False, name = ''DHE-RSA-CHACHA20-POLY1305'',
      iana_value = (0xCC, 0xAA), key_exchange_alg = Some s2n_dhe,
      auth_method = S2N_AUTHENTICATION_RSA, record_alg = None,
      all_record_algs = [s2n_record_alg_chacha20_poly1305],
      num_record_algs = 1, sslv3_record_alg = None,
      sslv3_cipher_suite = None, prf_alg = S2N_HMAC_SHA256,
      minimum_required_tls_version = S2N_TLS12\<rparr>"
| "static_initializer s2n_ecdhe_kyber_rsa_with_aes_256_gcm_sha384 =
     \<lparr>available = False, name = ''ECDHE-KYBER-RSA-AES256-GCM-SHA384'',
      iana_value = (0xFF, 0x0C), key_exchange_alg = Some s2n_hybrid_ecdhe_kem,
      auth_method = S2N_AUTHENTICATION_RSA, record_alg = None,
      all_record_algs = [s2n_record_alg_aes256_gcm],
      num_record_algs = 1, sslv3_record_alg = None,
      sslv3_cipher_suite = None, prf_alg = S2N_HMAC_SHA384,
      minimum_required_tls_version = S2N_TLS12\<rparr>"
| "static_initializer s2n_tls13_aes_128_gcm_sha256 =
     \<lparr>available = False, name = ''TLS_AES_128_GCM_SHA256'',
      iana_value = (0x13, 0x01), key_exchange_alg = None,
      auth_method = S2N_AUTHENTICATION_METHOD_TLS13, record_alg = None,
      all_record_algs = [s2n_tls13_record_alg_aes128_gcm],
      num_record_algs = 1, sslv3_record_alg = None,
      sslv3_cipher_suite = None, prf_alg = S2N_HMAC_SHA256,
      minimum_required_tls_version = S2N_TLS13\<rparr>"
| "static_initializer s2n_tls13_aes_256_gcm_sha384 =
     \<lparr>available = False, name = ''TLS_AES_256_GCM_SHA384'',
      iana_value = (0x13, 0x02), key_exchange_alg = None,
      auth_method = S2N_AUTHENTICATION_METHOD_TLS13, record_alg = None,
      all_record_algs = [s2n_tls13_record_alg_aes256_gcm],
      num_record_algs = 1, sslv3_record_alg = None,
      sslv3_cipher_suite = None, prf_alg = S2N_HMAC_SHA384,
      minimum_required_tls_version = S2N_TLS13\<rparr>"
| "static_initializer s2n_tls13_chacha20_poly1305_sha256 =
     \<lparr>available = False, name = ''TLS_CHACHA20_POLY1305_SHA256'',
      iana_value = (0x13, 0x03), key_exchange_alg = None,
      auth_method = S2N_AUTHENTICATION_METHOD_TLS13, record_alg = None,
      all_record_algs = [s2n_tls13_record_alg_chacha20_poly1305],
      num_record_algs = 1, sslv3_record_alg = None,
      sslv3_cipher_suite = None, prf_alg = S2N_HMAC_SHA256,
      minimum_required_tls_version = S2N_TLS13\<rparr>"

text \<open>The catalog, in the order of the source (ascending IANA code).\<close>

definition s2n_all_cipher_suites :: "suite_ptr list" where
  "s2n_all_cipher_suites =
    [Global s2n_rsa_with_rc4_128_md5,
     Global s2n_rsa_with_rc4_128_sha,
     Global s2n_rsa_with_3des_ede_cbc_sha,
     Global s2n_dhe_rsa_with_3des_ede_cbc_sha,
     Global s2n_rsa_with_aes_128_cbc_sha,
     Global s2n_dhe_rsa_with_aes_128_cbc_sha,
     Global s2n_rsa_with_aes_256_cbc_sha,
     Global s2n_dhe_rsa_with_aes_256_cbc_sha,
     Global s2n_rsa_with_aes_128_cbc_sha256,
     Global s2n_rsa_with_aes_256_cbc_sha256,
     Global s2n_dhe_rsa_with_aes_128_cbc_sha256,
     Global s2n_dhe_rsa_with_aes_256_cbc_sha256,
     Global s2n_rsa_with_aes_128_gcm_sha256,
     Global s2n_rsa_with_aes_256_gcm_sha384,
     Global s2n_dhe_rsa_with_aes_128_gcm_sha256,
     Global s2n_dhe_rsa_with_aes_256_gcm_sha384,
     Global s2n_tls13_aes_128_gcm_sha256,
     Global s2n_tls13_aes_256_gcm_sha384,
     Global s2n_tls13_chacha20_poly1305_sha256,
     Global s2n_ecdhe_ecdsa_with_aes_128_cbc_sha,
     Global s2n_ecdhe_ecdsa_with_aes_256_cbc_sha,
     Global s2n_ecdhe_rsa_with_rc4_128_sha,
     Global s2n_ecdhe_rsa_with_3des_ede_cbc_sha,
     Global s2n_ecdhe_rsa_with_aes_128_cbc_sha,
     Global s2n_ecdhe_rsa_with_aes_256_cbc_sha,
     Global s2n_ecdhe_ecdsa_with_aes_128_cbc_sha256,
     Global s2n_ecdhe_ecdsa_with_aes_256_cbc_sha384,
     Global s2n_ecdhe_rsa_with_aes_128_cbc_sha256,
     Global s2n_ecdhe_rsa_with_aes_256_cbc_sha384,
     Global s2n_ecdhe_ecdsa_with_aes_128_gcm_sha256,
     Global s2n_ecdhe_ecdsa_with_aes_256_gcm_sha384,
     Global s2n_ecdhe_rsa_with_aes_128_gcm_sha256,
     Global s2n_ecdhe_rsa_with_aes_256_gcm_sha384,
     Global s2n_ecdhe_rsa_with_chacha20_poly1305_sha256,
     Global s2n_ecdhe_ecdsa_with_chacha20_poly1305_sha256,
     Global s2n_dhe_rsa_with_chacha20_poly1305_sha256,
     Global s2n_ecdhe_kyber_rsa_with_aes_256_gcm_sha384]"

section \<open>Process state and collaborators\<close>

text \<open>
  \<open>suite_mem\<close> is the store of cipher suite objects. \<open>heap_next\<close> is the next free heap
  cell and \<open>heap_limit\<close> the number of cells the allocator can hand out. The three flags
  are the file's \<^verbatim>\<open>should_init_crypto\<close> and \<^verbatim>\<open>crypto_initialized\<close>, and whether the
  libcrypto algorithm tables were loaded.
\<close>

record s2n_globals =
  suite_mem :: "suite_ptr \<Rightarrow> s2n_cipher_suite"
  heap_next :: nat
  heap_limit :: nat
  should_init_crypto :: bool
  crypto_initialized :: bool
  crypto_tables_loaded :: bool

record s2n_crypto_parameters =
  cipher_suite :: "suite_ptr option"

record s2n_psk =
  psk_hmac_alg :: s2n_hmac_algorithm

record s2n_cipher_preferences =
  count :: nat
  suites :: "suite_ptr list"

record s2n_security_policy =
  cipher_preferences :: s2n_cipher_preferences

text \<open>
  The fields of \<^verbatim>\<open>struct s2n_connection\<close> that the file reads or writes. \<open>chosen_psk\<close>
  is \<^verbatim>\<open>conn->psk_params.chosen_psk\<close>; \<open>security_policy\<close> is what
  \<^verbatim>\<open>s2n_connection_get_security_policy\<close> looks up; \<open>kex_params\<close> stands for the key
  exchange state that \<^verbatim>\<open>s2n_configure_kex\<close> writes, of a type the file never inspects.
\<close>

record 'k s2n_connection =
  actual_protocol_version :: uint8_t
  client_protocol_version :: uint8_t
  server_protocol_version :: uint8_t
  closed :: bool
  secure_renegotiation :: bool
  secure :: "s2n_crypto_parameters option"
  chosen_psk :: "s2n_psk option"
  security_policy :: "s2n_security_policy option"
  kex_params :: 'k

text \<open>
  The functions the file calls in other translation units are parameters of the model:
  \<^item> \<open>is_available\<close>: \<^verbatim>\<open>cipher->is_available()\<close> of a bulk cipher;
  \<^item> \<open>s2n_pq_is_enabled\<close>, \<open>s2n_kex_includes\<close>;
  \<^item> \<open>s2n_is_cipher_suite_valid_for_auth\<close>, \<open>s2n_kex_supported\<close> (its result and the
    boolean it stores through \<^verbatim>\<open>is_supported\<close>);
  \<^item> \<open>s2n_configure_kex\<close>: its result and the key exchange state it leaves behind;
  \<^item> \<open>s2n_is_hello_retry_handshake\<close>, \<open>s2n_is_hello_retry_message\<close>.
\<close>

record 'k s2n_env =
  is_available :: "s2n_cipher \<Rightarrow> bool"
  s2n_pq_is_enabled :: bool
  s2n_kex_includes :: "s2n_kex option \<Rightarrow> s2n_kex \<Rightarrow> bool"
  s2n_is_cipher_suite_valid_for_auth ::
    "'k s2n_connection \<Rightarrow> s2n_cipher_suite \<Rightarrow> s2n_error + unit"
  s2n_kex_supported :: "s2n_cipher_suite \<Rightarrow> 'k s2n_connection \<Rightarrow> s2n_error + bool"
  s2n_configure_kex :: "s2n_cipher_suite \<Rightarrow> 'k s2n_connection \<Rightarrow> (s2n_error + unit) \<times> 'k"
  s2n_is_hello_retry_handshake :: "'k s2n_connection \<Rightarrow> bool"
  s2n_is_hello_retry_message :: "'k s2n_connection \<Rightarrow> bool"

text \<open>
  Modelled from the spec: \<^verbatim>\<open>s2n_dup\<close> (\<^verbatim>\<open>utils/s2n_mem.c\<close> is not among the sources).
  Section 4.4 has the initializer allocate a duplicate of the suite and propagate the
  allocation failure; the duplicate is a fresh heap cell holding a copy.
\<close>

definition s2n_dup ::
  "s2n_cipher_suite \<Rightarrow> s2n_globals \<Rightarrow> (s2n_error + suite_ptr) \<times> s2n_globals" where
  "s2n_dup v g =
     (if heap_next g < heap_limit g
      then (Inr (Heap (heap_next g)),
            g\<lparr>suite_mem := (suite_mem g)(Heap (heap_next g) := v),
              heap_next := Suc (heap_next g)\<rparr>)
      else (Inl S2N_ERR_ALLOC, g))"

text \<open>
  Modelled from the spec: \<^verbatim>\<open>s2n_connection_get_security_policy\<close>
  (\<^verbatim>\<open>tls/s2n_connection.c\<close> is not among the sources): section 6 has the connection
  yield its active security policy; the lookup fails when there is none.
\<close>

definition s2n_connection_get_security_policy ::
  "'k s2n_connection \<Rightarrow> s2n_error + s2n_security_policy" where
  "s2n_connection_get_security_policy conn =
     (case security_policy conn of
        None \<Rightarrow> Inl S2N_ERR_INVALID_SECURITY_POLICY
      | Some sp \<Rightarrow> Inr sp)"

section \<open>s2n_cipher_suites_init\<close>

text \<open>
  The inner loop over \<^verbatim>\<open>all_record_algs[0 .. num_record_algs)\<close>: the first record
  algorithm whose cipher is available is selected, and the loop breaks.
\<close>

primrec record_alg_loop ::
  "'k s2n_env \<Rightarrow> s2n_record_algorithm list \<Rightarrow> s2n_cipher_suite \<Rightarrow> s2n_cipher_suite" where
  "record_alg_loop E [] cur = cur"
| "record_alg_loop E (ra # ras) cur =
     (if is_available E (cipher ra)
      then cur\<lparr>available := True, record_alg := Some ra\<rparr>
      else record_alg_loop E ras cur)"

text \<open>
  One iteration of the outer loop, for the catalog entry \<open>p\<close>. It returns the result
  of the iteration and the state it leaves: on an allocation failure the function
  returns with the entry's \<open>available\<close> and \<open>record_alg\<close> already rewritten.
\<close>

definition s2n_cipher_suites_init_step ::
  "'k s2n_env \<Rightarrow> suite_ptr \<Rightarrow> s2n_globals \<Rightarrow> (s2n_error + unit) \<times> s2n_globals" where
  "s2n_cipher_suites_init_step E p g =
     (let cur0 = (suite_mem g p)\<lparr>available := False, record_alg := None\<rparr>;
          cur1 = record_alg_loop E (take (num_record_algs cur0) (all_record_algs cur0)) cur0;
          cur2 = (if s2n_kex_includes E (key_exchange_alg cur1) s2n_kem \<and> \<not> s2n_pq_is_enabled E
                  then cur1\<lparr>available := False, record_alg := None\<rparr>
                  else cur1);
          g2 = g\<lparr>suite_mem := (suite_mem g)(p := cur2)\<rparr>
      in if (case sslv3_record_alg cur2 of None \<Rightarrow> False
             | Some ra \<Rightarrow> is_available E (cipher ra))
         then (case s2n_dup cur2 g2 of
                 (Inl e, g3) \<Rightarrow> (Inl e, g3)
               | (Inr new_suite, g3) \<Rightarrow>
                   (Inr (),
                    g3\<lparr>suite_mem := (suite_mem g3)
                         (new_suite := cur2\<lparr>available := True,
                                              record_alg := sslv3_record_alg cur2\<rparr>,
                          p := cur2\<lparr>sslv3_cipher_suite := Some new_suite\<rparr>)\<rparr>))
         else (Inr (), g2\<lparr>suite_mem := (suite_mem g2)(p := cur2\<lparr>sslv3_cipher_suite := Some p\<rparr>)\<rparr>))"

primrec s2n_cipher_suites_init_loop ::
  "'k s2n_env \<Rightarrow> suite_ptr list \<Rightarrow> s2n_globals \<Rightarrow> (s2n_error + unit) \<times> s2n_globals" where
  "s2n_cipher_suites_init_loop E [] g = (Inr (), g)"
| "s2n_cipher_suites_init_loop E (p # ps) g =
     (case s2n_cipher_suites_init_step E p g of
        (Inl e, g') \<Rightarrow> (Inl e, g')
      | (Inr u, g') \<Rightarrow> s2n_cipher_suites_init_loop E ps g')"

definition s2n_cipher_suites_init ::
  "'k s2n_env \<Rightarrow> s2n_globals \<Rightarrow> (s2n_error + unit) \<times> s2n_globals" where
  "s2n_cipher_suites_init E g =
     (case s2n_cipher_suites_init_loop E s2n_all_cipher_suites g of
        (Inl e, g') \<Rightarrow> (Inl e, g')
      | (Inr u, g') \<Rightarrow>
          (Inr (),
           g'\<lparr>crypto_tables_loaded := (if should_init_crypto g' then True
                                         else crypto_tables_loaded g'),
              crypto_initialized := True\<rparr>))"

text \<open>
  The process state a program starts in: every global holds its initializer, the heap
  is empty (its cells read as zeroed memory), and the allocator can serve \<open>cells\<close>
  duplicates.
\<close>

definition zeroed_suite :: s2n_cipher_suite where
  "zeroed_suite =
     \<lparr>available = False, name = [], iana_value = (0, 0), key_exchange_alg = None,
      auth_method = S2N_AUTHENTICATION_RSA, record_alg = None, all_record_algs = [],
      num_record_algs = 0, sslv3_record_alg = None, sslv3_cipher_suite = None,
      prf_alg = S2N_HMAC_NONE, minimum_required_tls_version = 0\<rparr>"

definition static_mem :: "suite_ptr \<Rightarrow> s2n_cipher_suite" where
  "static_mem p = (case p of Global x \<Rightarrow> static_initializer x | Heap n \<Rightarrow> zeroed_suite)"

definition initial_globals :: "nat \<Rightarrow> s2n_globals" where
  "initial_globals cells =
     \<lparr>suite_mem = static_mem, heap_next = 0, heap_limit = cells,
      should_init_crypto = True, crypto_initialized = False,
      crypto_tables_loaded = False\<rparr>"

section \<open>Extension predicates\<close>

definition s2n_cipher_suite_requires_ecc_extension ::
  "'k s2n_env \<Rightarrow> (suite_ptr \<Rightarrow> s2n_cipher_suite) \<Rightarrow> suite_ptr option \<Rightarrow> bool" where
  "s2n_cipher_suite_requires_ecc_extension E m cipher_p =
     (case cipher_p of
        None \<Rightarrow> False
      | Some c \<Rightarrow>
          if S2N_TLS13 \<le> minimum_required_tls_version (m c) then True
          else if s2n_kex_includes E (key_exchange_alg (m c)) s2n_ecdhe then True
          else False)"

definition s2n_cipher_suite_requires_pq_extension ::
  "'k s2n_env \<Rightarrow> (suite_ptr \<Rightarrow> s2n_cipher_suite) \<Rightarrow> suite_ptr option \<Rightarrow> bool" where
  "s2n_cipher_suite_requires_pq_extension E m cipher_p =
     (case cipher_p of
        None \<Rightarrow> False
      | Some c \<Rightarrow>
          if s2n_kex_includes E (key_exchange_alg (m c)) s2n_kem then True
          else False)"

section \<open>s2n_cipher_suite_from_iana\<close>

text \<open>
  \<^verbatim>\<open>memcmp\<close> over the two bytes of an IANA code: the sign of the first difference,
  bytes compared as unsigned.
\<close>

definition memcmp2 :: "iana \<Rightarrow> iana \<Rightarrow> int" where
  "memcmp2 a b =
     (if fst a < fst b then - 1
      else if fst b < fst a then 1
      else if snd a < snd b then - 1
      else if snd b < snd a then 1
      else 0)"

text \<open>
  The binary search. \<^verbatim>\<open>low\<close> starts at 0 and is only ever assigned \<^verbatim>\<open>mid + 1\<close>, so it
  is a natural number; \<^verbatim>\<open>top\<close> (written \<open>top'\<close> here) is an \<^verbatim>\<open>int\<close> and reaches \<open>-1\<close> when the search leaves
  the array on the left: \<^verbatim>\<open>mid - 1\<close> is computed in \<^verbatim>\<open>size_t\<close>, wraps to
  \<^verbatim>\<open>SIZE_MAX\<close> at \<open>mid = 0\<close>, and the assignment to the \<^verbatim>\<open>int\<close> converts that to \<open>-1\<close>,
  which is \<open>int mid - 1\<close>. The array has 37 entries, so no other conversion changes a
  value.
\<close>

function s2n_cipher_suite_from_iana_loop ::
  "(suite_ptr \<Rightarrow> s2n_cipher_suite) \<Rightarrow> suite_ptr list \<Rightarrow> iana \<Rightarrow> nat \<Rightarrow> int
     \<Rightarrow> s2n_error + suite_ptr" where
  "s2n_cipher_suite_from_iana_loop m all iana low top' =
     (if int low \<le> top' then
        (let mid = low + nat ((top' - int low) div 2);
             c = memcmp2 (iana_value (m (all ! mid))) iana
         in if c = 0 then Inr (all ! mid)
            else if 0 < c then s2n_cipher_suite_from_iana_loop m all iana low (int mid - 1)
            else s2n_cipher_suite_from_iana_loop m all iana (mid + 1) top')
      else Inl S2N_ERR_CIPHER_NOT_SUPPORTED)"
  by pat_completeness auto
termination
  by (relation "measure (\<lambda>(m, all, iana, low, top'). nat (top' + 1 - int low))") auto

declare s2n_cipher_suite_from_iana_loop.simps [simp del]

text \<open>
  The function itself. The result \<open>Inr p\<close> stands for \<^verbatim>\<open>*cipher_suite = p\<close> with
  \<^verbatim>\<open>S2N_RESULT_OK\<close>; on an error \<^verbatim>\<open>*cipher_suite\<close> is \<^verbatim>\<open>NULL\<close>.
\<close>

definition s2n_cipher_suite_from_iana ::
  "(suite_ptr \<Rightarrow> s2n_cipher_suite) \<Rightarrow> iana option \<Rightarrow> s2n_error + suite_ptr" where
  "s2n_cipher_suite_from_iana m iana_p =
     (case iana_p of
        None \<Rightarrow> Inl S2N_ERR_NULL
      | Some iana \<Rightarrow>
          s2n_cipher_suite_from_iana_loop m s2n_all_cipher_suites iana 0
            (int (length s2n_all_cipher_suites) - 1))"

section \<open>Client-side confirmation: s2n_set_cipher_as_client\<close>

text \<open>
  The search of the preference list: the first entry whose IANA code equals the code on
  the wire. The loop looks at every entry, the group delimiters included.
\<close>

primrec s2n_set_cipher_as_client_loop ::
  "(suite_ptr \<Rightarrow> s2n_cipher_suite) \<Rightarrow> iana \<Rightarrow> suite_ptr list \<Rightarrow> suite_ptr option" where
  "s2n_set_cipher_as_client_loop m wire [] = None"
| "s2n_set_cipher_as_client_loop m wire (p # ps) =
     (if memcmp2 wire (iana_value (m p)) = 0 then Some p
      else s2n_set_cipher_as_client_loop m wire ps)"

text \<open>
  The HelloRetryRequest check reads
  \<^verbatim>\<open>conn->secure->cipher_suite->iana_value == cipher_suite->iana_value\<close>: both operands
  are arrays, so the comparison is between the addresses of the two arrays, and it holds
  exactly when the two pointers designate the same suite object. The embedding compares
  the pointers. Every failure of this function after the null checks and the policy
  lookup is raised as \<^verbatim>\<open>S2N_ERR_CIPHER_NOT_SUPPORTED\<close>.
\<close>

definition s2n_set_cipher_as_client ::
  "'k s2n_env \<Rightarrow> (suite_ptr \<Rightarrow> s2n_cipher_suite) \<Rightarrow> 'k s2n_connection option \<Rightarrow> iana
     \<Rightarrow> (s2n_error + unit) \<times> 'k s2n_connection option" where
  "s2n_set_cipher_as_client E m conn_p wire =
     (case conn_p of
        None \<Rightarrow> (Inl S2N_ERR_NULL, None)
      | Some conn \<Rightarrow>
     (case secure conn of
        None \<Rightarrow> (Inl S2N_ERR_NULL, Some conn)
      | Some sec \<Rightarrow>
     (case cipher_suite sec of
        None \<Rightarrow> (Inl S2N_ERR_NULL, Some conn)
      | Some pinned \<Rightarrow>
     (case s2n_connection_get_security_policy conn of
        Inl e \<Rightarrow> (Inl e, Some conn)
      | Inr sp \<Rightarrow>
     (case s2n_set_cipher_as_client_loop m wire
             (take (count (cipher_preferences sp)) (suites (cipher_preferences sp))) of
        None \<Rightarrow> (Inl S2N_ERR_CIPHER_NOT_SUPPORTED, Some conn)
      | Some cs \<Rightarrow>
          if \<not> available (m cs) then (Inl S2N_ERR_CIPHER_NOT_SUPPORTED, Some conn)
          else if (case chosen_psk conn of
                     None \<Rightarrow> False
                   | Some psk \<Rightarrow> prf_alg (m cs) \<noteq> psk_hmac_alg psk)
          then (Inl S2N_ERR_CIPHER_NOT_SUPPORTED, Some conn)
          else if s2n_is_hello_retry_handshake E conn \<and> \<not> s2n_is_hello_retry_message E conn
          then (if pinned = cs then (Inr (), Some conn)
                else (Inl S2N_ERR_CIPHER_NOT_SUPPORTED, Some conn))
          else if actual_protocol_version conn = S2N_SSLv3
          then (case sslv3_cipher_suite (m cs) of
                  None \<Rightarrow>
                    (Inl S2N_ERR_NULL, Some (conn\<lparr>secure := Some (sec\<lparr>cipher_suite := None\<rparr>)\<rparr>))
                | Some shadow \<Rightarrow>
                    (Inr (), Some (conn\<lparr>secure := Some (sec\<lparr>cipher_suite := Some shadow\<rparr>)\<rparr>)))
          else (Inr (), Some (conn\<lparr>secure := Some (sec\<lparr>cipher_suite := Some cs\<rparr>)\<rparr>)))))))"

section \<open>Server-side selection\<close>

text \<open>
  The client's list is a byte buffer of \<open>wire_count\<close> entries of \<open>cipher_suite_len\<close>
  bytes; \<open>theirs\<close> is the code in the last two bytes of entry \<open>i\<close>. The public entry
  points pass a \<^verbatim>\<open>uint16_t\<close> count and a length of 2 or 3, so the \<^verbatim>\<open>uint32_t\<close>
  offset arithmetic of the source cannot wrap and natural numbers are exact.
\<close>

definition theirs :: "uint8_t list \<Rightarrow> nat \<Rightarrow> nat \<Rightarrow> iana" where
  "theirs wire i cipher_suite_len =
     (let off = i * cipher_suite_len + (cipher_suite_len - S2N_TLS_CIPHER_SUITE_LEN)
      in (wire ! off, wire ! Suc off))"

function s2n_wire_ciphers_contain_loop ::
  "iana \<Rightarrow> uint8_t list \<Rightarrow> nat \<Rightarrow> nat \<Rightarrow> nat \<Rightarrow> int" where
  "s2n_wire_ciphers_contain_loop match wire wire_count cipher_suite_len i =
     (if i < wire_count then
        (if memcmp2 match (theirs wire i cipher_suite_len) = 0 then 1
         else s2n_wire_ciphers_contain_loop match wire wire_count cipher_suite_len (Suc i))
      else 0)"
  by pat_completeness auto
termination
  by (relation "measure (\<lambda>(match, wire, wire_count, cipher_suite_len, i). wire_count - i)") auto

declare s2n_wire_ciphers_contain_loop.simps [simp del]

definition s2n_wire_ciphers_contain :: "iana \<Rightarrow> uint8_t list \<Rightarrow> nat \<Rightarrow> nat \<Rightarrow> int" where
  "s2n_wire_ciphers_contain match wire wire_count cipher_suite_len =
     s2n_wire_ciphers_contain_loop match wire wire_count cipher_suite_len 0"

function s2n_wire_ciphers_has_server_cipher_at_loop ::
  "iana \<Rightarrow> uint8_t list \<Rightarrow> nat \<Rightarrow> nat \<Rightarrow> nat \<Rightarrow> int" where
  "s2n_wire_ciphers_has_server_cipher_at_loop match wire wire_count cipher_suite_len i =
     (if i < wire_count then
        (if memcmp2 match (theirs wire i cipher_suite_len) = 0 then int i
         else s2n_wire_ciphers_has_server_cipher_at_loop match wire wire_count
                cipher_suite_len (Suc i))
      else - 1)"
  by pat_completeness auto
termination
  by (relation "measure (\<lambda>(match, wire, wire_count, cipher_suite_len, i). wire_count - i)") auto

declare s2n_wire_ciphers_has_server_cipher_at_loop.simps [simp del]

definition s2n_wire_ciphers_has_server_cipher_at ::
  "iana \<Rightarrow> uint8_t list \<Rightarrow> nat \<Rightarrow> nat \<Rightarrow> int" where
  "s2n_wire_ciphers_has_server_cipher_at match wire wire_count cipher_suite_len =
     s2n_wire_ciphers_has_server_cipher_at_loop match wire wire_count cipher_suite_len 0"

text \<open>
  Validation of a potential match. The function returns \<^verbatim>\<open>bool\<close>; the pair holds its
  result and the connection as \<^verbatim>\<open>s2n_configure_kex\<close> leaves it. When
  \<^verbatim>\<open>s2n_kex_supported\<close> itself fails, \<^verbatim>\<open>POSIX_GUARD_RESULT\<close> returns \<^verbatim>\<open>S2N_FAILURE\<close>
  (\<open>-1\<close>) from this \<^verbatim>\<open>bool\<close> function, which the caller reads as \<^verbatim>\<open>true\<close>.
\<close>

definition s2n_cipher_suite_match_is_valid ::
  "'k s2n_env \<Rightarrow> 'k s2n_connection \<Rightarrow> s2n_cipher_suite \<Rightarrow> bool \<times> 'k s2n_connection" where
  "s2n_cipher_suite_match_is_valid E conn potential_match =
     (if (S2N_TLS13 \<le> actual_protocol_version conn) \<noteq>
         (S2N_TLS13 \<le> minimum_required_tls_version potential_match)
      then (False, conn)
      else if \<not> available potential_match then (False, conn)
      else if s2n_is_cipher_suite_valid_for_auth E conn potential_match \<noteq> Inr ()
      then (False, conn)
      else
        (case (if minimum_required_tls_version potential_match < S2N_TLS13
               then (case s2n_kex_supported E potential_match conn of
                       Inl e \<Rightarrow> (Some True, conn)
                     | Inr kex_supported \<Rightarrow>
                         if \<not> kex_supported then (Some False, conn)
                         else (case s2n_configure_kex E potential_match conn of
                                 (r, k) \<Rightarrow>
                                   (if isl r then Some False else None,
                                    conn\<lparr>kex_params := k\<rparr>)))
               else (None, conn)) of
           (Some returned, conn') \<Rightarrow> (returned, conn')
         | (None, conn') \<Rightarrow>
             (case chosen_psk conn' of
                None \<Rightarrow> (True, conn')
              | Some psk \<Rightarrow>
                  if prf_alg potential_match \<noteq> psk_hmac_alg psk then (False, conn')
                  else (True, conn'))))"

text \<open>
  The walk of the server's preference list. \<open>rest\<close> is \<^verbatim>\<open>suites[i .. count)\<close>. The
  result is \<open>Inl r\<close> when the loop body executes \<^verbatim>\<open>return r\<close> (leaving a group with a
  winner), and \<open>Inr (negotiated_server_index, negotiated_server_highest_vers_match_index)\<close>
  when the loop ends by \<^verbatim>\<open>break\<close> or by exhausting the list.
\<close>

fun s2n_get_negotiated_server_index_loop ::
  "'k s2n_env \<Rightarrow> (suite_ptr \<Rightarrow> s2n_cipher_suite) \<Rightarrow> uint8_t list \<Rightarrow> nat \<Rightarrow> nat
     \<Rightarrow> suite_ptr list \<Rightarrow> nat \<Rightarrow> bool \<Rightarrow> int \<Rightarrow> int \<Rightarrow> int \<Rightarrow> 'k s2n_connection
     \<Rightarrow> (int + int \<times> int) \<times> 'k s2n_connection" where
  "s2n_get_negotiated_server_index_loop E m wire wire_count cipher_suite_len
       [] i in_group negotiated_client_index negotiated_server_index highest_vers conn =
     (Inr (negotiated_server_index, highest_vers), conn)"
| "s2n_get_negotiated_server_index_loop E m wire wire_count cipher_suite_len
       (ours # rest) i in_group negotiated_client_index negotiated_server_index highest_vers conn =
     (if ours = Global s2n_equal_preference_group_start
      then s2n_get_negotiated_server_index_loop E m wire wire_count cipher_suite_len
             rest (Suc i) True negotiated_client_index negotiated_server_index highest_vers conn
      else if ours = Global s2n_equal_preference_group_end
      then (if negotiated_server_index \<noteq> - 1 then (Inl negotiated_server_index, conn)
            else s2n_get_negotiated_server_index_loop E m wire wire_count cipher_suite_len
                   rest (Suc i) False negotiated_client_index negotiated_server_index
                   highest_vers conn)
      else
        (let client_index =
               s2n_wire_ciphers_has_server_cipher_at (iana_value (m ours)) wire wire_count
                 cipher_suite_len
         in if client_index < 0
            then s2n_get_negotiated_server_index_loop E m wire wire_count cipher_suite_len
                   rest (Suc i) in_group negotiated_client_index negotiated_server_index
                   highest_vers conn
            else
              (case s2n_cipher_suite_match_is_valid E conn (m ours) of
                 (valid, conn') \<Rightarrow>
                   if \<not> valid
                   then s2n_get_negotiated_server_index_loop E m wire wire_count cipher_suite_len
                          rest (Suc i) in_group negotiated_client_index
                          negotiated_server_index highest_vers conn'
                   else if actual_protocol_version conn' < minimum_required_tls_version (m ours)
                   then s2n_get_negotiated_server_index_loop E m wire wire_count cipher_suite_len
                          rest (Suc i) in_group negotiated_client_index
                          negotiated_server_index
                          (if highest_vers = - 1 then int i else highest_vers) conn'
                   else if in_group
                   then (if client_index < negotiated_client_index
                         then s2n_get_negotiated_server_index_loop E m wire wire_count
                                cipher_suite_len rest (Suc i) in_group client_index (int i)
                                highest_vers conn'
                         else s2n_get_negotiated_server_index_loop E m wire wire_count
                                cipher_suite_len rest (Suc i) in_group negotiated_client_index
                                negotiated_server_index highest_vers conn')
                   else (Inr (int i, highest_vers), conn'))))"

text \<open>
  \<^verbatim>\<open>s2n_get_negotiated_server_index\<close>: the index in the server's list, or \<open>-1\<close>. The
  caller has already checked \<^verbatim>\<open>conn\<close> and read the wire, so the two
  \<^verbatim>\<open>POSIX_ENSURE_REF\<close> at the top cannot fire; a failing policy lookup returns
  \<^verbatim>\<open>S2N_FAILURE\<close>, which is \<open>-1\<close>.
\<close>

definition s2n_get_negotiated_server_index ::
  "'k s2n_env \<Rightarrow> (suite_ptr \<Rightarrow> s2n_cipher_suite) \<Rightarrow> 'k s2n_connection \<Rightarrow> uint8_t list
     \<Rightarrow> nat \<Rightarrow> nat \<Rightarrow> int \<times> 'k s2n_connection" where
  "s2n_get_negotiated_server_index E m conn wire wire_count cipher_suite_len =
     (case s2n_connection_get_security_policy conn of
        Inl e \<Rightarrow> (- 1, conn)
      | Inr sp \<Rightarrow>
          (case s2n_get_negotiated_server_index_loop E m wire wire_count cipher_suite_len
                  (take (count (cipher_preferences sp)) (suites (cipher_preferences sp)))
                  0 False (int wire_count) (- 1) (- 1) conn of
             (Inl r, conn') \<Rightarrow> (r, conn')
           | (Inr (negotiated_server_index, highest_vers), conn') \<Rightarrow>
               (if negotiated_server_index = - 1 \<and> highest_vers \<noteq> - 1 then highest_vers
                else negotiated_server_index, conn')))"

definition s2n_set_cipher_as_server ::
  "'k s2n_env \<Rightarrow> (suite_ptr \<Rightarrow> s2n_cipher_suite) \<Rightarrow> 'k s2n_connection option
     \<Rightarrow> uint8_t list \<Rightarrow> nat \<Rightarrow> nat \<Rightarrow> (s2n_error + unit) \<times> 'k s2n_connection option" where
  "s2n_set_cipher_as_server E m conn_p wire wire_count cipher_suite_len =
     (case conn_p of
        None \<Rightarrow> (Inl S2N_ERR_NULL, None)
      | Some conn \<Rightarrow>
     (case secure conn of
        None \<Rightarrow> (Inl S2N_ERR_NULL, Some conn)
      | Some sec \<Rightarrow>
          if client_protocol_version conn < server_protocol_version conn \<and>
             s2n_wire_ciphers_contain TLS_FALLBACK_SCSV wire wire_count cipher_suite_len \<noteq> 0
          then (Inl S2N_ERR_FALLBACK_DETECTED, Some (conn\<lparr>closed := True\<rparr>))
          else
            (let conn1 =
                   (if s2n_wire_ciphers_contain TLS_EMPTY_RENEGOTIATION_INFO_SCSV wire
                         wire_count cipher_suite_len \<noteq> 0
                    then conn\<lparr>secure_renegotiation := True\<rparr> else conn)
             in case s2n_connection_get_security_policy conn1 of
                  Inl e \<Rightarrow> (Inl e, Some conn1)
                | Inr sp \<Rightarrow>
                    (case s2n_get_negotiated_server_index E m conn1 wire wire_count
                            cipher_suite_len of
                       (negotiated_index, conn2) \<Rightarrow>
                         if negotiated_index < 0
                         then (Inl S2N_ERR_CIPHER_NOT_SUPPORTED, Some conn2)
                         else (Inr (),
                               Some (conn2\<lparr>secure := Some (sec\<lparr>cipher_suite :=
                                 Some (suites (cipher_preferences sp) ! nat negotiated_index)\<rparr>)\<rparr>))))))"

definition s2n_set_cipher_as_sslv2_server ::
  "'k s2n_env \<Rightarrow> (suite_ptr \<Rightarrow> s2n_cipher_suite) \<Rightarrow> 'k s2n_connection option
     \<Rightarrow> uint8_t list \<Rightarrow> 16 word \<Rightarrow> (s2n_error + unit) \<times> 'k s2n_connection option" where
  "s2n_set_cipher_as_sslv2_server E m conn_p wire wire_count =
     s2n_set_cipher_as_server E m conn_p wire (unat wire_count) S2N_SSLv2_CIPHER_SUITE_LEN"

definition s2n_set_cipher_as_tls_server ::
  "'k s2n_env \<Rightarrow> (suite_ptr \<Rightarrow> s2n_cipher_suite) \<Rightarrow> 'k s2n_connection option
     \<Rightarrow> uint8_t list \<Rightarrow> 16 word \<Rightarrow> (s2n_error + unit) \<times> 'k s2n_connection option" where
  "s2n_set_cipher_as_tls_server E m conn_p wire wire_count =
     s2n_set_cipher_as_server E m conn_p wire (unat wire_count) S2N_TLS_CIPHER_SUITE_LEN"

section \<open>Fixtures and specification predicates\<close>

text \<open>
  Modelled from the spec: \<^verbatim>\<open>s2n_kex_includes\<close> (\<^verbatim>\<open>tls/s2n_kex.c\<close> is not among the
  sources). Section 6 has \<open>KEX.includes(kex, class)\<close> tell whether a key exchange
  contains a class; the hybrid key exchange is built from ECDHE and a KEM. Theorems
  take \<open>s2n_kex_includes\<close> as a parameter; this instance serves concrete runs.
\<close>

definition s2n_kex_includes_model :: "s2n_kex option \<Rightarrow> s2n_kex \<Rightarrow> bool" where
  "s2n_kex_includes_model kex query =
     (case kex of
        None \<Rightarrow> False
      | Some k \<Rightarrow>
          k = query \<or> (k = s2n_hybrid_ecdhe_kem \<and> (query = s2n_ecdhe \<or> query = s2n_kem)))"

text \<open>
  A concrete environment for runs: every cipher is available, post-quantum support is
  disabled, every suite passes the certificate check, every key exchange is supported
  and configures, and the handshake is not a HelloRetryRequest handshake.
\<close>

definition test_env :: "unit s2n_env" where
  "test_env =
     \<lparr>is_available = (\<lambda>c. True), s2n_pq_is_enabled = False,
      s2n_kex_includes = s2n_kex_includes_model,
      s2n_is_cipher_suite_valid_for_auth = (\<lambda>conn s. Inr ()),
      s2n_kex_supported = (\<lambda>s conn. Inr True),
      s2n_configure_kex = (\<lambda>s conn. (Inr (), ())),
      s2n_is_hello_retry_handshake = (\<lambda>conn. False),
      s2n_is_hello_retry_message = (\<lambda>conn. False)\<rparr>"

text \<open>
  \<open>selectable E s\<close>: one of the suite's record algorithms has an available cipher, and
  the post-quantum gate does not switch the suite off.
\<close>

definition selectable :: "'k s2n_env \<Rightarrow> s2n_cipher_suite \<Rightarrow> bool" where
  "selectable E s =
     (list_ex (\<lambda>ra. is_available E (cipher ra)) (take (num_record_algs s) (all_record_algs s))
      \<and> \<not> (s2n_kex_includes E (key_exchange_alg s) s2n_kem \<and> \<not> s2n_pq_is_enabled E))"

text \<open>
  The fields of a suite that the initializer never writes: a suite with its three
  mutable fields cleared.
\<close>

definition static_part :: "s2n_cipher_suite \<Rightarrow> s2n_cipher_suite" where
  "static_part s = s\<lparr>available := False, record_alg := None, sslv3_cipher_suite := None\<rparr>"

text \<open>
  The store of a process that has run the initializer in \<open>test_env\<close>, a connection
  on it, and preference lists of the source.
\<close>

definition test_mem :: "suite_ptr \<Rightarrow> s2n_cipher_suite" where
  "test_mem = suite_mem (snd (s2n_cipher_suites_init test_env (initial_globals 64)))"

definition test_conn :: "uint8_t \<Rightarrow> s2n_cipher_preferences \<Rightarrow> unit s2n_connection" where
  "test_conn v prefs =
     \<lparr>actual_protocol_version = v, client_protocol_version = v, server_protocol_version = v,
      closed = False, secure_renegotiation = False,
      secure = Some \<lparr>cipher_suite = Some (Global s2n_null_cipher_suite)\<rparr>,
      chosen_psk = None,
      security_policy = Some \<lparr>cipher_preferences = prefs\<rparr>,
      kex_params = ()\<rparr>"

definition cipher_preferences_test_all_tls13 :: s2n_cipher_preferences where
  "cipher_preferences_test_all_tls13 =
     \<lparr>count = 3,
      suites = [Global s2n_tls13_aes_128_gcm_sha256, Global s2n_tls13_aes_256_gcm_sha384,
                Global s2n_tls13_chacha20_poly1305_sha256]\<rparr>"

text \<open>
  An environment in which the message being read is the ServerHello that follows a
  HelloRetryRequest, and a TLS 1.3 connection that pinned \<open>TLS_AES_128_GCM_SHA256\<close>.
\<close>

definition hrr_env :: "unit s2n_env" where
  "hrr_env = test_env\<lparr>s2n_is_hello_retry_handshake := (\<lambda>conn. True)\<rparr>"

definition hrr_conn :: "unit s2n_connection" where
  "hrr_conn = (test_conn S2N_TLS13 cipher_preferences_test_all_tls13)
     \<lparr>secure := Some \<lparr>cipher_suite = Some (Global s2n_tls13_aes_128_gcm_sha256)\<rparr>\<rparr>"

text \<open>
  The same connection with a chosen PSK whose hash is SHA-384, which is not the PRF hash
  of the pinned suite.
\<close>

definition hrr_psk_conn :: "unit s2n_connection" where
  "hrr_psk_conn = hrr_conn\<lparr>chosen_psk := Some \<lparr>psk_hmac_alg = S2N_HMAC_SHA384\<rparr>\<rparr>"

text \<open>
  An IANA code read as a number, first byte most significant, and what it means for a
  list of suites to be strictly ascending by code in a store.
\<close>

definition code_nat :: "iana \<Rightarrow> nat" where
  "code_nat a = unat (fst a) * 256 + unat (snd a)"

definition ascending :: "(suite_ptr \<Rightarrow> s2n_cipher_suite) \<Rightarrow> suite_ptr list \<Rightarrow> bool" where
  "ascending m all = sorted_wrt (<) (map (\<lambda>p. code_nat (iana_value (m p))) all)"

section \<open>Specification of the walk\<close>

text \<open>
  What the walk decides about one entry of the server's list, in the words of the
  specification: a delimiter; an ordinary suite whose code is not on the wire
  (\<open>Unmatched\<close>); one that fails validation (\<open>Invalid\<close>); one that is matched and
  valid but whose minimum version exceeds the connection's (\<open>TooNew\<close>); or one that
  is matched, valid and usable at the connection's version, with the index of its
  first occurrence in the client's list (\<open>Usable j\<close>). \<open>examine\<close> also returns the
  connection as validation leaves it.
\<close>

definition is_delimiter :: "suite_ptr \<Rightarrow> bool" where
  "is_delimiter p =
     (p = Global s2n_equal_preference_group_start \<or> p = Global s2n_equal_preference_group_end)"

datatype verdict = Delimiter | Unmatched | Invalid | TooNew | Usable int

definition examine ::
  "'k s2n_env \<Rightarrow> (suite_ptr \<Rightarrow> s2n_cipher_suite) \<Rightarrow> uint8_t list \<Rightarrow> nat \<Rightarrow> nat
     \<Rightarrow> 'k s2n_connection \<Rightarrow> suite_ptr \<Rightarrow> verdict \<times> 'k s2n_connection" where
  "examine E m wire wire_count cipher_suite_len conn p =
     (if is_delimiter p then (Delimiter, conn)
      else
        (let j = s2n_wire_ciphers_has_server_cipher_at (iana_value (m p)) wire wire_count
                   cipher_suite_len
         in if j < 0 then (Unmatched, conn)
            else
              (case s2n_cipher_suite_match_is_valid E conn (m p) of
                 (valid, conn') \<Rightarrow>
                   (if \<not> valid then Invalid
                    else if actual_protocol_version conn' < minimum_required_tls_version (m p)
                    then TooNew
                    else Usable j,
                    conn'))))"

text \<open>
  The verdicts of the entries of a list, examined in order, each on the connection the
  entries before it have left; the connection after a list has been examined; and
  whether the walk is inside a group after a list, given whether it was before.
\<close>

primrec verdicts ::
  "'k s2n_env \<Rightarrow> (suite_ptr \<Rightarrow> s2n_cipher_suite) \<Rightarrow> uint8_t list \<Rightarrow> nat \<Rightarrow> nat
     \<Rightarrow> suite_ptr list \<Rightarrow> 'k s2n_connection \<Rightarrow> verdict list" where
  "verdicts E m wire wire_count cipher_suite_len [] conn = []"
| "verdicts E m wire wire_count cipher_suite_len (p # ps) conn =
     fst (examine E m wire wire_count cipher_suite_len conn p) #
     verdicts E m wire wire_count cipher_suite_len ps
       (snd (examine E m wire wire_count cipher_suite_len conn p))"

primrec conn_after ::
  "'k s2n_env \<Rightarrow> (suite_ptr \<Rightarrow> s2n_cipher_suite) \<Rightarrow> uint8_t list \<Rightarrow> nat \<Rightarrow> nat
     \<Rightarrow> suite_ptr list \<Rightarrow> 'k s2n_connection \<Rightarrow> 'k s2n_connection" where
  "conn_after E m wire wire_count cipher_suite_len [] conn = conn"
| "conn_after E m wire wire_count cipher_suite_len (p # ps) conn =
     conn_after E m wire wire_count cipher_suite_len ps
       (snd (examine E m wire wire_count cipher_suite_len conn p))"

primrec in_group_after :: "bool \<Rightarrow> suite_ptr list \<Rightarrow> bool" where
  "in_group_after g [] = g"
| "in_group_after g (p # ps) =
     in_group_after
       (if p = Global s2n_equal_preference_group_start then True
        else if p = Global s2n_equal_preference_group_end then False
        else g) ps"

text \<open>
  Well-formed preference lists, in the words of section 4.3 of the specification: the
  delimiters are balanced and not nested, no group is empty, and a delimiter never
  stands outside a matched pair. \<open>well_formed_from g\<close> reads a list from a point where
  a group is open (\<open>g\<close>) or not.
\<close>

fun well_formed_from :: "bool \<Rightarrow> suite_ptr list \<Rightarrow> bool" where
  "well_formed_from g [] = (\<not> g)"
| "well_formed_from g (p # ps) =
     (if p = Global s2n_equal_preference_group_start
      then \<not> g \<and> ps \<noteq> [] \<and> hd ps \<noteq> Global s2n_equal_preference_group_end \<and>
           well_formed_from True ps
      else if p = Global s2n_equal_preference_group_end
      then g \<and> well_formed_from False ps
      else well_formed_from g ps)"

definition well_formed :: "suite_ptr list \<Rightarrow> bool" where
  "well_formed ps = well_formed_from False ps"

text \<open>
  Preference lists for concrete runs: the equal-preference TLS 1.3 list of the source,
  and three short lists of catalog suites.
\<close>

definition cipher_preferences_test_all_equal_preference_tls13 :: s2n_cipher_preferences where
  "cipher_preferences_test_all_equal_preference_tls13 =
     \<lparr>count = 5,
      suites = [Global s2n_equal_preference_group_start,
                Global s2n_tls13_aes_128_gcm_sha256,
                Global s2n_tls13_aes_256_gcm_sha384,
                Global s2n_tls13_chacha20_poly1305_sha256,
                Global s2n_equal_preference_group_end]\<rparr>"

definition cipher_preferences_ecdhe_gcm :: s2n_cipher_preferences where
  "cipher_preferences_ecdhe_gcm =
     \<lparr>count = 2,
      suites = [Global s2n_ecdhe_rsa_with_aes_128_gcm_sha256,
                Global s2n_ecdhe_rsa_with_aes_256_gcm_sha384]\<rparr>"

definition cipher_preferences_sha256_first :: s2n_cipher_preferences where
  "cipher_preferences_sha256_first =
     \<lparr>count = 2,
      suites = [Global s2n_rsa_with_aes_128_cbc_sha256, Global s2n_rsa_with_aes_128_cbc_sha]\<rparr>"

definition cipher_preferences_rc4_md5 :: s2n_cipher_preferences where
  "cipher_preferences_rc4_md5 = \<lparr>count = 1, suites = [Global s2n_rsa_with_rc4_128_md5]\<rparr>"

section \<open>Verification: the initializer\<close>

lemma record_alg_loop_available:
  "available (record_alg_loop E ras cur) =
     (list_ex (\<lambda>ra. is_available E (cipher ra)) ras \<or> available cur)"
  by (induction ras) auto

lemma record_alg_loop_kex:
  "key_exchange_alg (record_alg_loop E ras cur) = key_exchange_alg cur"
  by (induction ras) auto

lemma record_alg_loop_keeps_invariant:
  "(available cur \<longrightarrow> record_alg cur \<noteq> None) \<Longrightarrow>
   available (record_alg_loop E ras cur) \<longrightarrow> record_alg (record_alg_loop E ras cur) \<noteq> None"
  by (induction ras) auto

lemma init_step_invariant:
  assumes "s2n_cipher_suites_init_step E p g = (Inr u, g')"
  shows "available (suite_mem g' p) \<longrightarrow> record_alg (suite_mem g' p) \<noteq> None"
  using assms
    record_alg_loop_keeps_invariant[of "(suite_mem g p)\<lparr>available := False, record_alg := None\<rparr>" E]
  by (auto simp: s2n_cipher_suites_init_step_def Let_def s2n_dup_def
      split: if_splits option.splits prod.splits sum.splits)

lemma init_step_available:
  "s2n_cipher_suites_init_step E p g = (Inr u, g') \<Longrightarrow>
   available (suite_mem g' p) = selectable E (suite_mem g p)"
  by (auto simp: s2n_cipher_suites_init_step_def Let_def s2n_dup_def selectable_def
      record_alg_loop_available record_alg_loop_kex
      split: if_splits option.splits prod.splits sum.splits)

text \<open>An iteration writes the entry it handles and at most one heap cell.\<close>

lemma init_step_frame:
  "s2n_cipher_suites_init_step E p g = (r, g') \<Longrightarrow> Global x \<noteq> p \<Longrightarrow>
   suite_mem g' (Global x) = suite_mem g (Global x)"
  by (auto simp: s2n_cipher_suites_init_step_def Let_def s2n_dup_def
      split: if_splits option.splits prod.splits sum.splits)

lemma init_step_heap:
  "s2n_cipher_suites_init_step E p g = (r, g') \<Longrightarrow>
   heap_limit g' = heap_limit g \<and> heap_next g' \<le> Suc (heap_next g) \<and>
   (heap_next g < heap_limit g \<longrightarrow> r = Inr ())"
  by (auto simp: s2n_cipher_suites_init_step_def Let_def s2n_dup_def
      split: if_splits option.splits prod.splits sum.splits)

lemma init_loop_frame:
  "s2n_cipher_suites_init_loop E ps g = (r, g') \<Longrightarrow> Global x \<notin> set ps \<Longrightarrow>
   suite_mem g' (Global x) = suite_mem g (Global x)"
proof (induction ps arbitrary: g)
  case Nil
  then show ?case by simp
next
  case (Cons p ps)
  obtain r1 g1 where step: "s2n_cipher_suites_init_step E p g = (r1, g1)"
    by (cases "s2n_cipher_suites_init_step E p g")
  from Cons.prems(2) have ne: "Global x \<noteq> p" and notin: "Global x \<notin> set ps" by auto
  have fr: "suite_mem g1 (Global x) = suite_mem g (Global x)"
    using init_step_frame[OF step ne] .
  show ?case
  proof (cases r1)
    case (Inl e)
    with Cons.prems(1) step fr show ?thesis by simp
  next
    case (Inr u)
    with Cons.prems(1) step have "s2n_cipher_suites_init_loop E ps g1 = (r, g')" by simp
    from Cons.IH[OF this notin] fr show ?thesis by simp
  qed
qed

lemma init_loop_invariant:
  "s2n_cipher_suites_init_loop E ps g = (Inr u, g') \<Longrightarrow>
   Global x \<in> set ps \<or>
     (available (suite_mem g (Global x)) \<longrightarrow> record_alg (suite_mem g (Global x)) \<noteq> None) \<Longrightarrow>
   available (suite_mem g' (Global x)) \<longrightarrow> record_alg (suite_mem g' (Global x)) \<noteq> None"
proof (induction ps arbitrary: g)
  case Nil
  then show ?case by simp
next
  case (Cons p ps)
  from Cons.prems(1) obtain g1 where
    step: "s2n_cipher_suites_init_step E p g = (Inr (), g1)" and
    rest: "s2n_cipher_suites_init_loop E ps g1 = (Inr u, g')"
    by (auto split: prod.splits sum.splits)
  have "Global x \<in> set ps \<or>
    (available (suite_mem g1 (Global x)) \<longrightarrow> record_alg (suite_mem g1 (Global x)) \<noteq> None)"
  proof (cases "Global x = p")
    case True
    with init_step_invariant[OF step] show ?thesis by simp
  next
    case False
    with Cons.prems(2) init_step_frame[OF step False] show ?thesis by auto
  qed
  with Cons.IH[OF rest] show ?case .
qed

lemma init_loop_available:
  "s2n_cipher_suites_init_loop E ps g = (Inr u, g') \<Longrightarrow> distinct ps \<Longrightarrow>
   Global x \<in> set ps \<Longrightarrow>
   available (suite_mem g' (Global x)) = selectable E (suite_mem g (Global x))"
proof (induction ps arbitrary: g)
  case Nil
  then show ?case by simp
next
  case (Cons p ps)
  from Cons.prems(1) obtain g1 where
    step: "s2n_cipher_suites_init_step E p g = (Inr (), g1)" and
    rest: "s2n_cipher_suites_init_loop E ps g1 = (Inr u, g')"
    by (auto split: prod.splits sum.splits)
  show ?case
  proof (cases "Global x = p")
    case True
    with Cons.prems(2) have "Global x \<notin> set ps" by simp
    from init_loop_frame[OF rest this] init_step_available[OF step] True
    show ?thesis by simp
  next
    case False
    with Cons.prems have "distinct ps" "Global x \<in> set ps" by auto
    from Cons.IH[OF rest this] init_step_frame[OF step False] show ?thesis by simp
  qed
qed

lemma init_loop_succeeds:
  "heap_next g + length ps \<le> heap_limit g \<Longrightarrow>
   fst (s2n_cipher_suites_init_loop E ps g) = Inr ()"
proof (induction ps arbitrary: g)
  case Nil
  then show ?case by simp
next
  case (Cons p ps)
  obtain r1 g1 where step: "s2n_cipher_suites_init_step E p g = (r1, g1)"
    by (cases "s2n_cipher_suites_init_step E p g")
  from init_step_heap[OF step] Cons.prems
  have r1: "r1 = Inr ()" and "heap_next g1 + length ps \<le> heap_limit g1" by auto
  from Cons.IH[OF this(2)] step r1 show ?case by simp
qed

lemma catalog_global: "p \<in> set s2n_all_cipher_suites \<Longrightarrow> \<exists>x. p = Global x"
  by (auto simp: s2n_all_cipher_suites_def)

lemma catalog_distinct: "distinct s2n_all_cipher_suites"
  by (simp add: s2n_all_cipher_suites_def)

text \<open>With room for one duplicate per catalog entry, the initializer succeeds.\<close>

lemma init_succeeds:
  assumes "heap_next g + length s2n_all_cipher_suites \<le> heap_limit g"
  shows "fst (s2n_cipher_suites_init E g) = Inr ()"
  using init_loop_succeeds[OF assms, of E]
  by (auto simp: s2n_cipher_suites_init_def split: prod.splits sum.splits)

text \<open>
  After a successful run a catalog suite is available exactly when it was selectable
  (so with post-quantum support disabled no KEM suite is available).
\<close>

lemma init_available_iff:
  assumes "fst (s2n_cipher_suites_init E g) = Inr ()"
    and "Global x \<in> set s2n_all_cipher_suites"
  shows "available (suite_mem (snd (s2n_cipher_suites_init E g)) (Global x)) =
         selectable E (suite_mem g (Global x))"
proof -
  from assms(1) obtain g1 where
    loop: "s2n_cipher_suites_init_loop E s2n_all_cipher_suites g = (Inr (), g1)" and
    fin: "suite_mem (snd (s2n_cipher_suites_init E g)) = suite_mem g1"
    by (auto simp: s2n_cipher_suites_init_def split: prod.splits sum.splits)
  from init_loop_available[OF loop catalog_distinct assms(2)] fin show ?thesis by simp
qed

text \<open>
  Claim C9. After \<open>s2n_cipher_suites_init\<close> has completed, every suite of the static
  catalog that is marked available has a selected record algorithm:
  \<open>available\<close> implies \<open>record_alg \<noteq> NULL\<close>. This holds for every environment (which
  ciphers are available, whether post-quantum support is on) and every state the
  initializer starts from.
\<close>

theorem init_available_has_record_alg:
  assumes "fst (s2n_cipher_suites_init E g) = Inr ()"
    and "p \<in> set s2n_all_cipher_suites"
  shows "available (suite_mem (snd (s2n_cipher_suites_init E g)) p) \<longrightarrow>
         record_alg (suite_mem (snd (s2n_cipher_suites_init E g)) p) \<noteq> None"
proof -
  from assms(2) obtain x where p: "p = Global x" using catalog_global by blast
  from assms(1) obtain g1 where
    loop: "s2n_cipher_suites_init_loop E s2n_all_cipher_suites g = (Inr (), g1)" and
    fin: "suite_mem (snd (s2n_cipher_suites_init E g)) = suite_mem g1"
    by (auto simp: s2n_cipher_suites_init_def split: prod.splits sum.splits)
  from init_loop_invariant[OF loop, of x] assms(2) p
  have "available (suite_mem g1 (Global x)) \<longrightarrow> record_alg (suite_mem g1 (Global x)) \<noteq> None"
    by simp
  with fin p show ?thesis by simp
qed

theorem init_available_has_record_alg_witness:
  "fst (s2n_cipher_suites_init test_env (initial_globals 64)) = Inr () \<and>
   Global s2n_rsa_with_rc4_128_md5 \<in> set s2n_all_cipher_suites \<and>
   available (suite_mem (snd (s2n_cipher_suites_init test_env (initial_globals 64)))
                (Global s2n_rsa_with_rc4_128_md5)) \<and>
   record_alg (suite_mem (snd (s2n_cipher_suites_init test_env (initial_globals 64)))
                (Global s2n_rsa_with_rc4_128_md5)) \<noteq> None"
proof -
  have ok: "fst (s2n_cipher_suites_init test_env (initial_globals 64)) = Inr ()"
    by (rule init_succeeds) (simp add: initial_globals_def s2n_all_cipher_suites_def)
  have mem: "Global s2n_rsa_with_rc4_128_md5 \<in> set s2n_all_cipher_suites"
    by (simp add: s2n_all_cipher_suites_def)
  have "selectable test_env (suite_mem (initial_globals 64) (Global s2n_rsa_with_rc4_128_md5))"
    by (simp add: selectable_def initial_globals_def static_mem_def test_env_def
        s2n_kex_includes_model_def s2n_record_alg_rc4_md5_def)
  with init_available_iff[OF ok mem]
  have av: "available (suite_mem (snd (s2n_cipher_suites_init test_env (initial_globals 64)))
                (Global s2n_rsa_with_rc4_128_md5))" by simp
  from init_available_has_record_alg[OF ok mem] av ok mem show ?thesis by blast
qed

section \<open>Verification: the extension predicates\<close>

text \<open>
  Claim C10. For a null cipher suite pointer both extension predicates,
  \<open>s2n_cipher_suite_requires_ecc_extension\<close> and
  \<open>s2n_cipher_suite_requires_pq_extension\<close>, return false; neither fails nor looks at
  the store.
\<close>

theorem requires_extension_null:
  "s2n_cipher_suite_requires_ecc_extension E m None = False \<and>
   s2n_cipher_suite_requires_pq_extension E m None = False"
  by (simp add: s2n_cipher_suite_requires_ecc_extension_def
      s2n_cipher_suite_requires_pq_extension_def)

section \<open>Verification: stores left by the initializer\<close>

lemma record_alg_loop_static:
  "static_part (record_alg_loop E ras cur) = static_part cur"
  by (induction ras) (auto simp: static_part_def)

lemma init_step_static:
  "s2n_cipher_suites_init_step E p g = (r, g') \<Longrightarrow>
   static_part (suite_mem g' (Global x)) = static_part (suite_mem g (Global x))"
  using record_alg_loop_static[of E "take (num_record_algs (suite_mem g p)) (all_record_algs (suite_mem g p))"
      "(suite_mem g p)\<lparr>available := False, record_alg := None\<rparr>"]
  by (auto simp: s2n_cipher_suites_init_step_def Let_def s2n_dup_def static_part_def
      split: if_splits option.splits prod.splits sum.splits)

lemma init_loop_static:
  "s2n_cipher_suites_init_loop E ps g = (r, g') \<Longrightarrow>
   static_part (suite_mem g' (Global x)) = static_part (suite_mem g (Global x))"
proof (induction ps arbitrary: g)
  case Nil
  then show ?case by simp
next
  case (Cons p ps)
  obtain r1 g1 where step: "s2n_cipher_suites_init_step E p g = (r1, g1)"
    by (cases "s2n_cipher_suites_init_step E p g")
  show ?case
  proof (cases r1)
    case (Inl e)
    with Cons.prems step init_step_static[OF step, of x] show ?thesis by simp
  next
    case (Inr u)
    with Cons.prems step have "s2n_cipher_suites_init_loop E ps g1 = (r, g')" by simp
    from Cons.IH[OF this] init_step_static[OF step, of x] show ?thesis by simp
  qed
qed

lemma init_static:
  "static_part (suite_mem (snd (s2n_cipher_suites_init E g)) (Global x)) =
   static_part (suite_mem g (Global x))"
proof -
  obtain r g1 where loop: "s2n_cipher_suites_init_loop E s2n_all_cipher_suites g = (r, g1)"
    by (cases "s2n_cipher_suites_init_loop E s2n_all_cipher_suites g")
  then have "suite_mem (snd (s2n_cipher_suites_init E g)) = suite_mem g1"
    by (cases r) (simp_all add: s2n_cipher_suites_init_def)
  with init_loop_static[OF loop, of x] show ?thesis by simp
qed

lemma init_untouched:
  assumes "Global x \<notin> set s2n_all_cipher_suites"
  shows "suite_mem (snd (s2n_cipher_suites_init E g)) (Global x) = suite_mem g (Global x)"
proof -
  obtain r g1 where loop: "s2n_cipher_suites_init_loop E s2n_all_cipher_suites g = (r, g1)"
    by (cases "s2n_cipher_suites_init_loop E s2n_all_cipher_suites g")
  then have "suite_mem (snd (s2n_cipher_suites_init E g)) = suite_mem g1"
    by (cases r) (simp_all add: s2n_cipher_suites_init_def)
  with init_loop_frame[OF loop assms] show ?thesis by simp
qed

lemma static_part_fields:
  "iana_value s = iana_value (static_part s)"
  "minimum_required_tls_version s = minimum_required_tls_version (static_part s)"
  "prf_alg s = prf_alg (static_part s)"
  by (simp_all add: static_part_def)

lemma test_mem_static:
  "iana_value (test_mem (Global x)) = iana_value (static_initializer x)"
  "minimum_required_tls_version (test_mem (Global x)) =
     minimum_required_tls_version (static_initializer x)"
  "prf_alg (test_mem (Global x)) = prf_alg (static_initializer x)"
  using init_static[of test_env "initial_globals 64" x]
    static_part_fields[of "test_mem (Global x)"]
    static_part_fields[of "static_initializer x"]
  by (simp_all add: test_mem_def initial_globals_def static_mem_def)

lemma test_mem_ok: "fst (s2n_cipher_suites_init test_env (initial_globals 64)) = Inr ()"
  by (rule init_succeeds) (simp add: initial_globals_def s2n_all_cipher_suites_def)

lemma test_mem_available:
  "Global x \<in> set s2n_all_cipher_suites \<Longrightarrow>
   available (test_mem (Global x)) = selectable test_env (static_initializer x)"
  using init_available_iff[OF test_mem_ok, of x]
  by (simp add: test_mem_def initial_globals_def static_mem_def)

lemma test_mem_delimiters:
  "test_mem (Global s2n_equal_preference_group_start) =
     static_initializer s2n_equal_preference_group_start"
  "test_mem (Global s2n_equal_preference_group_end) =
     static_initializer s2n_equal_preference_group_end"
  "test_mem (Global s2n_null_cipher_suite) = static_initializer s2n_null_cipher_suite"
  using init_untouched[of _ test_env "initial_globals 64"]
  by (simp_all add: test_mem_def initial_globals_def static_mem_def s2n_all_cipher_suites_def)

section \<open>Verification: the wire scans and the signalling codes\<close>

lemma memcmp2_eq_0: "memcmp2 a b = 0 \<longleftrightarrow> a = b"
  by (cases a; cases b) (auto simp: memcmp2_def)

lemma contain_loop_iff:
  "s2n_wire_ciphers_contain_loop match wire n len i \<noteq> 0 \<longleftrightarrow>
   (\<exists>j. i \<le> j \<and> j < n \<and> theirs wire j len = match)"
proof (induction match wire n len i rule: s2n_wire_ciphers_contain_loop.induct)
  case (1 match wire n len i)
  show ?case
  proof (cases "i < n")
    case False
    then show ?thesis by (subst s2n_wire_ciphers_contain_loop.simps) auto
  next
    case True
    show ?thesis
    proof (cases "theirs wire i len = match")
      case eq: True
      with True show ?thesis
        by (subst s2n_wire_ciphers_contain_loop.simps) (auto simp: memcmp2_eq_0)
    next
      case ne: False
      then have ne': "memcmp2 match (theirs wire i len) \<noteq> 0" by (auto simp: memcmp2_eq_0)
      have a: "(\<exists>j\<ge>Suc i. j < n \<and> theirs wire j len = match) = (\<exists>j\<ge>i. j < n \<and> theirs wire j len = match)"
        using ne by (metis Suc_leD Suc_leI le_neq_implies_less)
      have "s2n_wire_ciphers_contain_loop match wire n len i = s2n_wire_ciphers_contain_loop match wire n len (Suc i)"
        using True ne' by (subst s2n_wire_ciphers_contain_loop.simps) simp
      with 1[OF True ne'] a show ?thesis by simp
    qed
  qed
qed

lemma contain_iff:
  "s2n_wire_ciphers_contain match wire n len \<noteq> 0 \<longleftrightarrow> (\<exists>j<n. theirs wire j len = match)"
  by (simp add: s2n_wire_ciphers_contain_def contain_loop_iff)

text \<open>
  Claim C6. Downgrade detection: whenever the client's protocol version is strictly
  lower than the server's and the client's list contains \<open>TLS_FALLBACK_SCSV\<close>
  (\<open>0x56,0x00\<close>), server-side selection fails with \<open>S2N_ERR_FALLBACK_DETECTED\<close> and
  the connection it leaves is the one it was given with \<open>closed\<close> set: no suite is
  selected and nothing else changes. The connection has its \<open>secure\<close> parameters, as
  every connection of the library does.
\<close>

theorem fallback_scsv_detected:
  assumes "secure conn = Some sec"
    and "client_protocol_version conn < server_protocol_version conn"
    and "\<exists>i<wire_count. theirs wire i cipher_suite_len = TLS_FALLBACK_SCSV"
  shows "s2n_set_cipher_as_server E m (Some conn) wire wire_count cipher_suite_len =
         (Inl S2N_ERR_FALLBACK_DETECTED, Some (conn\<lparr>closed := True\<rparr>))"
  using assms contain_iff[of TLS_FALLBACK_SCSV wire wire_count cipher_suite_len]
  by (simp add: s2n_set_cipher_as_server_def)

lemmas wire_eval = theirs_def S2N_TLS_CIPHER_SUITE_LEN_def TLS_FALLBACK_SCSV_def
  TLS_EMPTY_RENEGOTIATION_INFO_SCSV_def

theorem fallback_scsv_detected_witness:
  "s2n_set_cipher_as_server test_env test_mem
     (Some ((test_conn S2N_TLS11 cipher_preferences_test_all_tls13)
              \<lparr>server_protocol_version := S2N_TLS13\<rparr>))
     [0x13, 0x01, 0x56, 0x00] 2 2 =
   (Inl S2N_ERR_FALLBACK_DETECTED,
    Some ((test_conn S2N_TLS11 cipher_preferences_test_all_tls13)
              \<lparr>server_protocol_version := S2N_TLS13, closed := True\<rparr>))"
proof -
  have "\<exists>i<2. theirs [0x13, 0x01, 0x56, 0x00] i 2 = TLS_FALLBACK_SCSV"
    by (rule exI[of _ 1]) (simp add: wire_eval)
  from fallback_scsv_detected[OF _ _ this, of
      "(test_conn S2N_TLS11 cipher_preferences_test_all_tls13)\<lparr>server_protocol_version := S2N_TLS13\<rparr>"
      "\<lparr>cipher_suite = Some (Global s2n_null_cipher_suite)\<rparr>" test_env test_mem]
  show ?thesis by (simp add: test_conn_def S2N_TLS11_def S2N_TLS13_def)
qed

section \<open>Verification: client-side confirmation\<close>

lemma client_loop_None:
  "s2n_set_cipher_as_client_loop m wire ps = None \<longleftrightarrow> (\<forall>p\<in>set ps. iana_value (m p) \<noteq> wire)"
  by (induction ps) (auto simp: memcmp2_eq_0)

lemma client_loop_Some:
  "s2n_set_cipher_as_client_loop m wire ps = Some cs \<Longrightarrow> cs \<in> set ps \<and> iana_value (m cs) = wire"
  by (induction ps) (auto simp: memcmp2_eq_0 split: if_splits)

text \<open>
  Claim C4, as amended. In client-side confirmation, when the code chosen by the server
  occurs nowhere in the preference list of the active security policy, the operation
  fails and leaves the connection as it was. The error raised is
  \<open>S2N_ERR_CIPHER_NOT_SUPPORTED\<close>: the function raises this one error for every check
  it makes after the null checks, and the \<open>IllegalParameter\<close> kind is raised nowhere.
\<close>

theorem client_unoffered_code:
  assumes "secure conn = Some sec"
    and "cipher_suite sec = Some pinned"
    and "security_policy conn = Some sp"
    and "\<forall>p\<in>set (take (count (cipher_preferences sp)) (suites (cipher_preferences sp))).
           iana_value (m p) \<noteq> wire"
  shows "s2n_set_cipher_as_client E m (Some conn) wire =
         (Inl S2N_ERR_CIPHER_NOT_SUPPORTED, Some conn)"
  using assms client_loop_None[of m wire
      "take (count (cipher_preferences sp)) (suites (cipher_preferences sp))"]
  by (simp add: s2n_set_cipher_as_client_def s2n_connection_get_security_policy_def)

lemmas client_eval = s2n_set_cipher_as_client_def s2n_connection_get_security_policy_def
  test_conn_def cipher_preferences_test_all_tls13_def test_mem_static memcmp2_def

theorem client_unoffered_code_witness:
  "s2n_set_cipher_as_client test_env test_mem
     (Some (test_conn S2N_TLS13 cipher_preferences_test_all_tls13)) (0xC0, 0x30) =
   (Inl S2N_ERR_CIPHER_NOT_SUPPORTED, Some (test_conn S2N_TLS13 cipher_preferences_test_all_tls13))"
  using client_unoffered_code[where conn = "test_conn S2N_TLS13 cipher_preferences_test_all_tls13"
      and sec = "\<lparr>cipher_suite = Some (Global s2n_null_cipher_suite)\<rparr>"
      and pinned = "Global s2n_null_cipher_suite"
      and sp = "\<lparr>cipher_preferences = cipher_preferences_test_all_tls13\<rparr>"
      and m = test_mem and wire = "(0xC0, 0x30)" and E = test_env]
  by (simp add: test_conn_def cipher_preferences_test_all_tls13_def test_mem_static)

text \<open>
  The claim as stated fails: with the three TLS 1.3 suites as preference list and the
  code \<open>0xC0,0x30\<close> on the wire, the error is not \<open>IllegalParameter\<close>.
\<close>

theorem client_unoffered_code_counterexample:
  "(0xC0, 0x30) \<notin> set (map (\<lambda>p. iana_value (test_mem p)) (suites cipher_preferences_test_all_tls13)) \<and>
   fst (s2n_set_cipher_as_client test_env test_mem
          (Some (test_conn S2N_TLS13 cipher_preferences_test_all_tls13)) (0xC0, 0x30))
     = Inl S2N_ERR_CIPHER_NOT_SUPPORTED \<and>
   fst (s2n_set_cipher_as_client test_env test_mem
          (Some (test_conn S2N_TLS13 cipher_preferences_test_all_tls13)) (0xC0, 0x30))
     \<noteq> Inl IllegalParameter"
  by (simp add: client_eval)

lemma tls13_available:
  "available (test_mem (Global s2n_tls13_aes_128_gcm_sha256))"
  "available (test_mem (Global s2n_tls13_aes_256_gcm_sha384))"
  "available (test_mem (Global s2n_tls13_chacha20_poly1305_sha256))"
  by (simp_all add: test_mem_available s2n_all_cipher_suites_def selectable_def test_env_def
      s2n_kex_includes_model_def)

text \<open>
  Claim C5, as amended. When the message is the ServerHello after a HelloRetryRequest
  and the code on the wire is located in the preference list, at the suite \<open>cs\<close>:
  \<^item> if the IANA code of \<open>cs\<close> differs from the code of the suite pinned after the
    HelloRetryRequest, the operation fails with \<open>S2N_ERR_CIPHER_NOT_SUPPORTED\<close> (not
    \<open>IllegalParameter\<close>), whatever the availability of \<open>cs\<close> and the chosen PSK;
  \<^item> if the codes are equal, the pinned suite being the entry that the preference list
    yields for its own code (as it is when the HelloRetryRequest pinned it from the
    same list), the operation succeeds exactly when \<open>cs\<close> is available and, a PSK
    being chosen, the PRF hash of \<open>cs\<close> is the hash of the PSK; otherwise it fails with
    \<open>S2N_ERR_CIPHER_NOT_SUPPORTED\<close>.
  Either way the connection is left as it was.
\<close>

theorem client_hello_retry_check:
  assumes sec: "secure conn = Some sec"
    and pinned: "cipher_suite sec = Some pinned"
    and pol: "security_policy conn = Some sp"
    and located: "s2n_set_cipher_as_client_loop m wire
           (take (count (cipher_preferences sp)) (suites (cipher_preferences sp))) = Some cs"
    and hrr: "s2n_is_hello_retry_handshake E conn"
    and msg: "\<not> s2n_is_hello_retry_message E conn"
  shows "(iana_value (m cs) \<noteq> iana_value (m pinned) \<longrightarrow>
            s2n_set_cipher_as_client E m (Some conn) wire =
              (Inl S2N_ERR_CIPHER_NOT_SUPPORTED, Some conn)) \<and>
         (iana_value (m cs) = iana_value (m pinned) \<and>
          s2n_set_cipher_as_client_loop m (iana_value (m pinned))
            (take (count (cipher_preferences sp)) (suites (cipher_preferences sp))) =
              Some pinned \<longrightarrow>
            s2n_set_cipher_as_client E m (Some conn) wire =
              (if available (m cs) \<and>
                  (case chosen_psk conn of
                     None \<Rightarrow> True
                   | Some psk \<Rightarrow> prf_alg (m cs) = psk_hmac_alg psk)
               then Inr () else Inl S2N_ERR_CIPHER_NOT_SUPPORTED, Some conn))"
proof (intro conjI impI)
  assume ne: "iana_value (m cs) \<noteq> iana_value (m pinned)"
  then have "pinned \<noteq> cs" by auto
  with sec pinned pol located hrr msg
  show "s2n_set_cipher_as_client E m (Some conn) wire =
              (Inl S2N_ERR_CIPHER_NOT_SUPPORTED, Some conn)"
    by (auto simp: s2n_set_cipher_as_client_def s2n_connection_get_security_policy_def
        split: option.splits)
next
  assume a: "iana_value (m cs) = iana_value (m pinned) \<and>
          s2n_set_cipher_as_client_loop m (iana_value (m pinned))
            (take (count (cipher_preferences sp)) (suites (cipher_preferences sp))) =
              Some pinned"
  from client_loop_Some[OF located] have "iana_value (m cs) = wire" by simp
  with a located have "pinned = cs" by simp
  with sec pinned pol located hrr msg
  show "s2n_set_cipher_as_client E m (Some conn) wire =
              (if available (m cs) \<and>
                  (case chosen_psk conn of
                     None \<Rightarrow> True
                   | Some psk \<Rightarrow> prf_alg (m cs) = psk_hmac_alg psk)
               then Inr () else Inl S2N_ERR_CIPHER_NOT_SUPPORTED, Some conn)"
    by (auto simp: s2n_set_cipher_as_client_def s2n_connection_get_security_policy_def
        split: option.splits)
qed

theorem client_hello_retry_check_witness:
  "s2n_set_cipher_as_client hrr_env test_mem (Some hrr_conn) (0x13, 0x02) =
     (Inl S2N_ERR_CIPHER_NOT_SUPPORTED, Some hrr_conn) \<and>
   s2n_set_cipher_as_client hrr_env test_mem (Some hrr_conn) (0x13, 0x01) =
     (Inr (), Some hrr_conn) \<and>
   s2n_set_cipher_as_client hrr_env test_mem (Some hrr_psk_conn) (0x13, 0x01) =
     (Inl S2N_ERR_CIPHER_NOT_SUPPORTED, Some hrr_psk_conn)"
proof -
  let ?sec = "\<lparr>cipher_suite = Some (Global s2n_tls13_aes_128_gcm_sha256)\<rparr>"
  let ?sp = "\<lparr>cipher_preferences = cipher_preferences_test_all_tls13\<rparr>"
  let ?prefs = "take (count (cipher_preferences ?sp)) (suites (cipher_preferences ?sp))"
  have sec: "secure hrr_conn = Some ?sec" "secure hrr_psk_conn = Some ?sec"
    by (simp_all add: hrr_psk_conn_def hrr_conn_def test_conn_def)
  have pinned: "cipher_suite ?sec = Some (Global s2n_tls13_aes_128_gcm_sha256)" by simp
  have pol: "security_policy hrr_conn = Some ?sp" "security_policy hrr_psk_conn = Some ?sp"
    by (simp_all add: hrr_psk_conn_def hrr_conn_def test_conn_def)
  have hrr: "s2n_is_hello_retry_handshake hrr_env hrr_conn"
    "s2n_is_hello_retry_handshake hrr_env hrr_psk_conn"
    by (simp_all add: hrr_env_def test_env_def)
  have msg: "\<not> s2n_is_hello_retry_message hrr_env hrr_conn"
    "\<not> s2n_is_hello_retry_message hrr_env hrr_psk_conn"
    by (simp_all add: hrr_env_def test_env_def)
  have loc2: "s2n_set_cipher_as_client_loop test_mem (0x13, 0x02) ?prefs =
      Some (Global s2n_tls13_aes_256_gcm_sha384)"
    by (simp add: cipher_preferences_test_all_tls13_def test_mem_static memcmp2_def)
  have loc1: "s2n_set_cipher_as_client_loop test_mem (0x13, 0x01) ?prefs =
      Some (Global s2n_tls13_aes_128_gcm_sha256)"
    by (simp add: cipher_preferences_test_all_tls13_def test_mem_static memcmp2_def)
  have differ: "iana_value (test_mem (Global s2n_tls13_aes_256_gcm_sha384)) \<noteq>
      iana_value (test_mem (Global s2n_tls13_aes_128_gcm_sha256))"
    by (simp add: test_mem_static)
  have same: "iana_value (test_mem (Global s2n_tls13_aes_128_gcm_sha256)) =
        iana_value (test_mem (Global s2n_tls13_aes_128_gcm_sha256)) \<and>
      s2n_set_cipher_as_client_loop test_mem
        (iana_value (test_mem (Global s2n_tls13_aes_128_gcm_sha256))) ?prefs =
      Some (Global s2n_tls13_aes_128_gcm_sha256)"
    by (simp add: cipher_preferences_test_all_tls13_def test_mem_static memcmp2_def)
  from client_hello_retry_check[OF sec(1) pinned pol(1) loc2 hrr(1) msg(1),
      THEN conjunct1, THEN mp, OF differ]
  have first: "s2n_set_cipher_as_client hrr_env test_mem (Some hrr_conn) (0x13, 0x02) =
     (Inl S2N_ERR_CIPHER_NOT_SUPPORTED, Some hrr_conn)" .
  from client_hello_retry_check[OF sec(1) pinned pol(1) loc1 hrr(1) msg(1),
      THEN conjunct2, THEN mp, OF same]
  have second: "s2n_set_cipher_as_client hrr_env test_mem (Some hrr_conn) (0x13, 0x01) =
     (Inr (), Some hrr_conn)"
    by (simp add: tls13_available hrr_conn_def test_conn_def)
  from client_hello_retry_check[OF sec(2) pinned pol(2) loc1 hrr(2) msg(2),
      THEN conjunct2, THEN mp, OF same]
  have third: "s2n_set_cipher_as_client hrr_env test_mem (Some hrr_psk_conn) (0x13, 0x01) =
     (Inl S2N_ERR_CIPHER_NOT_SUPPORTED, Some hrr_psk_conn)"
    by (simp add: tls13_available hrr_psk_conn_def hrr_conn_def test_conn_def test_mem_static)
  from first second third show ?thesis by simp
qed

text \<open>
  The claim as stated fails: the pinned suite is \<open>0x13,0x01\<close>, the ServerHello
  carries \<open>0x13,0x02\<close>, and the error is not \<open>IllegalParameter\<close>.
\<close>

theorem client_hello_retry_check_counterexample:
  "iana_value (test_mem (Global s2n_tls13_aes_256_gcm_sha384)) \<noteq>
     iana_value (test_mem (Global s2n_tls13_aes_128_gcm_sha256)) \<and>
   fst (s2n_set_cipher_as_client hrr_env test_mem (Some hrr_conn) (0x13, 0x02)) =
     Inl S2N_ERR_CIPHER_NOT_SUPPORTED \<and>
   fst (s2n_set_cipher_as_client hrr_env test_mem (Some hrr_conn) (0x13, 0x02)) \<noteq>
     Inl IllegalParameter"
  by (simp add: client_eval hrr_conn_def hrr_env_def test_env_def tls13_available)

section \<open>Verification: server-side selection\<close>

lemma has_at_loop_none:
  "(\<forall>j. i \<le> j \<and> j < n \<longrightarrow> theirs wire j len \<noteq> match) \<Longrightarrow>
   s2n_wire_ciphers_has_server_cipher_at_loop match wire n len i = - 1"
proof (induction match wire n len i rule: s2n_wire_ciphers_has_server_cipher_at_loop.induct)
  case (1 match wire n len i)
  show ?case
  proof (cases "i < n")
    case False
    then show ?thesis by (subst s2n_wire_ciphers_has_server_cipher_at_loop.simps) simp
  next
    case True
    with "1.prems" have ne: "memcmp2 match (theirs wire i len) \<noteq> 0"
      by (auto simp: memcmp2_eq_0)
    from "1.prems" have "\<forall>j. Suc i \<le> j \<and> j < n \<longrightarrow> theirs wire j len \<noteq> match" by auto
    from "1.IH"[OF True ne this] True ne show ?thesis
      by (subst s2n_wire_ciphers_has_server_cipher_at_loop.simps) simp
  qed
qed

lemma has_at_loop_range:
  "s2n_wire_ciphers_has_server_cipher_at_loop match wire n len i = - 1 \<or>
   (int i \<le> s2n_wire_ciphers_has_server_cipher_at_loop match wire n len i \<and>
    s2n_wire_ciphers_has_server_cipher_at_loop match wire n len i < int n)"
proof (induction match wire n len i rule: s2n_wire_ciphers_has_server_cipher_at_loop.induct)
  case (1 match wire n len i)
  show ?case
  proof (cases "i < n")
    case False
    then show ?thesis by (subst s2n_wire_ciphers_has_server_cipher_at_loop.simps) simp
  next
    case True
    show ?thesis
    proof (cases "memcmp2 match (theirs wire i len) = 0")
      case z: True
      with True show ?thesis
        by (subst (1 2 3) s2n_wire_ciphers_has_server_cipher_at_loop.simps) simp
    next
      case nz: False
      have eq: "s2n_wire_ciphers_has_server_cipher_at_loop match wire n len i =
            s2n_wire_ciphers_has_server_cipher_at_loop match wire n len (Suc i)"
        using True nz by (subst s2n_wire_ciphers_has_server_cipher_at_loop.simps) simp
      from "1.IH"[OF True nz] show ?thesis unfolding eq by auto
    qed
  qed
qed

lemma has_at_range:
  "s2n_wire_ciphers_has_server_cipher_at match wire n len = - 1 \<or>
   (0 \<le> s2n_wire_ciphers_has_server_cipher_at match wire n len \<and>
    s2n_wire_ciphers_has_server_cipher_at match wire n len < int n)"
  using has_at_loop_range[of match wire n len 0]
  by (auto simp: s2n_wire_ciphers_has_server_cipher_at_def)

lemma has_at_none:
  "(\<forall>j<n. theirs wire j len \<noteq> match) \<Longrightarrow>
   s2n_wire_ciphers_has_server_cipher_at match wire n len = - 1"
  by (simp add: s2n_wire_ciphers_has_server_cipher_at_def has_at_loop_none)

text \<open>
  The position returned is that of the first entry of the client's list that carries
  the code.
\<close>

lemma has_at_loop_first:
  "i \<le> j \<Longrightarrow> j < n \<Longrightarrow> theirs wire j len = match \<Longrightarrow>
   (\<forall>i'. i \<le> i' \<and> i' < j \<longrightarrow> theirs wire i' len \<noteq> match) \<Longrightarrow>
   s2n_wire_ciphers_has_server_cipher_at_loop match wire n len i = int j"
proof (induction match wire n len i rule: s2n_wire_ciphers_has_server_cipher_at_loop.induct)
  case (1 match wire n len i)
  from "1.prems" have lt: "i < n" by simp
  show ?case
  proof (cases "i = j")
    case True
    with "1.prems" lt show ?thesis
      by (subst s2n_wire_ciphers_has_server_cipher_at_loop.simps) (simp add: memcmp2_eq_0)
  next
    case False
    with "1.prems" have ne: "memcmp2 match (theirs wire i len) \<noteq> 0"
      by (auto simp: memcmp2_eq_0)
    from False "1.prems" have "Suc i \<le> j"
      "\<forall>i'. Suc i \<le> i' \<and> i' < j \<longrightarrow> theirs wire i' len \<noteq> match" by auto
    from "1.IH"[OF lt ne this(1) "1.prems"(2,3) this(2)] lt ne show ?thesis
      by (subst s2n_wire_ciphers_has_server_cipher_at_loop.simps) simp
  qed
qed

lemma has_at_first:
  "s2n_wire_ciphers_has_server_cipher_at match wire n len = int j \<longleftrightarrow>
   j < n \<and> theirs wire j len = match \<and> (\<forall>i<j. theirs wire i len \<noteq> match)"
proof
  assume r: "s2n_wire_ciphers_has_server_cipher_at match wire n len = int j"
  have ex: "\<exists>i. i < n \<and> theirs wire i len = match"
  proof (rule ccontr)
    assume "\<not> (\<exists>i. i < n \<and> theirs wire i len = match)"
    then have "\<forall>i<n. theirs wire i len \<noteq> match" by blast
    from has_at_none[OF this] r show False by simp
  qed
  define j0 where "j0 = (LEAST i. i < n \<and> theirs wire i len = match)"
  from LeastI_ex[OF ex] have j0: "j0 < n" "theirs wire j0 len = match"
    unfolding j0_def by auto
  have least: "\<forall>i'. 0 \<le> i' \<and> i' < j0 \<longrightarrow> theirs wire i' len \<noteq> match"
  proof (intro allI impI)
    fix i' assume a: "0 \<le> i' \<and> i' < j0"
    show "theirs wire i' len \<noteq> match"
    proof
      assume "theirs wire i' len = match"
      with a j0(1) have "i' < n \<and> theirs wire i' len = match" by simp
      from Least_le[of "\<lambda>i. i < n \<and> theirs wire i len = match", OF this] a
      show False unfolding j0_def by simp
    qed
  qed
  from has_at_loop_first[OF _ j0 least] have
    "s2n_wire_ciphers_has_server_cipher_at match wire n len = int j0"
    by (simp add: s2n_wire_ciphers_has_server_cipher_at_def)
  with r have "j = j0" by simp
  with j0 least show "j < n \<and> theirs wire j len = match \<and> (\<forall>i<j. theirs wire i len \<noteq> match)"
    by simp
next
  assume a: "j < n \<and> theirs wire j len = match \<and> (\<forall>i<j. theirs wire i len \<noteq> match)"
  then have "\<forall>i'. 0 \<le> i' \<and> i' < j \<longrightarrow> theirs wire i' len \<noteq> match" by simp
  from has_at_loop_first[OF _ _ _ this, of n] a
  show "s2n_wire_ciphers_has_server_cipher_at match wire n len = int j"
    by (simp add: s2n_wire_ciphers_has_server_cipher_at_def)
qed

text \<open>Validation leaves every field of the connection but the key exchange state.\<close>

lemma match_is_valid_frame:
  "\<exists>k. snd (s2n_cipher_suite_match_is_valid E conn pm) = conn\<lparr>kex_params := k\<rparr>"
proof -
  have triv: "conn = conn\<lparr>kex_params := kex_params conn\<rparr>" by simp
  show ?thesis
    unfolding s2n_cipher_suite_match_is_valid_def
    by (auto split: sum.splits prod.splits option.splits if_splits intro: exI[of _ "kex_params conn"])
qed

lemma loop_frame:
  "\<exists>k. snd (s2n_get_negotiated_server_index_loop E m wire n len ps i g nci nsi nhi conn) =
        conn\<lparr>kex_params := k\<rparr>"
proof (induction ps arbitrary: i g nci nsi nhi conn)
  case Nil
  show ?case by (auto intro: exI[of _ "kex_params conn"])
next
  case (Cons p ps)
  obtain v c1 where v: "s2n_cipher_suite_match_is_valid E conn (m p) = (v, c1)"
    by (cases "s2n_cipher_suite_match_is_valid E conn (m p)")
  from match_is_valid_frame[of E conn "m p"] v obtain k1 where c1: "c1 = conn\<lparr>kex_params := k1\<rparr>"
    by auto
  have step: "\<And>i g nci nsi nhi. \<exists>k. snd (s2n_get_negotiated_server_index_loop E m wire n len ps i g nci nsi nhi c1) =
        conn\<lparr>kex_params := k\<rparr>"
  proof -
    fix i g nci nsi nhi
    from Cons.IH[of i g nci nsi nhi c1] obtain k where
      "snd (s2n_get_negotiated_server_index_loop E m wire n len ps i g nci nsi nhi c1) = c1\<lparr>kex_params := k\<rparr>"
      by blast
    with c1 show "\<exists>k. snd (s2n_get_negotiated_server_index_loop E m wire n len ps i g nci nsi nhi c1) =
        conn\<lparr>kex_params := k\<rparr>" by auto
  qed
  have self: "\<exists>k. conn = conn\<lparr>kex_params := k\<rparr>" "\<exists>k. c1 = conn\<lparr>kex_params := k\<rparr>"
    using c1 by (auto intro: exI[of _ "kex_params conn"])
  show ?case
    using v Cons.IH step self by (simp add: Let_def)
qed

lemma negotiated_index_frame:
  "\<exists>k. snd (s2n_get_negotiated_server_index E m conn wire n len) = conn\<lparr>kex_params := k\<rparr>"
proof -
  have self: "\<exists>k. conn = conn\<lparr>kex_params := k\<rparr>"
    by (auto intro: exI[of _ "kex_params conn"])
  show ?thesis
  proof (cases "s2n_connection_get_security_policy conn")
    case (Inl e)
    with self show ?thesis by (simp add: s2n_get_negotiated_server_index_def)
  next
    case (Inr sp)
    from loop_frame[of E m wire n len
        "take (count (cipher_preferences sp)) (suites (cipher_preferences sp))" 0 False
        "int n" "- 1" "- 1" conn]
    show ?thesis using Inr
      by (auto simp: s2n_get_negotiated_server_index_def split: prod.splits sum.splits)
  qed
qed

lemma loop_no_match:
  assumes "\<forall>p\<in>set ps. \<forall>j<n. theirs wire j len \<noteq> iana_value (m p)"
  shows "s2n_get_negotiated_server_index_loop E m wire n len ps i g nci (- 1) (- 1) conn =
         (Inr (- 1, - 1), conn)"
  using assms
proof (induction ps arbitrary: i g)
  case Nil
  show ?case by simp
next
  case (Cons p ps)
  from Cons.prems have "s2n_wire_ciphers_has_server_cipher_at (iana_value (m p)) wire n len = - 1"
    by (intro has_at_none) simp
  moreover from Cons.prems have "\<forall>p\<in>set ps. \<forall>j<n. theirs wire j len \<noteq> iana_value (m p)" by simp
  note Cons.IH[OF this]
  ultimately show ?case by (simp add: Let_def)
qed

text \<open>
  Claim C7, as amended. When the client's list contains
  \<open>TLS_EMPTY_RENEGOTIATION_INFO_SCSV\<close> (\<open>0x00,0xFF\<close>) and the call is not stopped by
  downgrade detection, server-side selection sets \<open>secure_renegotiation\<close> and goes on
  to select: the connection it returns has the flag set whether selection succeeds or
  fails, and the result is that of the selection. In particular, when no code of the
  server's list is on the wire, the call fails with \<open>S2N_ERR_CIPHER_NOT_SUPPORTED\<close> and
  returns the connection with the flag set.
\<close>

theorem renegotiation_scsv_sets_flag:
  assumes "secure conn = Some sec"
    and "\<not> (client_protocol_version conn < server_protocol_version conn \<and>
            (\<exists>i<wire_count. theirs wire i cipher_suite_len = TLS_FALLBACK_SCSV))"
    and "\<exists>i<wire_count. theirs wire i cipher_suite_len = TLS_EMPTY_RENEGOTIATION_INFO_SCSV"
  shows "(\<exists>r conn'. s2n_set_cipher_as_server E m (Some conn) wire wire_count cipher_suite_len =
                      (r, Some conn') \<and> secure_renegotiation conn' \<and>
            r = (case s2n_connection_get_security_policy conn of
                   Inl e \<Rightarrow> Inl e
                 | Inr sp \<Rightarrow>
                     if fst (s2n_get_negotiated_server_index E m
                               (conn\<lparr>secure_renegotiation := True\<rparr>) wire wire_count
                               cipher_suite_len) < 0
                     then Inl S2N_ERR_CIPHER_NOT_SUPPORTED else Inr ())) \<and>
         (\<forall>sp. security_policy conn = Some sp \<and>
               (\<forall>p\<in>set (take (count (cipher_preferences sp)) (suites (cipher_preferences sp))).
                  \<forall>j<wire_count. theirs wire j cipher_suite_len \<noteq> iana_value (m p)) \<longrightarrow>
               s2n_set_cipher_as_server E m (Some conn) wire wire_count cipher_suite_len =
                 (Inl S2N_ERR_CIPHER_NOT_SUPPORTED, Some (conn\<lparr>secure_renegotiation := True\<rparr>)))"
proof -
  let ?c1 = "conn\<lparr>secure_renegotiation := True\<rparr>"
  have nofb: "\<not> (client_protocol_version conn < server_protocol_version conn \<and>
      s2n_wire_ciphers_contain TLS_FALLBACK_SCSV wire wire_count cipher_suite_len \<noteq> 0)"
    using assms(2) by (simp add: contain_iff)
  have reneg: "s2n_wire_ciphers_contain TLS_EMPTY_RENEGOTIATION_INFO_SCSV wire wire_count
      cipher_suite_len \<noteq> 0"
    using assms(3) by (simp add: contain_iff)
  have pol: "s2n_connection_get_security_policy ?c1 = s2n_connection_get_security_policy conn"
    by (simp add: s2n_connection_get_security_policy_def)
  obtain idx c2 where idx: "s2n_get_negotiated_server_index E m ?c1 wire wire_count cipher_suite_len = (idx, c2)"
    by (cases "s2n_get_negotiated_server_index E m ?c1 wire wire_count cipher_suite_len")
  from negotiated_index_frame[of E m ?c1 wire wire_count cipher_suite_len] idx
  obtain k where c2: "c2 = ?c1\<lparr>kex_params := k\<rparr>" by auto
  have first: "\<exists>r conn'. s2n_set_cipher_as_server E m (Some conn) wire wire_count cipher_suite_len =
                      (r, Some conn') \<and> secure_renegotiation conn' \<and>
            r = (case s2n_connection_get_security_policy conn of
                   Inl e \<Rightarrow> Inl e
                 | Inr sp \<Rightarrow>
                     if fst (s2n_get_negotiated_server_index E m ?c1 wire wire_count
                               cipher_suite_len) < 0
                     then Inl S2N_ERR_CIPHER_NOT_SUPPORTED else Inr ())"
    using assms(1) nofb reneg pol idx c2
    by (cases "s2n_connection_get_security_policy conn")
      (auto simp: s2n_set_cipher_as_server_def Let_def)
  have second: "s2n_set_cipher_as_server E m (Some conn) wire wire_count cipher_suite_len =
                 (Inl S2N_ERR_CIPHER_NOT_SUPPORTED, Some ?c1)"
    if sp: "security_policy conn = Some sp"
      and nm: "\<forall>p\<in>set (take (count (cipher_preferences sp)) (suites (cipher_preferences sp))).
                  \<forall>j<wire_count. theirs wire j cipher_suite_len \<noteq> iana_value (m p)"
    for sp
  proof -
    have "s2n_get_negotiated_server_index E m ?c1 wire wire_count cipher_suite_len = (- 1, ?c1)"
      using sp loop_no_match[OF nm, of E 0 False "int wire_count" ?c1]
      by (simp add: s2n_get_negotiated_server_index_def s2n_connection_get_security_policy_def)
    with assms(1) nofb reneg sp show ?thesis
      by (auto simp: s2n_set_cipher_as_server_def Let_def s2n_connection_get_security_policy_def)
  qed
  from first second show ?thesis by blast
qed

theorem renegotiation_scsv_sets_flag_witness:
  "s2n_set_cipher_as_server test_env test_mem
     (Some (test_conn S2N_TLS12 cipher_preferences_test_all_tls13)) [0x00, 0xFF] 1 2 =
   (Inl S2N_ERR_CIPHER_NOT_SUPPORTED,
    Some ((test_conn S2N_TLS12 cipher_preferences_test_all_tls13)\<lparr>secure_renegotiation := True\<rparr>))"
proof -
  have a: "\<exists>i<1. theirs [0x00, 0xFF] i 2 = TLS_EMPTY_RENEGOTIATION_INFO_SCSV"
    by (simp add: wire_eval)
  have b: "\<not> (client_protocol_version (test_conn S2N_TLS12 cipher_preferences_test_all_tls13)
              < server_protocol_version (test_conn S2N_TLS12 cipher_preferences_test_all_tls13) \<and>
            (\<exists>i<1. theirs [0x00, 0xFF] i 2 = TLS_FALLBACK_SCSV))"
    by (simp add: test_conn_def)
  have c: "\<forall>p\<in>set (take (count cipher_preferences_test_all_tls13)
                     (suites cipher_preferences_test_all_tls13)).
             \<forall>j<1. theirs [0x00, 0xFF] j 2 \<noteq> iana_value (test_mem p)"
    by (simp add: cipher_preferences_test_all_tls13_def test_mem_static wire_eval)
  from renegotiation_scsv_sets_flag[where conn = "test_conn S2N_TLS12 cipher_preferences_test_all_tls13"
      and sec = "\<lparr>cipher_suite = Some (Global s2n_null_cipher_suite)\<rparr>"
      and E = test_env and m = test_mem, OF _ b a] c
  show ?thesis by (simp add: test_conn_def)
qed

text \<open>
  The claim as stated fails when downgrade detection fires first: the wire carries both
  signalling codes, the client's version is below the server's, and the call ends with
  \<open>S2N_ERR_FALLBACK_DETECTED\<close> before the renegotiation flag is looked at.
\<close>

theorem renegotiation_scsv_counterexample:
  "(\<exists>i<2. theirs [0x56, 0x00, 0x00, 0xFF] i 2 = TLS_EMPTY_RENEGOTIATION_INFO_SCSV) \<and>
   s2n_set_cipher_as_server test_env test_mem
     (Some ((test_conn S2N_TLS11 cipher_preferences_test_all_tls13)
              \<lparr>server_protocol_version := S2N_TLS13\<rparr>))
     [0x56, 0x00, 0x00, 0xFF] 2 2 =
   (Inl S2N_ERR_FALLBACK_DETECTED,
    Some ((test_conn S2N_TLS11 cipher_preferences_test_all_tls13)
              \<lparr>server_protocol_version := S2N_TLS13, closed := True\<rparr>)) \<and>
   \<not> secure_renegotiation ((test_conn S2N_TLS11 cipher_preferences_test_all_tls13)
              \<lparr>server_protocol_version := S2N_TLS13, closed := True\<rparr>)"
proof -
  have a: "\<exists>i<2. theirs [0x56, 0x00, 0x00, 0xFF] i 2 = TLS_EMPTY_RENEGOTIATION_INFO_SCSV"
    by (rule exI[of _ 1]) (simp add: wire_eval)
  have b: "\<exists>i<2. theirs [0x56, 0x00, 0x00, 0xFF] i 2 = TLS_FALLBACK_SCSV"
    by (rule exI[of _ 0]) (simp add: wire_eval)
  have "s2n_wire_ciphers_contain TLS_FALLBACK_SCSV [0x56, 0x00, 0x00, 0xFF] 2 2 \<noteq> 0"
    using b by (simp only: contain_iff)
  then have c: "s2n_set_cipher_as_server test_env test_mem
     (Some ((test_conn S2N_TLS11 cipher_preferences_test_all_tls13)
              \<lparr>server_protocol_version := S2N_TLS13\<rparr>))
     [0x56, 0x00, 0x00, 0xFF] 2 2 =
   (Inl S2N_ERR_FALLBACK_DETECTED,
    Some ((test_conn S2N_TLS11 cipher_preferences_test_all_tls13)
              \<lparr>server_protocol_version := S2N_TLS13, closed := True\<rparr>))"
    by (simp add: s2n_set_cipher_as_server_def test_conn_def S2N_TLS11_def S2N_TLS13_def)
  have d: "\<not> secure_renegotiation ((test_conn S2N_TLS11 cipher_preferences_test_all_tls13)
              \<lparr>server_protocol_version := S2N_TLS13, closed := True\<rparr>)"
    by (simp add: test_conn_def)
  from a c d show ?thesis by blast
qed

section \<open>Verification: the binary search\<close>

lemma unat8_bound: "unat (x :: uint8_t) < 256"
  using unsigned_less[of x, where ?'a = nat] by simp

lemma memcmp2_pos: "0 < memcmp2 a b \<longleftrightarrow> code_nat b < code_nat a"
proof -
  have b: "unat (snd a) < 256" "unat (snd b) < 256" by (rule unat8_bound)+
  show ?thesis
    unfolding memcmp2_def code_nat_def word_less_nat_alt
    using b by (auto simp: not_less) 
qed

lemma memcmp2_neg: "memcmp2 a b < 0 \<longleftrightarrow> code_nat a < code_nat b"
proof -
  have b: "unat (snd a) < 256" "unat (snd b) < 256" by (rule unat8_bound)+
  show ?thesis
    unfolding memcmp2_def code_nat_def word_less_nat_alt
    using b by (auto simp: not_less)
qed

lemma ascending_nth:
  "ascending m all \<Longrightarrow> i < j \<Longrightarrow> j < length all \<Longrightarrow>
   code_nat (iana_value (m (all ! i))) < code_nat (iana_value (m (all ! j)))"
  unfolding ascending_def
  using sorted_wrt_nth_less[of "(<)" "map (\<lambda>p. code_nat (iana_value (m p))) all" i j]
  by simp

lemma from_iana_loop_found:
  "ascending m all \<Longrightarrow> k < length all \<Longrightarrow> iana_value (m (all ! k)) = iana \<Longrightarrow> low \<le> k \<Longrightarrow> int k \<le> top' \<Longrightarrow>
         top' < int (length all) \<Longrightarrow>
   s2n_cipher_suite_from_iana_loop m all iana low top' = Inr (all ! k)"
proof (induction m all iana low top' rule: s2n_cipher_suite_from_iana_loop.induct)
  case (1 m all iana low top')
  define mid where "mid = low + nat ((top' - int low) div 2)"
  from "1.prems" have lt: "int low \<le> top'" by simp
  have mid_lo: "low \<le> mid" by (simp add: mid_def)
  have mid_hi: "int mid \<le> top'" using lt unfolding mid_def by simp
  with "1.prems" have mid_len: "mid < length all" by simp
  have asc: "ascending m all" using "1.prems" by simp
  show ?case
  proof (cases "memcmp2 (iana_value (m (all ! mid))) iana = 0")
    case True
    then have "iana_value (m (all ! mid)) = iana_value (m (all ! k))"
      using "1.prems" by (simp add: memcmp2_eq_0)
    then have "mid = k"
      using ascending_nth[OF asc, of mid k] ascending_nth[OF asc, of k mid] mid_len "1.prems"(2)
      by (cases "mid < k"; cases "k < mid") auto
    with True lt show ?thesis
      by (subst s2n_cipher_suite_from_iana_loop.simps) (simp add: mid_def Let_def)
  next
    case nz: False
    show ?thesis
    proof (cases "0 < memcmp2 (iana_value (m (all ! mid))) iana")
      case True
      then have "code_nat (iana_value (m (all ! k))) < code_nat (iana_value (m (all ! mid)))"
        using "1.prems" by (simp add: memcmp2_pos)
      then have "k < mid"
        using ascending_nth[OF asc, of mid k] "1.prems"(2) by (cases "k < mid"; cases "k = mid") auto
      then have "int k \<le> int mid - 1" "int mid - 1 < int (length all)" using mid_len by auto
      from "1.IH"(1)[OF lt mid_def refl nz True "1.prems"(1,2,3,4) this]
      show ?thesis using lt nz True
        by (subst s2n_cipher_suite_from_iana_loop.simps) (simp add: mid_def Let_def)
    next
      case False
      with nz have "memcmp2 (iana_value (m (all ! mid))) iana < 0" by simp
      then have "code_nat (iana_value (m (all ! mid))) < code_nat (iana_value (m (all ! k)))"
        using "1.prems" by (simp add: memcmp2_neg)
      then have "mid < k"
        using ascending_nth[OF asc, of k mid] mid_len by (cases "mid < k"; cases "k = mid") auto
      then have "mid + 1 \<le> k" by simp
      from "1.IH"(2)[OF lt mid_def refl nz False "1.prems"(1,2,3) this "1.prems"(5,6)]
      show ?thesis using lt nz False
        by (subst s2n_cipher_suite_from_iana_loop.simps) (simp add: mid_def Let_def)
    qed
  qed
qed

lemma from_iana_loop_absent:
  "\<forall>k<length all. iana_value (m (all ! k)) \<noteq> iana \<Longrightarrow> top' < int (length all) \<Longrightarrow>
   s2n_cipher_suite_from_iana_loop m all iana low top' = Inl S2N_ERR_CIPHER_NOT_SUPPORTED"
proof (induction m all iana low top' rule: s2n_cipher_suite_from_iana_loop.induct)
  case (1 m all iana low top')
  show ?case
  proof (cases "int low \<le> top'")
    case False
    then show ?thesis by (subst s2n_cipher_suite_from_iana_loop.simps) simp
  next
    case lt: True
    define mid where "mid = low + nat ((top' - int low) div 2)"
    have mid_hi: "int mid \<le> top'" using lt unfolding mid_def by simp
    with "1.prems" have mid_len: "mid < length all" by simp
    with "1.prems" have nz: "memcmp2 (iana_value (m (all ! mid))) iana \<noteq> 0"
      by (simp add: memcmp2_eq_0)
    show ?thesis
    proof (cases "0 < memcmp2 (iana_value (m (all ! mid))) iana")
      case True
      have "int mid - 1 < int (length all)" using mid_len by simp
      from "1.IH"(1)[OF lt mid_def refl nz True "1.prems"(1) this]
      show ?thesis using lt nz True
        by (subst s2n_cipher_suite_from_iana_loop.simps) (simp add: mid_def Let_def)
    next
      case False
      from "1.IH"(2)[OF lt mid_def refl nz False "1.prems"]
      show ?thesis using lt nz False
        by (subst s2n_cipher_suite_from_iana_loop.simps) (simp add: mid_def Let_def)
    qed
  qed
qed


lemma catalog_codes:
  "map (\<lambda>p. code_nat (iana_value (static_mem p))) s2n_all_cipher_suites =
   [4, 5, 10, 22, 47, 51, 53, 57, 60, 61, 103, 107, 156, 157, 158, 159,
    4865, 4866, 4867,
    49161, 49162, 49169, 49170, 49171, 49172, 49187, 49188, 49191, 49192, 49195, 49196,
    49199, 49200, 52392, 52393, 52394, 65292]"
  by (simp add: s2n_all_cipher_suites_def static_mem_def code_nat_def)

lemma catalog_ascending:
  assumes "\<forall>x. iana_value (m (Global x)) = iana_value (static_initializer x)"
  shows "ascending m s2n_all_cipher_suites"
proof -
  have "map (\<lambda>p. code_nat (iana_value (m p))) s2n_all_cipher_suites =
        map (\<lambda>p. code_nat (iana_value (static_mem p))) s2n_all_cipher_suites"
    using assms by (simp add: s2n_all_cipher_suites_def static_mem_def)
  then show ?thesis unfolding ascending_def catalog_codes by simp
qed

text \<open>
  Claim C8. In every store in which the globals carry the IANA codes of their
  initializers (no function of the file writes \<open>iana_value\<close>, so these are the stores
  a process can reach), and for every two-byte code: if the code is the \<open>iana_value\<close>
  of an entry of the catalog, \<open>s2n_cipher_suite_from_iana\<close> returns that entry;
  if it is the code of no entry, the function fails with
  \<open>S2N_ERR_CIPHER_NOT_SUPPORTED\<close>. The proof rests on the catalog being strictly
  ascending (\<open>catalog_codes\<close>).
\<close>

theorem from_iana_correct:
  assumes "\<forall>x. iana_value (m (Global x)) = iana_value (static_initializer x)"
  shows "(\<forall>p\<in>set s2n_all_cipher_suites. iana_value (m p) = code \<longrightarrow>
            s2n_cipher_suite_from_iana m (Some code) = Inr p) \<and>
         ((\<forall>p\<in>set s2n_all_cipher_suites. iana_value (m p) \<noteq> code) \<longrightarrow>
            s2n_cipher_suite_from_iana m (Some code) = Inl S2N_ERR_CIPHER_NOT_SUPPORTED)"
proof (intro conjI ballI impI)
  fix p assume p: "p \<in> set s2n_all_cipher_suites" and c: "iana_value (m p) = code"
  from p obtain k where k: "k < length s2n_all_cipher_suites" "s2n_all_cipher_suites ! k = p"
    by (auto simp: in_set_conv_nth)
  from from_iana_loop_found[OF catalog_ascending[OF assms] k(1), of code 0
      "int (length s2n_all_cipher_suites) - 1"] k c
  show "s2n_cipher_suite_from_iana m (Some code) = Inr p"
    by (simp add: s2n_cipher_suite_from_iana_def)
next
  assume "\<forall>p\<in>set s2n_all_cipher_suites. iana_value (m p) \<noteq> code"
  then have "\<forall>k<length s2n_all_cipher_suites. iana_value (m (s2n_all_cipher_suites ! k)) \<noteq> code"
    by simp
  from from_iana_loop_absent[OF this, of "int (length s2n_all_cipher_suites) - 1" 0]
  show "s2n_cipher_suite_from_iana m (Some code) = Inl S2N_ERR_CIPHER_NOT_SUPPORTED"
    by (simp add: s2n_cipher_suite_from_iana_def)
qed

theorem from_iana_correct_witness:
  "s2n_cipher_suite_from_iana test_mem (Some (0x13, 0x02)) =
     Inr (Global s2n_tls13_aes_256_gcm_sha384) \<and>
   s2n_cipher_suite_from_iana test_mem (Some (0x56, 0x00)) = Inl S2N_ERR_CIPHER_NOT_SUPPORTED"
proof -
  have st: "\<forall>x. iana_value (test_mem (Global x)) = iana_value (static_initializer x)"
    by (simp add: test_mem_static)
  have a: "Global s2n_tls13_aes_256_gcm_sha384 \<in> set s2n_all_cipher_suites"
    by (simp add: s2n_all_cipher_suites_def)
  have b: "\<forall>p\<in>set s2n_all_cipher_suites. iana_value (test_mem p) \<noteq> (0x56, 0x00)"
    by (simp add: s2n_all_cipher_suites_def test_mem_static)
  from from_iana_correct[OF st, of "(0x13, 0x02)"] a
  have "s2n_cipher_suite_from_iana test_mem (Some (0x13, 0x02)) =
     Inr (Global s2n_tls13_aes_256_gcm_sha384)"
    by (simp add: test_mem_static)
  moreover from from_iana_correct[OF st, of "(0x56, 0x00)"] b
  have "s2n_cipher_suite_from_iana test_mem (Some (0x56, 0x00)) = Inl S2N_ERR_CIPHER_NOT_SUPPORTED"
    by blast
  ultimately show ?thesis by simp
qed

section \<open>Verification: the walk of the preference list\<close>

lemma loop_step:
  "s2n_get_negotiated_server_index_loop E m wire n len (p # ps) i g nci nsi nhi conn =
     (case examine E m wire n len conn p of
        (Delimiter, c') \<Rightarrow>
          if p = Global s2n_equal_preference_group_start
          then s2n_get_negotiated_server_index_loop E m wire n len ps (Suc i) True nci nsi nhi conn
          else if nsi \<noteq> - 1 then (Inl nsi, conn)
          else s2n_get_negotiated_server_index_loop E m wire n len ps (Suc i) False nci nsi nhi conn
      | (Unmatched, c') \<Rightarrow>
          s2n_get_negotiated_server_index_loop E m wire n len ps (Suc i) g nci nsi nhi c'
      | (Invalid, c') \<Rightarrow>
          s2n_get_negotiated_server_index_loop E m wire n len ps (Suc i) g nci nsi nhi c'
      | (TooNew, c') \<Rightarrow>
          s2n_get_negotiated_server_index_loop E m wire n len ps (Suc i) g nci nsi
            (if nhi = - 1 then int i else nhi) c'
      | (Usable j, c') \<Rightarrow>
          if g then
            (if j < nci
             then s2n_get_negotiated_server_index_loop E m wire n len ps (Suc i) g j (int i) nhi c'
             else s2n_get_negotiated_server_index_loop E m wire n len ps (Suc i) g nci nsi nhi c')
          else (Inr (int i, nhi), c'))"
  by (auto simp: examine_def is_delimiter_def Let_def split: prod.splits)

lemma verdicts_append:
  "verdicts E m wire n len (xs @ ys) conn =
   verdicts E m wire n len xs conn @ verdicts E m wire n len ys (conn_after E m wire n len xs conn)"
  by (induction xs arbitrary: conn) auto

lemma length_verdicts [simp]: "length (verdicts E m wire n len ps conn) = length ps"
  by (induction ps arbitrary: conn) auto

lemma examine_usable_range:
  "examine E m wire n len conn p = (Usable j, c') \<Longrightarrow> 0 \<le> j \<and> j < int n"
  using has_at_range[of "iana_value (m p)" wire n len]
  by (auto simp: examine_def Let_def split: if_splits prod.splits)

lemma examine_delimiter:
  "fst (examine E m wire n len conn p) = Delimiter \<longleftrightarrow> is_delimiter p"
  by (auto simp: examine_def Let_def split: if_splits prod.splits)

declare s2n_get_negotiated_server_index_loop.simps(2) [simp del]

lemma loop_skip:
  "\<forall>v\<in>set (verdicts E m wire n len pre conn). \<forall>j. v \<noteq> Usable j \<Longrightarrow>
   \<exists>nhi'. s2n_get_negotiated_server_index_loop E m wire n len (pre @ rest) i g nci (- 1) nhi conn =
          s2n_get_negotiated_server_index_loop E m wire n len rest (i + length pre)
            (in_group_after g pre) nci (- 1) nhi' (conn_after E m wire n len pre conn)"
proof (induction pre arbitrary: i g nhi conn)
  case Nil
  show ?case by auto
next
  case (Cons p pre)
  obtain v c' where ex: "examine E m wire n len conn p = (v, c')"
    by (cases "examine E m wire n len conn p")
  from Cons.prems ex have nu: "\<forall>j. v \<noteq> Usable j"
    and rest: "\<forall>v\<in>set (verdicts E m wire n len pre c'). \<forall>j. v \<noteq> Usable j" by auto
  have d: "v = Delimiter \<Longrightarrow> c' = conn \<and> is_delimiter p"
    using ex examine_delimiter[of E m wire n len conn p]
    by (auto simp: examine_def split: if_splits)
  have nd: "v \<noteq> Delimiter \<Longrightarrow> \<not> is_delimiter p"
    using ex examine_delimiter[of E m wire n len conn p] by auto
  show ?case
  proof (cases v)
    case Delimiter
    with d have c: "c' = conn" and dp: "is_delimiter p" by auto
    show ?thesis
    proof (cases "p = Global s2n_equal_preference_group_start")
      case True
      from Cons.IH[OF rest, of "Suc i" True nhi] c ex Delimiter True show ?thesis
        by (simp add: loop_step)
    next
      case False
      with dp have e: "p = Global s2n_equal_preference_group_end" by (simp add: is_delimiter_def)
      from Cons.IH[OF rest, of "Suc i" False nhi] c ex Delimiter e show ?thesis
        by (simp add: loop_step)
    qed
  next
    case Unmatched
    with nd have "\<not> is_delimiter p" by simp
    then have g: "(if p = Global s2n_equal_preference_group_start then True
        else if p = Global s2n_equal_preference_group_end then False else g) = g"
      by (auto simp: is_delimiter_def)
    from Cons.IH[OF rest, of "Suc i" g nhi] ex Unmatched g show ?thesis
      by (simp add: loop_step)
  next
    case Invalid
    with nd have "\<not> is_delimiter p" by simp
    then have g: "(if p = Global s2n_equal_preference_group_start then True
        else if p = Global s2n_equal_preference_group_end then False else g) = g"
      by (auto simp: is_delimiter_def)
    from Cons.IH[OF rest, of "Suc i" g nhi] ex Invalid g show ?thesis
      by (simp add: loop_step)
  next
    case TooNew
    with nd have "\<not> is_delimiter p" by simp
    then have g: "(if p = Global s2n_equal_preference_group_start then True
        else if p = Global s2n_equal_preference_group_end then False else g) = g"
      by (auto simp: is_delimiter_def)
    from Cons.IH[OF rest, of "Suc i" g "if nhi = - 1 then int i else nhi"] ex TooNew g
    show ?thesis by (simp add: loop_step)
  next
    case (Usable j)
    with nu show ?thesis by simp
  qed
qed

lemma loop_group_no_improve:
  "\<forall>p\<in>set grp. \<not> is_delimiter p \<Longrightarrow>
   \<forall>v\<in>set (verdicts E m wire n len grp conn). \<forall>j. v = Usable j \<longrightarrow> nci \<le> j \<Longrightarrow>
   \<exists>nhi'. s2n_get_negotiated_server_index_loop E m wire n len (grp @ rest) i True nci nsi nhi conn =
          s2n_get_negotiated_server_index_loop E m wire n len rest (i + length grp)
            True nci nsi nhi' (conn_after E m wire n len grp conn)"
proof (induction grp arbitrary: i nhi conn)
  case Nil
  show ?case by auto
next
  case (Cons p grp)
  obtain v c' where ex: "examine E m wire n len conn p = (v, c')"
    by (cases "examine E m wire n len conn p")
  from Cons.prems ex have nd: "\<forall>p\<in>set grp. \<not> is_delimiter p"
    and v: "\<forall>j. v = Usable j \<longrightarrow> nci \<le> j"
    and rest: "\<forall>v\<in>set (verdicts E m wire n len grp c'). \<forall>j. v = Usable j \<longrightarrow> nci \<le> j"
    and ndp: "\<not> is_delimiter p"
    by auto
  from ndp ex have vd: "v \<noteq> Delimiter" using examine_delimiter[of E m wire n len conn p] by auto
  show ?case
  proof (cases v)
    case Delimiter
    with vd show ?thesis by simp
  next
    case Unmatched
    from Cons.IH[OF nd rest, of "Suc i" nhi] ex Unmatched show ?thesis by (simp add: loop_step)
  next
    case Invalid
    from Cons.IH[OF nd rest, of "Suc i" nhi] ex Invalid show ?thesis by (simp add: loop_step)
  next
    case TooNew
    from Cons.IH[OF nd rest, of "Suc i" "if nhi = - 1 then int i else nhi"] ex TooNew
    show ?thesis by (simp add: loop_step)
  next
    case (Usable j)
    with v have "\<not> j < nci" by auto
    with Cons.IH[OF nd rest, of "Suc i" nhi] ex Usable show ?thesis by (simp add: loop_step)
  qed
qed

lemma loop_group_winner:
  "\<forall>p\<in>set grp. \<not> is_delimiter p \<Longrightarrow> k < length grp \<Longrightarrow>
   verdicts E m wire n len grp conn ! k = Usable j \<Longrightarrow> j < nci \<Longrightarrow>
   \<forall>l<length grp. \<forall>j'. verdicts E m wire n len grp conn ! l = Usable j' \<longrightarrow>
      j < j' \<or> (j = j' \<and> k \<le> l) \<Longrightarrow>
   \<exists>nhi'. s2n_get_negotiated_server_index_loop E m wire n len (grp @ rest) i True nci nsi nhi conn =
          s2n_get_negotiated_server_index_loop E m wire n len rest (i + length grp)
            True j (int (i + k)) nhi' (conn_after E m wire n len grp conn)"
proof (induction grp arbitrary: i k nci nsi nhi conn)
  case Nil
  then show ?case by simp
next
  case (Cons p grp)
  obtain v c' where ex: "examine E m wire n len conn p = (v, c')"
    by (cases "examine E m wire n len conn p")
  from Cons.prems(1) have nd: "\<forall>p\<in>set grp. \<not> is_delimiter p" and ndp: "\<not> is_delimiter p"
    by auto
  from ndp ex have vd: "v \<noteq> Delimiter" using examine_delimiter[of E m wire n len conn p] by auto
  let ?vs = "verdicts E m wire n len grp c'"
  have min: "\<forall>l<Suc (length grp). \<forall>j'. (v # ?vs) ! l = Usable j' \<longrightarrow> j < j' \<or> (j = j' \<and> k \<le> l)"
    using Cons.prems(5) ex by simp
  have kth: "(v # ?vs) ! k = Usable j" using Cons.prems(3) ex by simp
  show ?case
  proof (cases k)
    case 0
    with kth have v: "v = Usable j" by simp
    have "\<forall>w\<in>set ?vs. \<forall>j'. w = Usable j' \<longrightarrow> j \<le> j'"
    proof (intro ballI allI impI)
      fix w j' assume "w \<in> set ?vs" "w = Usable j'"
      then obtain l where "l < length grp" "?vs ! l = Usable j'"
        by (auto simp: in_set_conv_nth)
      with min[rule_format, of "Suc l" j'] show "j \<le> j'" by auto
    qed
    from loop_group_no_improve[OF nd this, of rest "Suc i" "int i" nhi]
    show ?thesis using ex v 0 Cons.prems(4) by (simp add: loop_step)
  next
    case (Suc k')
    have k': "k' < length grp" using Cons.prems(2) Suc by simp
    have kth': "?vs ! k' = Usable j" using kth Suc by simp
    have min': "\<forall>l<length grp. \<forall>j'. ?vs ! l = Usable j' \<longrightarrow> j < j' \<or> (j = j' \<and> k' \<le> l)"
    proof (intro allI impI)
      fix l j' assume "l < length grp" "?vs ! l = Usable j'"
      with min[rule_format, of "Suc l" j'] Suc show "j < j' \<or> (j = j' \<and> k' \<le> l)" by auto
    qed
    show ?thesis
    proof (cases v)
      case Delimiter
      with vd show ?thesis by simp
    next
      case Unmatched
      from Cons.IH[OF nd k' kth' Cons.prems(4) min', of "Suc i" nsi nhi] ex Unmatched Suc
      show ?thesis by (simp add: loop_step)
    next
      case Invalid
      from Cons.IH[OF nd k' kth' Cons.prems(4) min', of "Suc i" nsi nhi] ex Invalid Suc
      show ?thesis by (simp add: loop_step)
    next
      case TooNew
      from Cons.IH[OF nd k' kth' Cons.prems(4) min', of "Suc i" nsi
          "if nhi = - 1 then int i else nhi"] ex TooNew Suc
      show ?thesis by (simp add: loop_step)
    next
      case (Usable j0)
      from min[rule_format, of 0 j0] Usable Suc have jj0: "j < j0" by simp
      show ?thesis
      proof (cases "j0 < nci")
        case True
        from Cons.IH[OF nd k' kth' jj0 min', of "Suc i" "int i" nhi] ex Usable Suc True
        show ?thesis by (simp add: loop_step)
      next
        case False
        from Cons.IH[OF nd k' kth' Cons.prems(4) min', of "Suc i" nsi nhi] ex Usable Suc False
        show ?thesis by (simp add: loop_step)
      qed
    qed
  qed
qed

lemma examine_at_delimiter:
  "is_delimiter p \<Longrightarrow> examine E m wire n len conn p = (Delimiter, conn)"
  by (simp add: examine_def)

lemma conn_after_append:
  "conn_after E m wire n len (xs @ ys) conn =
   conn_after E m wire n len ys (conn_after E m wire n len xs conn)"
  by (induction xs arbitrary: conn) auto

lemma verdicts_nth:
  "k < length ps \<Longrightarrow>
   verdicts E m wire n len ps conn ! k =
     fst (examine E m wire n len (conn_after E m wire n len (take k ps) conn) (ps ! k))"
proof (induction ps arbitrary: k conn)
  case Nil
  then show ?case by simp
next
  case (Cons p ps)
  then show ?case by (cases k) auto
qed

lemma verdicts_usable_range:
  assumes "k < length ps" and "verdicts E m wire n len ps conn ! k = Usable j"
  shows "0 \<le> j \<and> j < int n"
proof -
  let ?c = "conn_after E m wire n len (take k ps) conn"
  obtain c' where "examine E m wire n len ?c (ps ! k) = (Usable j, c')"
    using assms verdicts_nth[OF assms(1), of E m wire n len conn]
    by (cases "examine E m wire n len ?c (ps ! k)") auto
  then show ?thesis by (rule examine_usable_range)
qed

lemma negotiated_index_unfold:
  assumes "security_policy conn = Some sp"
    and "take (count (cipher_preferences sp)) (suites (cipher_preferences sp)) = prefs"
  shows "fst (s2n_get_negotiated_server_index E m conn wire n len) =
     (case fst (s2n_get_negotiated_server_index_loop E m wire n len prefs 0 False (int n)
                  (- 1) (- 1) conn) of
        Inl r \<Rightarrow> r
      | Inr (nsi, nhi) \<Rightarrow> if nsi = - 1 \<and> nhi \<noteq> - 1 then nhi else nsi)"
  using assms
  by (auto simp: s2n_get_negotiated_server_index_def s2n_connection_get_security_policy_def
      split: prod.splits sum.splits)

lemma selection_outside_group:
  assumes pol: "security_policy conn = Some sp"
    and prefs: "take (count (cipher_preferences sp)) (suites (cipher_preferences sp)) = pre @ p # post"
    and out: "\<not> in_group_after False pre"
    and none: "\<forall>i<length pre. \<forall>j'. verdicts E m wire n len (pre @ p # post) conn ! i \<noteq> Usable j'"
    and first: "verdicts E m wire n len (pre @ p # post) conn ! length pre = Usable j"
  shows "fst (s2n_get_negotiated_server_index E m conn wire n len) = int (length pre)"
proof -
  let ?c1 = "conn_after E m wire n len pre conn"
  have none': "\<forall>v\<in>set (verdicts E m wire n len pre conn). \<forall>j. v \<noteq> Usable j"
  proof (intro ballI allI)
    fix v j' assume "v \<in> set (verdicts E m wire n len pre conn)"
    then obtain i where i: "i < length pre" "verdicts E m wire n len pre conn ! i = v"
      by (auto simp: in_set_conv_nth)
    with none[rule_format, of i j'] show "v \<noteq> Usable j'"
      by (simp add: verdicts_append nth_append)
  qed
  from first obtain c' where ex: "examine E m wire n len ?c1 p = (Usable j, c')"
    by (cases "examine E m wire n len ?c1 p") (simp add: verdicts_append nth_append)
  from loop_skip[OF none', of "p # post" 0 False "int n" "- 1"] obtain nhi' where
    "s2n_get_negotiated_server_index_loop E m wire n len (pre @ p # post) 0 False (int n)
       (- 1) (- 1) conn =
     s2n_get_negotiated_server_index_loop E m wire n len (p # post) (length pre)
       (in_group_after False pre) (int n) (- 1) nhi' ?c1"
    by auto
  with out ex have "fst (s2n_get_negotiated_server_index_loop E m wire n len (pre @ p # post) 0
      False (int n) (- 1) (- 1) conn) = Inr (int (length pre), nhi')"
    by (simp add: loop_step)
  with negotiated_index_unfold[OF pol prefs, of E m wire n] show ?thesis by simp
qed

lemma selection_inside_group:
  assumes pol: "security_policy conn = Some sp"
    and prefs: "take (count (cipher_preferences sp)) (suites (cipher_preferences sp)) =
        pre @ Global s2n_equal_preference_group_start # grp @
          Global s2n_equal_preference_group_end # post"
    and members: "\<forall>p\<in>set grp. \<not> is_delimiter p"
    and none: "\<forall>i<length pre. \<forall>j'.
        verdicts E m wire n len (pre @ Global s2n_equal_preference_group_start # grp @
          Global s2n_equal_preference_group_end # post) conn ! i \<noteq> Usable j'"
    and k: "k < length grp"
    and winner: "verdicts E m wire n len (pre @ Global s2n_equal_preference_group_start # grp @
          Global s2n_equal_preference_group_end # post) conn ! (length pre + 1 + k) = Usable j"
    and least: "\<forall>l<length grp. \<forall>j'.
        verdicts E m wire n len (pre @ Global s2n_equal_preference_group_start # grp @
          Global s2n_equal_preference_group_end # post) conn ! (length pre + 1 + l) = Usable j'
        \<longrightarrow> j < j' \<or> (j = j' \<and> k \<le> l)"
  shows "fst (s2n_get_negotiated_server_index E m conn wire n len) = int (length pre + 1 + k)"
proof -
  let ?s = "Global s2n_equal_preference_group_start"
  let ?e = "Global s2n_equal_preference_group_end"
  let ?c1 = "conn_after E m wire n len pre conn"
  let ?c2 = "conn_after E m wire n len grp ?c1"
  have ds: "is_delimiter ?s" and de: "is_delimiter ?e" by (simp_all add: is_delimiter_def)
  have split: "\<And>l. l < length grp \<Longrightarrow>
      verdicts E m wire n len (pre @ ?s # grp @ ?e # post) conn ! (length pre + 1 + l) =
      verdicts E m wire n len grp ?c1 ! l"
    by (simp add: verdicts_append nth_append examine_at_delimiter[OF ds])
  have none': "\<forall>v\<in>set (verdicts E m wire n len pre conn). \<forall>j. v \<noteq> Usable j"
  proof (intro ballI allI)
    fix v j' assume "v \<in> set (verdicts E m wire n len pre conn)"
    then obtain i where i: "i < length pre" "verdicts E m wire n len pre conn ! i = v"
      by (auto simp: in_set_conv_nth)
    with none[rule_format, of i j'] show "v \<noteq> Usable j'"
      by (simp add: verdicts_append nth_append)
  qed
  have w: "verdicts E m wire n len grp ?c1 ! k = Usable j" using winner split[OF k] by simp
  have l: "\<forall>l<length grp. \<forall>j'. verdicts E m wire n len grp ?c1 ! l = Usable j' \<longrightarrow>
      j < j' \<or> (j = j' \<and> k \<le> l)"
    using least split by simp
  from verdicts_usable_range[OF k w] have jn: "j < int n" by simp
  from loop_skip[OF none', of "?s # grp @ ?e # post" 0 False "int n" "- 1"] obtain nhi1 where
    s1: "s2n_get_negotiated_server_index_loop E m wire n len (pre @ ?s # grp @ ?e # post) 0 False
       (int n) (- 1) (- 1) conn =
     s2n_get_negotiated_server_index_loop E m wire n len (?s # grp @ ?e # post) (length pre)
       (in_group_after False pre) (int n) (- 1) nhi1 ?c1"
    by auto
  have s2: "s2n_get_negotiated_server_index_loop E m wire n len (?s # grp @ ?e # post) (length pre)
       (in_group_after False pre) (int n) (- 1) nhi1 ?c1 =
     s2n_get_negotiated_server_index_loop E m wire n len (grp @ ?e # post) (Suc (length pre))
       True (int n) (- 1) nhi1 ?c1"
    by (simp add: loop_step examine_at_delimiter[OF ds])
  from loop_group_winner[OF members k w jn l, of "?e # post" "Suc (length pre)" "- 1" nhi1]
  obtain nhi2 where
    s3: "s2n_get_negotiated_server_index_loop E m wire n len (grp @ ?e # post) (Suc (length pre))
       True (int n) (- 1) nhi1 ?c1 =
     s2n_get_negotiated_server_index_loop E m wire n len (?e # post)
       (Suc (length pre) + length grp) True j (int (Suc (length pre) + k)) nhi2 ?c2"
    by auto
  have s4: "s2n_get_negotiated_server_index_loop E m wire n len (?e # post)
       (Suc (length pre) + length grp) True j (int (Suc (length pre) + k)) nhi2 ?c2 =
     (Inl (int (Suc (length pre) + k)), ?c2)"
    by (simp add: loop_step examine_at_delimiter[OF de])
  from s1 s2 s3 s4 have "fst (s2n_get_negotiated_server_index_loop E m wire n len
      (pre @ ?s # grp @ ?e # post) 0 False (int n) (- 1) (- 1) conn) =
      Inl (int (Suc (length pre) + k))" by simp
  with negotiated_index_unfold[OF pol prefs, of E m wire n] show ?thesis by simp
qed

lemma loop_none_usable:
  "\<forall>v\<in>set (verdicts E m wire n len ps conn). \<forall>j. v \<noteq> Usable j \<Longrightarrow>
   fst (s2n_get_negotiated_server_index_loop E m wire n len ps i g nci (- 1) nhi conn) =
     Inr (- 1,
          if nhi \<noteq> - 1 then nhi
          else if TooNew \<in> set (verdicts E m wire n len ps conn)
          then int (i + length (takeWhile (\<lambda>v. v \<noteq> TooNew) (verdicts E m wire n len ps conn)))
          else - 1)"
proof (induction ps arbitrary: i g nhi conn)
  case Nil
  show ?case by simp
next
  case (Cons p ps)
  obtain v c' where ex: "examine E m wire n len conn p = (v, c')"
    by (cases "examine E m wire n len conn p")
  from Cons.prems ex have nu: "\<forall>j. v \<noteq> Usable j"
    and rest: "\<forall>v\<in>set (verdicts E m wire n len ps c'). \<forall>j. v \<noteq> Usable j" by auto
  have d: "v = Delimiter \<Longrightarrow> c' = conn"
    using ex by (auto simp: examine_def Let_def split: if_splits prod.splits)
  show ?case
  proof (cases v)
    case Delimiter
    with d have c: "c' = conn" by simp
    from Cons.IH[OF rest, of "Suc i" True nhi] Cons.IH[OF rest, of "Suc i" False nhi]
      c ex Delimiter show ?thesis by (simp add: loop_step)
  next
    case Unmatched
    from Cons.IH[OF rest, of "Suc i" g nhi] ex Unmatched show ?thesis by (simp add: loop_step)
  next
    case Invalid
    from Cons.IH[OF rest, of "Suc i" g nhi] ex Invalid show ?thesis by (simp add: loop_step)
  next
    case TooNew
    from Cons.IH[OF rest, of "Suc i" g "if nhi = - 1 then int i else nhi"] ex TooNew
    show ?thesis by (simp add: loop_step)
  next
    case (Usable j)
    with nu show ?thesis by simp
  qed
qed

lemma first_too_new:
  assumes "k < length vs" and "vs ! k = TooNew" and "\<forall>i<k. vs ! i \<noteq> TooNew"
  shows "TooNew \<in> set vs \<and> length (takeWhile (\<lambda>v. v \<noteq> TooNew) vs) = k"
proof -
  have "takeWhile (\<lambda>v. v \<noteq> TooNew) vs = take k vs"
    using assms by (intro takeWhile_eq_take_P_nth) auto
  with assms show ?thesis by (auto simp: in_set_conv_nth)
qed

lemma fallback_index:
  assumes pol: "security_policy conn = Some sp"
    and prefs: "take (count (cipher_preferences sp)) (suites (cipher_preferences sp)) = prefs"
    and none: "\<forall>v\<in>set (verdicts E m wire n len prefs conn). \<forall>j. v \<noteq> Usable j"
    and k: "k < length prefs"
    and kth: "verdicts E m wire n len prefs conn ! k = TooNew"
    and first: "\<forall>i<k. verdicts E m wire n len prefs conn ! i \<noteq> TooNew"
  shows "fst (s2n_get_negotiated_server_index E m conn wire n len) = int k"
proof -
  from first_too_new[of k "verdicts E m wire n len prefs conn"] k kth first
  have "TooNew \<in> set (verdicts E m wire n len prefs conn)"
    "length (takeWhile (\<lambda>v. v \<noteq> TooNew) (verdicts E m wire n len prefs conn)) = k" by auto
  with loop_none_usable[OF none, of 0 False "int n" "- 1"]
  have "fst (s2n_get_negotiated_server_index_loop E m wire n len prefs 0 False (int n) (- 1) (- 1)
      conn) = Inr (- 1, int k)" by simp
  with negotiated_index_unfold[OF pol prefs, of E m wire n] show ?thesis by simp
qed

text \<open>The TLS 1.3 partition rejects a suite before anything else is looked at.\<close>

lemma examine_partition:
  assumes "actual_protocol_version conn < S2N_TLS13"
    and "S2N_TLS13 \<le> minimum_required_tls_version (m p)"
  shows "snd (examine E m wire n len conn p) = conn \<and>
         fst (examine E m wire n len conn p) \<in> {Delimiter, Unmatched, Invalid}"
  using assms
  by (auto simp: examine_def Let_def s2n_cipher_suite_match_is_valid_def)

lemma verdicts_partition:
  assumes "actual_protocol_version conn < S2N_TLS13"
    and "\<forall>p\<in>set ps. \<not> is_delimiter p \<longrightarrow> S2N_TLS13 \<le> minimum_required_tls_version (m p)"
  shows "set (verdicts E m wire n len ps conn) \<subseteq> {Delimiter, Unmatched, Invalid}"
  using assms(2)
proof (induction ps)
  case Nil
  show ?case by simp
next
  case (Cons p ps)
  have "snd (examine E m wire n len conn p) = conn \<and>
         fst (examine E m wire n len conn p) \<in> {Delimiter, Unmatched, Invalid}"
  proof (cases "is_delimiter p")
    case True
    then show ?thesis by (simp add: examine_at_delimiter)
  next
    case False
    with Cons.prems have "S2N_TLS13 \<le> minimum_required_tls_version (m p)" by simp
    with assms(1) show ?thesis by (intro examine_partition) auto
  qed
  with Cons show ?case by auto
qed

lemma partition_index:
  assumes pol: "security_policy conn = Some sp"
    and old: "actual_protocol_version conn < S2N_TLS13"
    and new: "\<forall>p\<in>set (take (count (cipher_preferences sp)) (suites (cipher_preferences sp))).
               \<not> is_delimiter p \<longrightarrow> S2N_TLS13 \<le> minimum_required_tls_version (m p)"
  shows "s2n_get_negotiated_server_index E m conn wire n len = (- 1, conn) \<or>
         fst (s2n_get_negotiated_server_index E m conn wire n len) = - 1"
proof -
  let ?prefs = "take (count (cipher_preferences sp)) (suites (cipher_preferences sp))"
  from verdicts_partition[OF old new, of E wire n len]
  have sub: "set (verdicts E m wire n len ?prefs conn) \<subseteq> {Delimiter, Unmatched, Invalid}" .
  then have none: "\<forall>v\<in>set (verdicts E m wire n len ?prefs conn). \<forall>j. v \<noteq> Usable j"
    and nt: "TooNew \<notin> set (verdicts E m wire n len ?prefs conn)" by auto
  from loop_none_usable[OF none, of 0 False "int n" "- 1"] nt
  have "fst (s2n_get_negotiated_server_index_loop E m wire n len ?prefs 0 False (int n) (- 1)
      (- 1) conn) = Inr (- 1, - 1)" by simp
  with negotiated_index_unfold[OF pol refl, of E m wire n] show ?thesis by simp
qed

text \<open>
  Claim C2. Higher-version fallback. When the walk finds no entry that is matched, valid
  and usable at the connection's version (no verdict is \<open>Usable\<close>) but finds a matched
  and valid entry whose minimum version exceeds the connection's (a verdict \<open>TooNew\<close>),
  \<open>s2n_get_negotiated_server_index\<close> returns the index of the earliest such entry.
  An entry rejected by the TLS 1.3 partition check is \<open>Invalid\<close>, never \<open>TooNew\<close>: on a
  connection below TLS 1.3 whose server list holds only TLS 1.3 suites the index is
  \<open>-1\<close>, and server-side selection (when downgrade detection does not end the call
  first) fails with \<open>S2N_ERR_CIPHER_NOT_SUPPORTED\<close>.
\<close>

theorem higher_version_fallback:
  assumes pol: "security_policy conn = Some sp"
    and prefs: "take (count (cipher_preferences sp)) (suites (cipher_preferences sp)) = prefs"
  shows "((\<forall>v\<in>set (verdicts E m wire n len prefs conn). \<forall>j. v \<noteq> Usable j) \<and>
          k < length prefs \<and> verdicts E m wire n len prefs conn ! k = TooNew \<and>
          (\<forall>i<k. verdicts E m wire n len prefs conn ! i \<noteq> TooNew) \<longrightarrow>
            fst (s2n_get_negotiated_server_index E m conn wire n len) = int k) \<and>
         (actual_protocol_version conn < S2N_TLS13 \<and>
          (\<forall>p\<in>set prefs. \<not> is_delimiter p \<longrightarrow>
             S2N_TLS13 \<le> minimum_required_tls_version (m p)) \<longrightarrow>
            fst (s2n_get_negotiated_server_index E m conn wire n len) = - 1 \<and>
            (\<forall>sec. secure conn = Some sec \<and>
               \<not> (client_protocol_version conn < server_protocol_version conn \<and>
                  (\<exists>i<n. theirs wire i len = TLS_FALLBACK_SCSV)) \<longrightarrow>
               fst (s2n_set_cipher_as_server E m (Some conn) wire n len) =
                 Inl S2N_ERR_CIPHER_NOT_SUPPORTED))"
proof (intro conjI impI allI)
  assume "(\<forall>v\<in>set (verdicts E m wire n len prefs conn). \<forall>j. v \<noteq> Usable j) \<and>
          k < length prefs \<and> verdicts E m wire n len prefs conn ! k = TooNew \<and>
          (\<forall>i<k. verdicts E m wire n len prefs conn ! i \<noteq> TooNew)"
  with fallback_index[OF pol prefs, of E m wire n len k]
  show "fst (s2n_get_negotiated_server_index E m conn wire n len) = int k" by blast
next
  assume a: "actual_protocol_version conn < S2N_TLS13 \<and>
          (\<forall>p\<in>set prefs. \<not> is_delimiter p \<longrightarrow> S2N_TLS13 \<le> minimum_required_tls_version (m p))"
  with partition_index[OF pol, of m E wire n len] prefs
  show "fst (s2n_get_negotiated_server_index E m conn wire n len) = - 1" by auto
next
  fix sec
  assume a: "actual_protocol_version conn < S2N_TLS13 \<and>
          (\<forall>p\<in>set prefs. \<not> is_delimiter p \<longrightarrow> S2N_TLS13 \<le> minimum_required_tls_version (m p))"
    and b: "secure conn = Some sec \<and>
               \<not> (client_protocol_version conn < server_protocol_version conn \<and>
                  (\<exists>i<n. theirs wire i len = TLS_FALLBACK_SCSV))"
  have nofb: "\<not> (client_protocol_version conn < server_protocol_version conn \<and>
      s2n_wire_ciphers_contain TLS_FALLBACK_SCSV wire n len \<noteq> 0)"
    using b by (simp add: contain_iff)
  have idx: "fst (s2n_get_negotiated_server_index E m c1 wire n len) = - 1"
    if "c1 = conn\<lparr>secure_renegotiation := True\<rparr> \<or> c1 = conn" for c1
  proof -
    from that pol a have "security_policy c1 = Some sp" "actual_protocol_version c1 < S2N_TLS13"
      by auto
    from partition_index[OF this, of m E wire n len] a prefs show ?thesis by auto
  qed
  show "fst (s2n_set_cipher_as_server E m (Some conn) wire n len) =
      Inl S2N_ERR_CIPHER_NOT_SUPPORTED"
  proof (cases "s2n_wire_ciphers_contain TLS_EMPTY_RENEGOTIATION_INFO_SCSV wire n len \<noteq> 0")
    case True
    with b nofb pol idx[of "conn\<lparr>secure_renegotiation := True\<rparr>"] show ?thesis
      by (auto simp: s2n_set_cipher_as_server_def Let_def s2n_connection_get_security_policy_def
          split: prod.splits)
  next
    case False
    with b nofb pol idx[of conn] show ?thesis
      by (auto simp: s2n_set_cipher_as_server_def Let_def s2n_connection_get_security_policy_def
          split: prod.splits)
  qed
qed

section \<open>Verification: concrete runs of the walk\<close>

lemma fixture_available:
  "available (test_mem (Global s2n_ecdhe_rsa_with_aes_128_gcm_sha256))"
  "available (test_mem (Global s2n_ecdhe_rsa_with_aes_256_gcm_sha384))"
  "available (test_mem (Global s2n_rsa_with_aes_128_cbc_sha256))"
  "available (test_mem (Global s2n_rsa_with_aes_128_cbc_sha))"
  "available (test_mem (Global s2n_rsa_with_rc4_128_md5))"
  by (simp_all add: test_mem_available s2n_all_cipher_suites_def selectable_def test_env_def
      s2n_kex_includes_model_def)

lemmas has_at_eval = s2n_wire_ciphers_has_server_cipher_at_def
  s2n_wire_ciphers_has_server_cipher_at_loop.simps theirs_def S2N_TLS_CIPHER_SUITE_LEN_def
  memcmp2_def test_mem_static

lemmas examine_eval = examine_def is_delimiter_def Let_def has_at_eval
  s2n_cipher_suite_match_is_valid_def test_env_def test_conn_def
  S2N_SSLv3_def S2N_TLS10_def S2N_TLS11_def S2N_TLS12_def S2N_TLS13_def
  tls13_available fixture_available

lemma verdicts_equal_preference_tls13:
  "verdicts test_env test_mem [0x13, 0x03, 0x13, 0x02, 0x13, 0x01] 3 2
     (suites cipher_preferences_test_all_equal_preference_tls13)
     (test_conn S2N_TLS13 cipher_preferences_test_all_equal_preference_tls13) =
   [Delimiter, Usable 2, Usable 1, Usable 0, Delimiter]"
  by (simp add: cipher_preferences_test_all_equal_preference_tls13_def examine_eval)

lemma verdicts_ecdhe_gcm:
  "verdicts test_env test_mem [0xC0, 0x30, 0xC0, 0x2F] 2 2
     (suites cipher_preferences_ecdhe_gcm)
     (test_conn S2N_TLS12 cipher_preferences_ecdhe_gcm) =
   [Usable 1, Usable 0]"
  by (simp add: cipher_preferences_ecdhe_gcm_def examine_eval)

lemma verdicts_sha256_first_one_offer:
  "verdicts test_env test_mem [0x00, 0x3C] 1 2
     (suites cipher_preferences_sha256_first)
     (test_conn S2N_TLS10 cipher_preferences_sha256_first) =
   [TooNew, Unmatched]"
  by (simp add: cipher_preferences_sha256_first_def examine_eval)

lemma verdicts_sha256_first_two_offers:
  "verdicts test_env test_mem [0x00, 0x3C, 0x00, 0x2F] 2 2
     (suites cipher_preferences_sha256_first)
     (test_conn S2N_TLS10 cipher_preferences_sha256_first) =
   [TooNew, Usable 1]"
  by (simp add: cipher_preferences_sha256_first_def examine_eval)

section \<open>Verification: group semantics and the higher-version fallback\<close>

lemma conn_after_frame:
  "\<exists>k. conn_after E m wire n len ps conn = conn\<lparr>kex_params := k\<rparr>"
proof (induction ps arbitrary: conn)
  case Nil
  show ?case by (auto intro: exI[of _ "kex_params conn"])
next
  case (Cons p ps)
  have "\<exists>k. snd (examine E m wire n len conn p) = conn\<lparr>kex_params := k\<rparr>"
    using match_is_valid_frame[of E conn "m p"]
    by (auto simp: examine_def Let_def split: prod.splits intro: exI[of _ "kex_params conn"])
  then obtain k1 where k1: "snd (examine E m wire n len conn p) = conn\<lparr>kex_params := k1\<rparr>"
    by blast
  from Cons.IH[of "conn\<lparr>kex_params := k1\<rparr>"] k1 show ?case by auto
qed

lemma examine_usable_iff:
  "fst (examine E m wire n len conn p) = Usable j \<longleftrightarrow>
   \<not> is_delimiter p \<and> 0 \<le> j \<and> nat j < n \<and>
   theirs wire (nat j) len = iana_value (m p) \<and>
   (\<forall>i<nat j. theirs wire i len \<noteq> iana_value (m p)) \<and>
   fst (s2n_cipher_suite_match_is_valid E conn (m p)) \<and>
   minimum_required_tls_version (m p) \<le> actual_protocol_version conn"
proof -
  obtain v c' where v: "s2n_cipher_suite_match_is_valid E conn (m p) = (v, c')"
    by (cases "s2n_cipher_suite_match_is_valid E conn (m p)")
  from match_is_valid_frame[of E conn "m p"] v
  have ver: "actual_protocol_version c' = actual_protocol_version conn" by auto
  let ?h = "s2n_wire_ciphers_has_server_cipher_at (iana_value (m p)) wire n len"
  have pos: "0 \<le> j \<Longrightarrow> (?h = j) \<longleftrightarrow>
      (nat j < n \<and> theirs wire (nat j) len = iana_value (m p) \<and>
       (\<forall>i<nat j. theirs wire i len \<noteq> iana_value (m p)))"
    using has_at_first[of "iana_value (m p)" wire n len "nat j"] by simp
  show ?thesis
  proof (cases "0 \<le> j")
    case True
    from pos[OF True] v ver True show ?thesis
      by (auto simp: examine_def Let_def not_less)
  next
    case False
    with has_at_range[of "iana_value (m p)" wire n len] v show ?thesis
      by (auto simp: examine_def Let_def)
  qed
qed

lemma verdicts_usable_iff:
  assumes "i < length ps"
  shows "verdicts E m wire n len ps conn ! i = Usable j \<longleftrightarrow>
   \<not> is_delimiter (ps ! i) \<and> 0 \<le> j \<and> nat j < n \<and>
   theirs wire (nat j) len = iana_value (m (ps ! i)) \<and>
   (\<forall>i'<nat j. theirs wire i' len \<noteq> iana_value (m (ps ! i))) \<and>
   fst (s2n_cipher_suite_match_is_valid E (conn_after E m wire n len (take i ps) conn)
          (m (ps ! i))) \<and>
   minimum_required_tls_version (m (ps ! i)) \<le> actual_protocol_version conn"
proof -
  from conn_after_frame[of E m wire n len "take i ps" conn]
  have "actual_protocol_version (conn_after E m wire n len (take i ps) conn) =
        actual_protocol_version conn" by auto
  with examine_usable_iff[of E m wire n len "conn_after E m wire n len (take i ps) conn"
      "ps ! i" j] verdicts_nth[OF assms, of E m wire n len conn]
  show ?thesis by simp
qed

lemma in_group_split:
  "in_group_after g xs \<Longrightarrow>
   (g \<and> (\<forall>p\<in>set xs. \<not> is_delimiter p)) \<or>
   (\<exists>pre grp. xs = pre @ Global s2n_equal_preference_group_start # grp \<and>
      (\<forall>p\<in>set grp. \<not> is_delimiter p))"
proof (induction xs arbitrary: g)
  case Nil
  then show ?case by simp
next
  case (Cons p ps)
  let ?g = "if p = Global s2n_equal_preference_group_start then True
            else if p = Global s2n_equal_preference_group_end then False else g"
  from Cons.prems have "in_group_after ?g ps" by simp
  from Cons.IH[OF this] show ?case
  proof
    assume a: "?g \<and> (\<forall>p\<in>set ps. \<not> is_delimiter p)"
    show ?thesis
    proof (cases "p = Global s2n_equal_preference_group_start")
      case True
      with a have "p # ps = [] @ Global s2n_equal_preference_group_start # ps \<and>
          (\<forall>p\<in>set ps. \<not> is_delimiter p)" by simp
      then show ?thesis by blast
    next
      case False
      with a have "g \<and> (\<forall>q\<in>set (p # ps). \<not> is_delimiter q)"
        by (auto simp: is_delimiter_def split: if_splits)
      then show ?thesis by blast
    qed
  next
    assume "\<exists>pre grp. ps = pre @ Global s2n_equal_preference_group_start # grp \<and>
      (\<forall>p\<in>set grp. \<not> is_delimiter p)"
    then obtain pre grp where "ps = pre @ Global s2n_equal_preference_group_start # grp"
      "\<forall>p\<in>set grp. \<not> is_delimiter p" by blast
    then have "p # ps = (p # pre) @ Global s2n_equal_preference_group_start # grp \<and>
      (\<forall>p\<in>set grp. \<not> is_delimiter p)" by simp
    then show ?thesis by blast
  qed
qed

lemma well_formed_suffix:
  "well_formed_from g (xs @ ys) \<Longrightarrow> well_formed_from (in_group_after g xs) ys"
  by (induction xs arbitrary: g) (auto split: if_splits)

lemma well_formed_closes:
  "well_formed_from True xs \<Longrightarrow>
   \<exists>grp post. xs = grp @ Global s2n_equal_preference_group_end # post \<and>
      (\<forall>p\<in>set grp. \<not> is_delimiter p)"
proof (induction xs)
  case Nil
  then show ?case by simp
next
  case (Cons p ps)
  show ?case
  proof (cases "p = Global s2n_equal_preference_group_end")
    case True
    then have "p # ps = [] @ Global s2n_equal_preference_group_end # ps \<and>
        (\<forall>p\<in>set ([] :: suite_ptr list). \<not> is_delimiter p)" by simp
    then show ?thesis by blast
  next
    case False
    with Cons.prems have ns: "p \<noteq> Global s2n_equal_preference_group_start"
      and wf: "well_formed_from True ps" by (auto split: if_splits)
    from Cons.IH[OF wf] obtain grp post where
      "ps = grp @ Global s2n_equal_preference_group_end # post" "\<forall>p\<in>set grp. \<not> is_delimiter p"
      by blast
    with False ns have "p # ps = (p # grp) @ Global s2n_equal_preference_group_end # post \<and>
        (\<forall>q\<in>set (p # grp). \<not> is_delimiter q)" by (simp add: is_delimiter_def)
    then show ?thesis by blast
  qed
qed

lemma winner_exists:
  fixes f :: "nat \<Rightarrow> verdict"
  assumes "k0 < N" and "f k0 = Usable j0"
  shows "\<exists>k j. k < N \<and> f k = Usable j \<and>
           (\<forall>l<N. \<forall>j'. f l = Usable j' \<longrightarrow> j < j' \<or> (j = j' \<and> k \<le> l))"
proof -
  define J where "J = {j'. \<exists>l<N. f l = Usable j'}"
  have "J \<subseteq> (\<lambda>l. case f l of Usable j \<Rightarrow> j | _ \<Rightarrow> 0) ` {..<N}"
  proof
    fix x assume "x \<in> J"
    then obtain l where l: "l < N" "f l = Usable x" unfolding J_def by blast
    then have "x = (case f l of Usable j \<Rightarrow> j | _ \<Rightarrow> 0)" by simp
    with l(1) show "x \<in> (\<lambda>l. case f l of Usable j \<Rightarrow> j | _ \<Rightarrow> 0) ` {..<N}" by blast
  qed
  then have fin: "finite J" by (rule finite_surj[rotated]) simp
  from assms have ne: "J \<noteq> {}" unfolding J_def by blast
  define j where "j = Min J"
  from Min_in[OF fin ne] have "j \<in> J" unfolding j_def .
  then have ex: "\<exists>l. l < N \<and> f l = Usable j" unfolding J_def by blast
  define k where "k = (LEAST l. l < N \<and> f l = Usable j)"
  from LeastI_ex[OF ex] have k: "k < N" "f k = Usable j" unfolding k_def by auto
  have "\<forall>l<N. \<forall>j'. f l = Usable j' \<longrightarrow> j < j' \<or> (j = j' \<and> k \<le> l)"
  proof (intro allI impI)
    fix l j' assume l: "l < N" and v: "f l = Usable j'"
    then have "j' \<in> J" unfolding J_def by blast
    from Min_le[OF fin this] have le: "j \<le> j'" unfolding j_def .
    show "j < j' \<or> (j = j' \<and> k \<le> l)"
    proof (cases "j = j'")
      case True
      with l v have "l < N \<and> f l = Usable j" by simp
      from Least_le[of "\<lambda>l. l < N \<and> f l = Usable j", OF this] True show ?thesis
        unfolding k_def by simp
    next
      case False
      with le show ?thesis by simp
    qed
  qed
  with k show ?thesis by blast
qed

lemma verdicts_usable_not_delimiter:
  "i < length ps \<Longrightarrow> verdicts E m wire n len ps conn ! i = Usable j \<Longrightarrow> \<not> is_delimiter (ps ! i)"
  by (simp add: verdicts_usable_iff)

lemma group_cases_cover:
  assumes wf: "well_formed prefs"
    and legal: "\<exists>i<length prefs. \<exists>j. verdicts E m wire n len prefs conn ! i = Usable j"
  shows "(\<exists>pre p post j.
            prefs = pre @ p # post \<and> \<not> in_group_after False pre \<and>
            (\<forall>i<length pre. \<forall>j'. verdicts E m wire n len prefs conn ! i \<noteq> Usable j') \<and>
            verdicts E m wire n len prefs conn ! length pre = Usable j) \<or>
         (\<exists>pre grp post k j.
            prefs = pre @ Global s2n_equal_preference_group_start # grp @
                      Global s2n_equal_preference_group_end # post \<and>
            (\<forall>p\<in>set grp. \<not> is_delimiter p) \<and>
            (\<forall>i<length pre. \<forall>j'. verdicts E m wire n len prefs conn ! i \<noteq> Usable j') \<and>
            k < length grp \<and>
            verdicts E m wire n len prefs conn ! (length pre + 1 + k) = Usable j \<and>
            (\<forall>l<length grp. \<forall>j'.
               verdicts E m wire n len prefs conn ! (length pre + 1 + l) = Usable j' \<longrightarrow>
               j < j' \<or> (j = j' \<and> k \<le> l)))"
proof -
  let ?v = "verdicts E m wire n len prefs conn"
  let ?s = "Global s2n_equal_preference_group_start"
  let ?e = "Global s2n_equal_preference_group_end"
  from legal have ex: "\<exists>i. i < length prefs \<and> (\<exists>j. ?v ! i = Usable j)" by blast
  define i0 where "i0 = (LEAST i. i < length prefs \<and> (\<exists>j. ?v ! i = Usable j))"
  from LeastI_ex[OF ex] obtain j0 where i0: "i0 < length prefs" and v0: "?v ! i0 = Usable j0"
    unfolding i0_def by blast
  have before: "\<forall>i<i0. \<forall>j'. ?v ! i \<noteq> Usable j'"
  proof (intro allI impI notI)
    fix i j' assume lt: "i < i0" and u: "?v ! i = Usable j'"
    with i0 have "i < length prefs \<and> (\<exists>j. ?v ! i = Usable j)" by auto
    from Least_le[of "\<lambda>i. i < length prefs \<and> (\<exists>j. ?v ! i = Usable j)", OF this] lt
    show False unfolding i0_def by simp
  qed
  have shape: "prefs = take i0 prefs @ prefs ! i0 # drop (Suc i0) prefs"
    using i0 by (rule id_take_nth_drop)
  have len: "length (take i0 prefs) = i0" using i0 by simp
  have nd: "\<not> is_delimiter (prefs ! i0)"
    using verdicts_usable_not_delimiter[OF i0 v0] .
  show ?thesis
  proof (cases "in_group_after False (take i0 prefs)")
    case False
    from shape False before v0 len
    have "prefs = take i0 prefs @ prefs ! i0 # drop (Suc i0) prefs \<and>
          \<not> in_group_after False (take i0 prefs) \<and>
          (\<forall>i<length (take i0 prefs). \<forall>j'. ?v ! i \<noteq> Usable j') \<and>
          ?v ! length (take i0 prefs) = Usable j0" by simp
    then show ?thesis by blast
  next
    case True
    from in_group_split[OF True] obtain pre g1 where
      tk: "take i0 prefs = pre @ ?s # g1" and g1: "\<forall>p\<in>set g1. \<not> is_delimiter p" by auto
    from wf shape have "well_formed_from False (take i0 prefs @ prefs ! i0 # drop (Suc i0) prefs)"
      unfolding well_formed_def by simp
    from well_formed_suffix[OF this] True
    have "well_formed_from True (prefs ! i0 # drop (Suc i0) prefs)" by simp
    from well_formed_closes[OF this] obtain g2 post where
      rest: "prefs ! i0 # drop (Suc i0) prefs = g2 @ ?e # post"
      and g2: "\<forall>p\<in>set g2. \<not> is_delimiter p" by blast
    from nd rest have g2ne: "g2 \<noteq> []" by (cases g2) (auto simp: is_delimiter_def)
    from shape tk rest have eq: "prefs = pre @ ?s # (g1 @ g2) @ ?e # post" by simp
    from g1 g2 have members: "\<forall>p\<in>set (g1 @ g2). \<not> is_delimiter p" by auto
    from tk have "length (take i0 prefs) = length (pre @ ?s # g1)" by simp
    with len have i0eq: "i0 = length pre + 1 + length g1" by simp
    from before i0eq have none: "\<forall>i<length pre. \<forall>j'. ?v ! i \<noteq> Usable j'" by simp
    from g2ne have k0: "length g1 < length (g1 @ g2)" by simp
    from v0 i0eq have vk0: "?v ! (length pre + 1 + length g1) = Usable j0" by simp
    from winner_exists[of "length g1" "length (g1 @ g2)" "\<lambda>l. ?v ! (length pre + 1 + l)" j0,
        OF k0 vk0]
    obtain k j where "k < length (g1 @ g2)" "?v ! (length pre + 1 + k) = Usable j"
      "\<forall>l<length (g1 @ g2). \<forall>j'. ?v ! (length pre + 1 + l) = Usable j' \<longrightarrow>
          j < j' \<or> (j = j' \<and> k \<le> l)" by blast
    with eq members none have
      "prefs = pre @ ?s # (g1 @ g2) @ ?e # post \<and>
       (\<forall>p\<in>set (g1 @ g2). \<not> is_delimiter p) \<and>
       (\<forall>i<length pre. \<forall>j'. ?v ! i \<noteq> Usable j') \<and>
       k < length (g1 @ g2) \<and>
       ?v ! (length pre + 1 + k) = Usable j \<and>
       (\<forall>l<length (g1 @ g2). \<forall>j'. ?v ! (length pre + 1 + l) = Usable j' \<longrightarrow>
          j < j' \<or> (j = j' \<and> k \<le> l))" by blast
    then show ?thesis by blast
  qed
qed

text \<open>
  Claim C1, as amended. Equal-preference group semantics of
  \<open>s2n_get_negotiated_server_index\<close>, for every well-formed server list, every wire
  and every connection. An entry of the server's list is legal (verdict \<open>Usable j\<close>)
  when it is not a delimiter, its code is on the wire, \<open>j\<close> being the first position of
  the code in the client's list, \<open>s2n_cipher_suite_match_is_valid\<close> accepts it on the
  connection as the validation of the entries before it has left it, and its minimum
  version is at most the connection's version (fourth conjunct). Then:
  \<^item> outside any group (first conjunct): when the first legal entry of the server's
    list stands outside every group, its index is returned;
  \<^item> inside a group (second conjunct): when no entry before a group is legal and the
    group has a legal member, the index returned is that of the legal member whose
    position in the client's list is least (the earlier member in server order if two
    members carry the same code); it is returned when \<open>GROUP_END\<close> is reached;
  \<^item> in a well-formed list with a legal entry one of the two cases applies (third
    conjunct).
  A matched and valid suite whose minimum version exceeds the connection's version is
  not legal: it is passed over, inside and outside groups.
\<close>

theorem group_semantics:
  assumes pol: "security_policy conn = Some sp"
    and prefs: "take (count (cipher_preferences sp)) (suites (cipher_preferences sp)) = prefs"
  shows "(\<forall>pre p post j.
            prefs = pre @ p # post \<and> \<not> in_group_after False pre \<and>
            (\<forall>i<length pre. \<forall>j'. verdicts E m wire n len prefs conn ! i \<noteq> Usable j') \<and>
            verdicts E m wire n len prefs conn ! length pre = Usable j \<longrightarrow>
            fst (s2n_get_negotiated_server_index E m conn wire n len) = int (length pre)) \<and>
         (\<forall>pre grp post k j.
            prefs = pre @ Global s2n_equal_preference_group_start # grp @
                      Global s2n_equal_preference_group_end # post \<and>
            (\<forall>p\<in>set grp. \<not> is_delimiter p) \<and>
            (\<forall>i<length pre. \<forall>j'. verdicts E m wire n len prefs conn ! i \<noteq> Usable j') \<and>
            k < length grp \<and>
            verdicts E m wire n len prefs conn ! (length pre + 1 + k) = Usable j \<and>
            (\<forall>l<length grp. \<forall>j'.
               verdicts E m wire n len prefs conn ! (length pre + 1 + l) = Usable j' \<longrightarrow>
               j < j' \<or> (j = j' \<and> k \<le> l)) \<longrightarrow>
            fst (s2n_get_negotiated_server_index E m conn wire n len) = int (length pre + 1 + k)) \<and>
         (well_formed prefs \<and>
          (\<exists>i<length prefs. \<exists>j. verdicts E m wire n len prefs conn ! i = Usable j) \<longrightarrow>
            (\<exists>pre p post j.
               prefs = pre @ p # post \<and> \<not> in_group_after False pre \<and>
               (\<forall>i<length pre. \<forall>j'. verdicts E m wire n len prefs conn ! i \<noteq> Usable j') \<and>
               verdicts E m wire n len prefs conn ! length pre = Usable j) \<or>
            (\<exists>pre grp post k j.
               prefs = pre @ Global s2n_equal_preference_group_start # grp @
                         Global s2n_equal_preference_group_end # post \<and>
               (\<forall>p\<in>set grp. \<not> is_delimiter p) \<and>
               (\<forall>i<length pre. \<forall>j'. verdicts E m wire n len prefs conn ! i \<noteq> Usable j') \<and>
               k < length grp \<and>
               verdicts E m wire n len prefs conn ! (length pre + 1 + k) = Usable j \<and>
               (\<forall>l<length grp. \<forall>j'.
                  verdicts E m wire n len prefs conn ! (length pre + 1 + l) = Usable j' \<longrightarrow>
                  j < j' \<or> (j = j' \<and> k \<le> l)))) \<and>
         (\<forall>i<length prefs. \<forall>j.
            verdicts E m wire n len prefs conn ! i = Usable j \<longleftrightarrow>
              \<not> is_delimiter (prefs ! i) \<and> 0 \<le> j \<and> nat j < n \<and>
              theirs wire (nat j) len = iana_value (m (prefs ! i)) \<and>
              (\<forall>i'<nat j. theirs wire i' len \<noteq> iana_value (m (prefs ! i))) \<and>
              fst (s2n_cipher_suite_match_is_valid E
                     (conn_after E m wire n len (take i prefs) conn) (m (prefs ! i))) \<and>
              minimum_required_tls_version (m (prefs ! i)) \<le> actual_protocol_version conn)"
proof (intro conjI)
  show "\<forall>pre p post j.
            prefs = pre @ p # post \<and> \<not> in_group_after False pre \<and>
            (\<forall>i<length pre. \<forall>j'. verdicts E m wire n len prefs conn ! i \<noteq> Usable j') \<and>
            verdicts E m wire n len prefs conn ! length pre = Usable j \<longrightarrow>
            fst (s2n_get_negotiated_server_index E m conn wire n len) = int (length pre)"
  proof (intro allI impI)
    fix pre p post j
    assume a: "prefs = pre @ p # post \<and> \<not> in_group_after False pre \<and>
            (\<forall>i<length pre. \<forall>j'. verdicts E m wire n len prefs conn ! i \<noteq> Usable j') \<and>
            verdicts E m wire n len prefs conn ! length pre = Usable j"
    then have eq: "prefs = pre @ p # post" by simp
    from a show "fst (s2n_get_negotiated_server_index E m conn wire n len) = int (length pre)"
      unfolding eq
      by (intro selection_outside_group[OF pol prefs[unfolded eq], of E m wire n len j]) auto
  qed
next
  show "\<forall>pre grp post k j.
            prefs = pre @ Global s2n_equal_preference_group_start # grp @
                      Global s2n_equal_preference_group_end # post \<and>
            (\<forall>p\<in>set grp. \<not> is_delimiter p) \<and>
            (\<forall>i<length pre. \<forall>j'. verdicts E m wire n len prefs conn ! i \<noteq> Usable j') \<and>
            k < length grp \<and>
            verdicts E m wire n len prefs conn ! (length pre + 1 + k) = Usable j \<and>
            (\<forall>l<length grp. \<forall>j'.
               verdicts E m wire n len prefs conn ! (length pre + 1 + l) = Usable j' \<longrightarrow>
               j < j' \<or> (j = j' \<and> k \<le> l)) \<longrightarrow>
            fst (s2n_get_negotiated_server_index E m conn wire n len) = int (length pre + 1 + k)"
  proof (intro allI impI)
    fix pre grp post k j
    assume a: "prefs = pre @ Global s2n_equal_preference_group_start # grp @
                      Global s2n_equal_preference_group_end # post \<and>
            (\<forall>p\<in>set grp. \<not> is_delimiter p) \<and>
            (\<forall>i<length pre. \<forall>j'. verdicts E m wire n len prefs conn ! i \<noteq> Usable j') \<and>
            k < length grp \<and>
            verdicts E m wire n len prefs conn ! (length pre + 1 + k) = Usable j \<and>
            (\<forall>l<length grp. \<forall>j'.
               verdicts E m wire n len prefs conn ! (length pre + 1 + l) = Usable j' \<longrightarrow>
               j < j' \<or> (j = j' \<and> k \<le> l))"
    then have eq: "prefs = pre @ Global s2n_equal_preference_group_start # grp @
                      Global s2n_equal_preference_group_end # post" by simp
    from a show "fst (s2n_get_negotiated_server_index E m conn wire n len) = int (length pre + 1 + k)"
      unfolding eq
      by (intro selection_inside_group[OF pol prefs[unfolded eq], of E m wire n len k j]) auto
  qed
next
  show "well_formed prefs \<and>
          (\<exists>i<length prefs. \<exists>j. verdicts E m wire n len prefs conn ! i = Usable j) \<longrightarrow>
            (\<exists>pre p post j.
               prefs = pre @ p # post \<and> \<not> in_group_after False pre \<and>
               (\<forall>i<length pre. \<forall>j'. verdicts E m wire n len prefs conn ! i \<noteq> Usable j') \<and>
               verdicts E m wire n len prefs conn ! length pre = Usable j) \<or>
            (\<exists>pre grp post k j.
               prefs = pre @ Global s2n_equal_preference_group_start # grp @
                         Global s2n_equal_preference_group_end # post \<and>
               (\<forall>p\<in>set grp. \<not> is_delimiter p) \<and>
               (\<forall>i<length pre. \<forall>j'. verdicts E m wire n len prefs conn ! i \<noteq> Usable j') \<and>
               k < length grp \<and>
               verdicts E m wire n len prefs conn ! (length pre + 1 + k) = Usable j \<and>
               (\<forall>l<length grp. \<forall>j'.
                  verdicts E m wire n len prefs conn ! (length pre + 1 + l) = Usable j' \<longrightarrow>
                  j < j' \<or> (j = j' \<and> k \<le> l)))"
  proof
    assume a: "well_formed prefs \<and>
          (\<exists>i<length prefs. \<exists>j. verdicts E m wire n len prefs conn ! i = Usable j)"
    then have wf: "well_formed prefs"
      and legal: "\<exists>i<length prefs. \<exists>j. verdicts E m wire n len prefs conn ! i = Usable j"
      by simp_all
    show "(\<exists>pre p post j.
               prefs = pre @ p # post \<and> \<not> in_group_after False pre \<and>
               (\<forall>i<length pre. \<forall>j'. verdicts E m wire n len prefs conn ! i \<noteq> Usable j') \<and>
               verdicts E m wire n len prefs conn ! length pre = Usable j) \<or>
            (\<exists>pre grp post k j.
               prefs = pre @ Global s2n_equal_preference_group_start # grp @
                         Global s2n_equal_preference_group_end # post \<and>
               (\<forall>p\<in>set grp. \<not> is_delimiter p) \<and>
               (\<forall>i<length pre. \<forall>j'. verdicts E m wire n len prefs conn ! i \<noteq> Usable j') \<and>
               k < length grp \<and>
               verdicts E m wire n len prefs conn ! (length pre + 1 + k) = Usable j \<and>
               (\<forall>l<length grp. \<forall>j'.
                  verdicts E m wire n len prefs conn ! (length pre + 1 + l) = Usable j' \<longrightarrow>
                  j < j' \<or> (j = j' \<and> k \<le> l)))"
      by (rule group_cases_cover[OF wf legal])
  qed
next
  show "\<forall>i<length prefs. \<forall>j.
            verdicts E m wire n len prefs conn ! i = Usable j \<longleftrightarrow>
              \<not> is_delimiter (prefs ! i) \<and> 0 \<le> j \<and> nat j < n \<and>
              theirs wire (nat j) len = iana_value (m (prefs ! i)) \<and>
              (\<forall>i'<nat j. theirs wire i' len \<noteq> iana_value (m (prefs ! i))) \<and>
              fst (s2n_cipher_suite_match_is_valid E
                     (conn_after E m wire n len (take i prefs) conn) (m (prefs ! i))) \<and>
              minimum_required_tls_version (m (prefs ! i)) \<le> actual_protocol_version conn"
  proof (intro allI impI)
    fix i j assume "i < length prefs"
    then show "verdicts E m wire n len prefs conn ! i = Usable j \<longleftrightarrow>
              \<not> is_delimiter (prefs ! i) \<and> 0 \<le> j \<and> nat j < n \<and>
              theirs wire (nat j) len = iana_value (m (prefs ! i)) \<and>
              (\<forall>i'<nat j. theirs wire i' len \<noteq> iana_value (m (prefs ! i))) \<and>
              fst (s2n_cipher_suite_match_is_valid E
                     (conn_after E m wire n len (take i prefs) conn) (m (prefs ! i))) \<and>
              minimum_required_tls_version (m (prefs ! i)) \<le> actual_protocol_version conn"
      by (rule verdicts_usable_iff)
  qed
qed

theorem group_semantics_witness:
  "well_formed (suites cipher_preferences_test_all_equal_preference_tls13) \<and>
   fst (s2n_get_negotiated_server_index test_env test_mem
          (test_conn S2N_TLS13 cipher_preferences_test_all_equal_preference_tls13)
          [0x13, 0x03, 0x13, 0x02, 0x13, 0x01] 3 2) = 3 \<and>
   well_formed (suites cipher_preferences_ecdhe_gcm) \<and>
   fst (s2n_get_negotiated_server_index test_env test_mem
          (test_conn S2N_TLS12 cipher_preferences_ecdhe_gcm)
          [0xC0, 0x30, 0xC0, 0x2F] 2 2) = 0"
proof -
  let ?c2 = "test_conn S2N_TLS13 cipher_preferences_test_all_equal_preference_tls13"
  let ?p2 = "suites cipher_preferences_test_all_equal_preference_tls13"
  let ?w2 = "[0x13, 0x03, 0x13, 0x02, 0x13, 0x01] :: uint8_t list"
  let ?grp = "[Global s2n_tls13_aes_128_gcm_sha256, Global s2n_tls13_aes_256_gcm_sha384,
       Global s2n_tls13_chacha20_poly1305_sha256]"
  let ?vs2 = "verdicts test_env test_mem ?w2 3 2 ?p2 ?c2"
  have vs2: "?vs2 = [Delimiter, Usable 2, Usable 1, Usable 0, Delimiter]"
    by (rule verdicts_equal_preference_tls13)
  have pol2: "security_policy ?c2 =
      Some \<lparr>cipher_preferences = cipher_preferences_test_all_equal_preference_tls13\<rparr>"
    by (simp add: test_conn_def)
  have take2: "take (count (cipher_preferences
        \<lparr>cipher_preferences = cipher_preferences_test_all_equal_preference_tls13\<rparr>))
      (suites (cipher_preferences
        \<lparr>cipher_preferences = cipher_preferences_test_all_equal_preference_tls13\<rparr>)) = ?p2"
    by (simp add: cipher_preferences_test_all_equal_preference_tls13_def)
  have shape2: "?p2 = [] @ Global s2n_equal_preference_group_start # ?grp @
      Global s2n_equal_preference_group_end # []"
    by (simp add: cipher_preferences_test_all_equal_preference_tls13_def)
  have members: "\<forall>p\<in>set ?grp. \<not> is_delimiter p" by (simp add: is_delimiter_def)
  have none2: "\<forall>i<length ([] :: suite_ptr list). \<forall>j'. ?vs2 ! i \<noteq> Usable j'" by simp
  have k2: "2 < length ?grp" by simp
  have win2: "?vs2 ! (length ([] :: suite_ptr list) + 1 + 2) = Usable 0"
    unfolding vs2 by simp
  have least2: "\<forall>l<length ?grp. \<forall>j'.
      ?vs2 ! (length ([] :: suite_ptr list) + 1 + l) = Usable j' \<longrightarrow> 0 < j' \<or> (0 = j' \<and> 2 \<le> l)"
  proof (intro allI impI)
    fix l j'
    assume l: "l < length ?grp"
      and v: "?vs2 ! (length ([] :: suite_ptr list) + 1 + l) = Usable j'"
    from l consider "l = 0" | "l = 1" | "l = 2" by fastforce
    then show "0 < j' \<or> (0 = j' \<and> 2 \<le> l)"
      using v unfolding vs2 by cases auto
  qed
  from shape2 members none2 k2 win2 least2
  have hyp2: "?p2 = [] @ Global s2n_equal_preference_group_start # ?grp @
                      Global s2n_equal_preference_group_end # [] \<and>
            (\<forall>p\<in>set ?grp. \<not> is_delimiter p) \<and>
            (\<forall>i<length ([] :: suite_ptr list). \<forall>j'. ?vs2 ! i \<noteq> Usable j') \<and>
            2 < length ?grp \<and>
            ?vs2 ! (length ([] :: suite_ptr list) + 1 + 2) = Usable 0 \<and>
            (\<forall>l<length ?grp. \<forall>j'.
               ?vs2 ! (length ([] :: suite_ptr list) + 1 + l) = Usable j' \<longrightarrow>
               0 < j' \<or> (0 = j' \<and> 2 \<le> l))"
    by (intro conjI)
  from group_semantics[OF pol2 take2, of test_env test_mem ?w2 3 2, THEN conjunct2,
      THEN conjunct1, THEN spec, THEN spec, THEN spec, THEN spec, THEN spec, THEN mp, OF hyp2]
  have first: "fst (s2n_get_negotiated_server_index test_env test_mem ?c2 ?w2 3 2) = 3"
    by simp
  let ?c1 = "test_conn S2N_TLS12 cipher_preferences_ecdhe_gcm"
  let ?p1 = "suites cipher_preferences_ecdhe_gcm"
  let ?w1 = "[0xC0, 0x30, 0xC0, 0x2F] :: uint8_t list"
  let ?vs1 = "verdicts test_env test_mem ?w1 2 2 ?p1 ?c1"
  have vs1: "?vs1 = [Usable 1, Usable 0]" by (rule verdicts_ecdhe_gcm)
  have pol1: "security_policy ?c1 = Some \<lparr>cipher_preferences = cipher_preferences_ecdhe_gcm\<rparr>"
    by (simp add: test_conn_def)
  have take1: "take (count (cipher_preferences \<lparr>cipher_preferences = cipher_preferences_ecdhe_gcm\<rparr>))
      (suites (cipher_preferences \<lparr>cipher_preferences = cipher_preferences_ecdhe_gcm\<rparr>)) = ?p1"
    by (simp add: cipher_preferences_ecdhe_gcm_def)
  have shape1: "?p1 = [] @ Global s2n_ecdhe_rsa_with_aes_128_gcm_sha256 #
      [Global s2n_ecdhe_rsa_with_aes_256_gcm_sha384]"
    by (simp add: cipher_preferences_ecdhe_gcm_def)
  have out1: "\<not> in_group_after False ([] :: suite_ptr list)" by simp
  have none1: "\<forall>i<length ([] :: suite_ptr list). \<forall>j'. ?vs1 ! i \<noteq> Usable j'" by simp
  have win1: "?vs1 ! length ([] :: suite_ptr list) = Usable 1" unfolding vs1 by simp
  from shape1 out1 none1 win1
  have hyp1: "?p1 = [] @ Global s2n_ecdhe_rsa_with_aes_128_gcm_sha256 #
                [Global s2n_ecdhe_rsa_with_aes_256_gcm_sha384] \<and>
      \<not> in_group_after False ([] :: suite_ptr list) \<and>
      (\<forall>i<length ([] :: suite_ptr list). \<forall>j'. ?vs1 ! i \<noteq> Usable j') \<and>
      ?vs1 ! length ([] :: suite_ptr list) = Usable 1"
    by (intro conjI)
  from group_semantics[OF pol1 take1, of test_env test_mem ?w1 2 2, THEN conjunct1,
      THEN spec, THEN spec, THEN spec, THEN spec, THEN mp, OF hyp1]
  have second: "fst (s2n_get_negotiated_server_index test_env test_mem ?c1 ?w1 2 2) = 0"
    by simp
  have wf2: "well_formed ?p2"
    by (simp add: well_formed_def cipher_preferences_test_all_equal_preference_tls13_def)
  have wf1: "well_formed ?p1"
    by (simp add: well_formed_def cipher_preferences_ecdhe_gcm_def)
  from first second wf1 wf2 show ?thesis by simp
qed

theorem higher_version_fallback_witness:
  "fst (s2n_get_negotiated_server_index test_env test_mem
          (test_conn S2N_TLS10 cipher_preferences_sha256_first) [0x00, 0x3C] 1 2) = 0 \<and>
   fst (s2n_set_cipher_as_server test_env test_mem
          (Some (test_conn S2N_TLS12 cipher_preferences_test_all_tls13)) [0x13, 0x01] 1 2) =
     Inl S2N_ERR_CIPHER_NOT_SUPPORTED"
proof -
  let ?c1 = "test_conn S2N_TLS10 cipher_preferences_sha256_first"
  let ?p1 = "suites cipher_preferences_sha256_first"
  let ?vs1 = "verdicts test_env test_mem [0x00, 0x3C] 1 2 ?p1 ?c1"
  have vs1: "?vs1 = [TooNew, Unmatched]" by (rule verdicts_sha256_first_one_offer)
  have pol1: "security_policy ?c1 = Some \<lparr>cipher_preferences = cipher_preferences_sha256_first\<rparr>"
    by (simp add: test_conn_def)
  have take1: "take (count (cipher_preferences \<lparr>cipher_preferences = cipher_preferences_sha256_first\<rparr>))
      (suites (cipher_preferences \<lparr>cipher_preferences = cipher_preferences_sha256_first\<rparr>)) = ?p1"
    by (simp add: cipher_preferences_sha256_first_def)
  have hyp1: "(\<forall>v\<in>set ?vs1. \<forall>j. v \<noteq> Usable j) \<and> 0 < length ?p1 \<and> ?vs1 ! 0 = TooNew \<and>
      (\<forall>i<0. ?vs1 ! i \<noteq> TooNew)"
    unfolding vs1 by (simp add: cipher_preferences_sha256_first_def)
  from higher_version_fallback[OF pol1 take1, of test_env test_mem "[0x00, 0x3C]" 1 2 0,
      THEN conjunct1, THEN mp, OF hyp1]
  have first: "fst (s2n_get_negotiated_server_index test_env test_mem ?c1 [0x00, 0x3C] 1 2) = 0"
    by simp
  let ?c2 = "test_conn S2N_TLS12 cipher_preferences_test_all_tls13"
  let ?sec = "\<lparr>cipher_suite = Some (Global s2n_null_cipher_suite)\<rparr>"
  have pol2: "security_policy ?c2 = Some \<lparr>cipher_preferences = cipher_preferences_test_all_tls13\<rparr>"
    by (simp add: test_conn_def)
  have take2: "take (count (cipher_preferences \<lparr>cipher_preferences = cipher_preferences_test_all_tls13\<rparr>))
      (suites (cipher_preferences \<lparr>cipher_preferences = cipher_preferences_test_all_tls13\<rparr>)) =
      suites cipher_preferences_test_all_tls13"
    by (simp add: cipher_preferences_test_all_tls13_def)
  have hyp2: "actual_protocol_version ?c2 < S2N_TLS13 \<and>
      (\<forall>p\<in>set (suites cipher_preferences_test_all_tls13).
         \<not> is_delimiter p \<longrightarrow> S2N_TLS13 \<le> minimum_required_tls_version (test_mem p))"
    by (simp add: test_conn_def S2N_TLS12_def S2N_TLS13_def cipher_preferences_test_all_tls13_def
        test_mem_static)
  have hyp3: "secure ?c2 = Some ?sec \<and>
      \<not> (client_protocol_version ?c2 < server_protocol_version ?c2 \<and>
         (\<exists>i<1. theirs [0x13, 0x01] i 2 = TLS_FALLBACK_SCSV))"
    by (simp add: test_conn_def)
  from higher_version_fallback[OF pol2 take2, of test_env test_mem "[0x13, 0x01]" 1 2 0,
      THEN conjunct2, THEN mp, OF hyp2, THEN conjunct2, THEN spec, THEN mp, OF hyp3]
  have second: "fst (s2n_set_cipher_as_server test_env test_mem (Some ?c2) [0x13, 0x01] 1 2) =
     Inl S2N_ERR_CIPHER_NOT_SUPPORTED" .
  from first second show ?thesis by simp
qed

section \<open>Verification: what selection commits\<close>

text \<open>
  What a successful server-side selection commits: the suite at the negotiated index of
  the server's list, as it stands in the list, whatever the protocol version.
\<close>

lemma server_commits:
  assumes sec: "secure conn = Some sec"
    and nofb: "\<not> (client_protocol_version conn < server_protocol_version conn \<and>
            (\<exists>i<n. theirs wire i len = TLS_FALLBACK_SCSV))"
    and pol: "security_policy conn = Some sp"
    and c1: "c1 = (if \<exists>i<n. theirs wire i len = TLS_EMPTY_RENEGOTIATION_INFO_SCSV
                   then conn\<lparr>secure_renegotiation := True\<rparr> else conn)"
    and idx: "0 \<le> fst (s2n_get_negotiated_server_index E m c1 wire n len)"
  shows "\<exists>k. s2n_set_cipher_as_server E m (Some conn) wire n len =
           (Inr (), Some (c1\<lparr>kex_params := k,
              secure := Some (sec\<lparr>cipher_suite :=
                Some (suites (cipher_preferences sp) !
                        nat (fst (s2n_get_negotiated_server_index E m c1 wire n len)))\<rparr>)\<rparr>))"
proof -
  have nofb': "\<not> (client_protocol_version conn < server_protocol_version conn \<and>
      s2n_wire_ciphers_contain TLS_FALLBACK_SCSV wire n len \<noteq> 0)"
    using nofb by (simp add: contain_iff)
  have c1': "c1 = (if s2n_wire_ciphers_contain TLS_EMPTY_RENEGOTIATION_INFO_SCSV wire n len \<noteq> 0
                   then conn\<lparr>secure_renegotiation := True\<rparr> else conn)"
    using c1 by (simp add: contain_iff)
  have pol1: "s2n_connection_get_security_policy c1 = Inr sp"
    using pol c1 by (simp add: s2n_connection_get_security_policy_def)
  obtain i c2 where r: "s2n_get_negotiated_server_index E m c1 wire n len = (i, c2)"
    by (cases "s2n_get_negotiated_server_index E m c1 wire n len")
  from negotiated_index_frame[of E m c1 wire n len] r obtain k where k: "c2 = c1\<lparr>kex_params := k\<rparr>"
    by auto
  from idx r have i: "\<not> i < 0" by simp
  have "s2n_set_cipher_as_server E m (Some conn) wire n len =
      (Inr (), Some (c2\<lparr>secure := Some (sec\<lparr>cipher_suite :=
          Some (suites (cipher_preferences sp) ! nat i)\<rparr>)\<rparr>))"
  proof (cases "s2n_wire_ciphers_contain TLS_EMPTY_RENEGOTIATION_INFO_SCSV wire n len \<noteq> 0")
    case True
    with c1' have e: "c1 = conn\<lparr>secure_renegotiation := True\<rparr>" by simp
    from sec nofb' pol1 r i True show ?thesis
      unfolding e by (auto simp: s2n_set_cipher_as_server_def Let_def)
  next
    case False
    with c1' have e: "c1 = conn" by simp
    from sec nofb' pol1 r i False show ?thesis
      unfolding e by (auto simp: s2n_set_cipher_as_server_def Let_def)
  qed
  with k r show ?thesis by auto
qed

lemma record_alg_loop_sslv3:
  "sslv3_record_alg (record_alg_loop E ras cur) = sslv3_record_alg cur"
  by (induction ras) auto

lemma init_step_shadow:
  "s2n_cipher_suites_init_step E p g = (Inr u, g') \<Longrightarrow>
   (case sslv3_record_alg (suite_mem g p) of None \<Rightarrow> False
    | Some ra \<Rightarrow> is_available E (cipher ra)) \<Longrightarrow>
   \<exists>n. sslv3_cipher_suite (suite_mem g' p) = Some (Heap n)"
  by (auto simp: s2n_cipher_suites_init_step_def Let_def s2n_dup_def record_alg_loop_sslv3
      split: if_splits option.splits prod.splits sum.splits)

lemma init_loop_shadow:
  "s2n_cipher_suites_init_loop E ps g = (Inr u, g') \<Longrightarrow> distinct ps \<Longrightarrow>
   Global x \<in> set ps \<Longrightarrow>
   (case sslv3_record_alg (suite_mem g (Global x)) of None \<Rightarrow> False
    | Some ra \<Rightarrow> is_available E (cipher ra)) \<Longrightarrow>
   \<exists>n. sslv3_cipher_suite (suite_mem g' (Global x)) = Some (Heap n)"
proof (induction ps arbitrary: g)
  case Nil
  then show ?case by simp
next
  case (Cons p ps)
  from Cons.prems(1) obtain g1 where
    step: "s2n_cipher_suites_init_step E p g = (Inr (), g1)" and
    rest: "s2n_cipher_suites_init_loop E ps g1 = (Inr u, g')"
    by (auto split: prod.splits sum.splits)
  show ?case
  proof (cases "Global x = p")
    case True
    with Cons.prems(2) have "Global x \<notin> set ps" by simp
    from init_loop_frame[OF rest this] init_step_shadow[OF step] True Cons.prems(4)
    show ?thesis by simp
  next
    case False
    with Cons.prems have "distinct ps" "Global x \<in> set ps" by auto
    moreover from init_step_frame[OF step False] Cons.prems(4)
    have "case sslv3_record_alg (suite_mem g1 (Global x)) of None \<Rightarrow> False
          | Some ra \<Rightarrow> is_available E (cipher ra)" by simp
    ultimately show ?thesis using Cons.IH[OF rest] by blast
  qed
qed

lemma test_mem_shadow:
  "\<exists>n. sslv3_cipher_suite (test_mem (Global s2n_rsa_with_rc4_128_md5)) = Some (Heap n)"
proof -
  obtain g1 where
    loop: "s2n_cipher_suites_init_loop test_env s2n_all_cipher_suites (initial_globals 64) =
           (Inr (), g1)" and
    fin: "suite_mem (snd (s2n_cipher_suites_init test_env (initial_globals 64))) = suite_mem g1"
    using test_mem_ok by (auto simp: s2n_cipher_suites_init_def split: prod.splits sum.splits)
  have mem: "Global s2n_rsa_with_rc4_128_md5 \<in> set s2n_all_cipher_suites"
    by (simp add: s2n_all_cipher_suites_def)
  have "case sslv3_record_alg (suite_mem (initial_globals 64) (Global s2n_rsa_with_rc4_128_md5)) of
          None \<Rightarrow> False | Some ra \<Rightarrow> is_available test_env (cipher ra)"
    by (simp add: initial_globals_def static_mem_def test_env_def)
  from init_loop_shadow[OF loop catalog_distinct mem this] fin show ?thesis
    by (simp add: test_mem_def)
qed

lemma verdicts_rc4_md5:
  "verdicts test_env test_mem [0x00, 0x04] 1 2 (suites cipher_preferences_rc4_md5)
     (test_conn S2N_SSLv3 cipher_preferences_rc4_md5) = [Usable 0]"
  by (simp add: cipher_preferences_rc4_md5_def examine_eval)

lemma index_rc4_md5:
  "fst (s2n_get_negotiated_server_index test_env test_mem
          (test_conn S2N_SSLv3 cipher_preferences_rc4_md5) [0x00, 0x04] 1 2) = 0"
proof -
  let ?c = "test_conn S2N_SSLv3 cipher_preferences_rc4_md5"
  have pol: "security_policy ?c = Some \<lparr>cipher_preferences = cipher_preferences_rc4_md5\<rparr>"
    by (simp add: test_conn_def)
  have tk: "take (count (cipher_preferences \<lparr>cipher_preferences = cipher_preferences_rc4_md5\<rparr>))
      (suites (cipher_preferences \<lparr>cipher_preferences = cipher_preferences_rc4_md5\<rparr>)) =
      [] @ Global s2n_rsa_with_rc4_128_md5 # []"
    by (simp add: cipher_preferences_rc4_md5_def)
  have vs: "verdicts test_env test_mem [0x00, 0x04] 1 2 ([] @ Global s2n_rsa_with_rc4_128_md5 # [])
      ?c = [Usable 0]"
    using verdicts_rc4_md5 by (simp only: cipher_preferences_rc4_md5_def
        s2n_cipher_preferences.simps append_Nil)
  have out: "\<not> in_group_after False ([] :: suite_ptr list)" by simp
  have none: "\<forall>i<length ([] :: suite_ptr list). \<forall>j'.
      verdicts test_env test_mem [0x00, 0x04] 1 2 ([] @ Global s2n_rsa_with_rc4_128_md5 # [])
        ?c ! i \<noteq> Usable j'" by simp
  have first: "verdicts test_env test_mem [0x00, 0x04] 1 2
      ([] @ Global s2n_rsa_with_rc4_128_md5 # []) ?c ! length ([] :: suite_ptr list) = Usable 0"
    unfolding vs by simp
  have "fst (s2n_get_negotiated_server_index test_env test_mem ?c [0x00, 0x04] 1 2) =
      int (length ([] :: suite_ptr list))"
    by (rule selection_outside_group[OF pol tk out none first])
  then show ?thesis by simp
qed

text \<open>
  Claim C3. On a successful server-side selection the chosen suite is written to the
  connection's secure slot; the claim has the SSLv3 shadow substituted when the
  negotiated version is SSLv3, as client-side confirmation does. The run below is an
  SSLv3 connection whose server list is \<open>RC4-MD5\<close>, offered by the client, on the store
  the initializer leaves: \<open>s2n_set_cipher_as_server\<close> commits the catalog suite itself,
  which is not its \<open>sslv3_cipher_suite\<close> (a heap duplicate), while
  \<open>s2n_set_cipher_as_client\<close> on the same connection and code commits the
  \<open>sslv3_cipher_suite\<close>.
\<close>

theorem server_commit_sslv3:
  "s2n_set_cipher_as_server test_env test_mem
     (Some (test_conn S2N_SSLv3 cipher_preferences_rc4_md5)) [0x00, 0x04] 1 2 =
   (Inr (), Some ((test_conn S2N_SSLv3 cipher_preferences_rc4_md5)
      \<lparr>secure := Some \<lparr>cipher_suite = Some (Global s2n_rsa_with_rc4_128_md5)\<rparr>\<rparr>)) \<and>
   sslv3_cipher_suite (test_mem (Global s2n_rsa_with_rc4_128_md5)) \<noteq>
     Some (Global s2n_rsa_with_rc4_128_md5) \<and>
   s2n_set_cipher_as_client test_env test_mem
     (Some (test_conn S2N_SSLv3 cipher_preferences_rc4_md5)) (0x00, 0x04) =
   (Inr (), Some ((test_conn S2N_SSLv3 cipher_preferences_rc4_md5)
      \<lparr>secure := Some \<lparr>cipher_suite =
          sslv3_cipher_suite (test_mem (Global s2n_rsa_with_rc4_128_md5))\<rparr>\<rparr>))"
proof -
  let ?c = "test_conn S2N_SSLv3 cipher_preferences_rc4_md5"
  let ?sec = "\<lparr>cipher_suite = Some (Global s2n_null_cipher_suite)\<rparr>"
  obtain n where sh: "sslv3_cipher_suite (test_mem (Global s2n_rsa_with_rc4_128_md5)) = Some (Heap n)"
    using test_mem_shadow by blast
  have c1: "?c = (if \<exists>i<1. theirs [0x00, 0x04] i 2 = TLS_EMPTY_RENEGOTIATION_INFO_SCSV
                   then ?c\<lparr>secure_renegotiation := True\<rparr> else ?c)"
    by (simp add: wire_eval)
  have "\<exists>k. s2n_set_cipher_as_server test_env test_mem (Some ?c) [0x00, 0x04] 1 2 =
           (Inr (), Some (?c\<lparr>kex_params := k,
              secure := Some (?sec\<lparr>cipher_suite :=
                Some (suites (cipher_preferences \<lparr>cipher_preferences = cipher_preferences_rc4_md5\<rparr>) !
                        nat (fst (s2n_get_negotiated_server_index test_env test_mem ?c
                                    [0x00, 0x04] 1 2)))\<rparr>)\<rparr>))"
  proof (rule server_commits[OF _ _ _ c1])
    show "secure ?c = Some ?sec" by (simp add: test_conn_def)
    show "\<not> (client_protocol_version ?c < server_protocol_version ?c \<and>
            (\<exists>i<1. theirs [0x00, 0x04] i 2 = TLS_FALLBACK_SCSV))" by (simp add: test_conn_def)
    show "security_policy ?c = Some \<lparr>cipher_preferences = cipher_preferences_rc4_md5\<rparr>"
      by (simp add: test_conn_def)
    show "0 \<le> fst (s2n_get_negotiated_server_index test_env test_mem ?c [0x00, 0x04] 1 2)"
      unfolding index_rc4_md5 by simp
  qed
  then have server: "s2n_set_cipher_as_server test_env test_mem (Some ?c) [0x00, 0x04] 1 2 =
      (Inr (), Some (?c\<lparr>secure := Some \<lparr>cipher_suite = Some (Global s2n_rsa_with_rc4_128_md5)\<rparr>\<rparr>))"
    unfolding index_rc4_md5 by (auto simp: cipher_preferences_rc4_md5_def test_conn_def)
  have client: "s2n_set_cipher_as_client test_env test_mem (Some ?c) (0x00, 0x04) =
      (Inr (), Some (?c\<lparr>secure := Some \<lparr>cipher_suite =
          sslv3_cipher_suite (test_mem (Global s2n_rsa_with_rc4_128_md5))\<rparr>\<rparr>))"
    by (simp add: s2n_set_cipher_as_client_def s2n_connection_get_security_policy_def
        test_conn_def cipher_preferences_rc4_md5_def test_mem_static memcmp2_def
        fixture_available test_env_def sh)
  from server client sh show ?thesis by simp
qed

text \<open>
  Claim C1 as stated fails where "valid" is what validation accepts: on a TLS 1.0
  connection with server list \<open>AES128-SHA256, AES128-SHA\<close> (no groups) and both codes
  on the wire, the first entry is matched and passes \<open>s2n_cipher_suite_match_is_valid\<close>,
  yet the index returned is 1: the first entry needs TLS 1.2 and is passed over.
\<close>

theorem group_semantics_counterexample:
  "\<not> is_delimiter (Global s2n_rsa_with_aes_128_cbc_sha256) \<and>
   \<not> in_group_after False [] \<and>
   0 \<le> s2n_wire_ciphers_has_server_cipher_at
          (iana_value (test_mem (Global s2n_rsa_with_aes_128_cbc_sha256)))
          [0x00, 0x3C, 0x00, 0x2F] 2 2 \<and>
   fst (s2n_cipher_suite_match_is_valid test_env
          (test_conn S2N_TLS10 cipher_preferences_sha256_first)
          (test_mem (Global s2n_rsa_with_aes_128_cbc_sha256))) \<and>
   suites cipher_preferences_sha256_first ! 0 = Global s2n_rsa_with_aes_128_cbc_sha256 \<and>
   fst (s2n_get_negotiated_server_index test_env test_mem
          (test_conn S2N_TLS10 cipher_preferences_sha256_first)
          [0x00, 0x3C, 0x00, 0x2F] 2 2) = 1"
proof -
  let ?c = "test_conn S2N_TLS10 cipher_preferences_sha256_first"
  have pol: "security_policy ?c = Some \<lparr>cipher_preferences = cipher_preferences_sha256_first\<rparr>"
    by (simp add: test_conn_def)
  have tk: "take (count (cipher_preferences \<lparr>cipher_preferences = cipher_preferences_sha256_first\<rparr>))
      (suites (cipher_preferences \<lparr>cipher_preferences = cipher_preferences_sha256_first\<rparr>)) =
      [Global s2n_rsa_with_aes_128_cbc_sha256] @ Global s2n_rsa_with_aes_128_cbc_sha # []"
    by (simp add: cipher_preferences_sha256_first_def)
  have vs: "verdicts test_env test_mem [0x00, 0x3C, 0x00, 0x2F] 2 2
      ([Global s2n_rsa_with_aes_128_cbc_sha256] @ Global s2n_rsa_with_aes_128_cbc_sha # []) ?c =
      [TooNew, Usable 1]"
    using verdicts_sha256_first_two_offers
    by (simp only: cipher_preferences_sha256_first_def s2n_cipher_preferences.simps
        append_Cons append_Nil)
  have out: "\<not> in_group_after False [Global s2n_rsa_with_aes_128_cbc_sha256]" by simp
  have none: "\<forall>i<length [Global s2n_rsa_with_aes_128_cbc_sha256]. \<forall>j'.
      verdicts test_env test_mem [0x00, 0x3C, 0x00, 0x2F] 2 2
        ([Global s2n_rsa_with_aes_128_cbc_sha256] @ Global s2n_rsa_with_aes_128_cbc_sha # [])
        ?c ! i \<noteq> Usable j'"
    unfolding vs by simp
  have first: "verdicts test_env test_mem [0x00, 0x3C, 0x00, 0x2F] 2 2
      ([Global s2n_rsa_with_aes_128_cbc_sha256] @ Global s2n_rsa_with_aes_128_cbc_sha # [])
      ?c ! length [Global s2n_rsa_with_aes_128_cbc_sha256] = Usable 1"
    unfolding vs by simp
  have "fst (s2n_get_negotiated_server_index test_env test_mem ?c [0x00, 0x3C, 0x00, 0x2F] 2 2) =
      int (length [Global s2n_rsa_with_aes_128_cbc_sha256])"
    by (rule selection_outside_group[OF pol tk out none first])
  then have idx: "fst (s2n_get_negotiated_server_index test_env test_mem ?c
      [0x00, 0x3C, 0x00, 0x2F] 2 2) = 1" by simp
  have a: "\<not> is_delimiter (Global s2n_rsa_with_aes_128_cbc_sha256)"
    by (simp add: is_delimiter_def)
  have b: "0 \<le> s2n_wire_ciphers_has_server_cipher_at
          (iana_value (test_mem (Global s2n_rsa_with_aes_128_cbc_sha256)))
          [0x00, 0x3C, 0x00, 0x2F] 2 2"
    by (simp add: has_at_eval)
  have c: "fst (s2n_cipher_suite_match_is_valid test_env ?c
          (test_mem (Global s2n_rsa_with_aes_128_cbc_sha256)))"
    by (simp add: examine_eval)
  have d: "suites cipher_preferences_sha256_first ! 0 = Global s2n_rsa_with_aes_128_cbc_sha256"
    by (simp add: cipher_preferences_sha256_first_def)
  from a b c d idx show ?thesis by simp
qed

end
